theory Spec2Isabelle
  imports Complex_Main
begin

section \<open>Strings and the values of the options parser\<close>

text \<open>
  A string is a list of characters with codes below 256: the part of the code units of a
  JavaScript string that the type has. Of the white space of the language (\<^verbatim>\<open>\s\<close> in a
  regular expression, and what \<^verbatim>\<open>trim\<close> and the number grammar skip) these are TAB, LF,
  VT, FF, CR, SP and the no-break space.
\<close>

definition is_space :: "char \<Rightarrow> bool" where
  "is_space c =
     (c \<in> set [CHR 0x09, CHR 0x0A, CHR 0x0B, CHR 0x0C, CHR 0x0D, CHR '' '', CHR 0xA0])"

text \<open>
  \<^verbatim>\<open>str.replace(/\s*d\s*/g, d)\<close> for a delimiter \<open>d\<close> that is not white space. At
  each index the expression matches exactly when the maximal run of spaces starting there
  is followed by \<open>d\<close>; the match then also takes the maximal run of spaces behind \<open>d\<close>.
  Where it does not match, the character is copied and the search moves on by one.
\<close>

function replace_spaces_around :: "char \<Rightarrow> string \<Rightarrow> string" where
  "replace_spaces_around d [] = []"
| "replace_spaces_around d (c # cs) =
     (case dropWhile is_space (c # cs) of
        [] \<Rightarrow> c # replace_spaces_around d cs
      | x # rest \<Rightarrow>
          if x = d then d # replace_spaces_around d (dropWhile is_space rest)
          else c # replace_spaces_around d cs)"
  by pat_completeness auto
termination
proof (relation "measure (\<lambda>(d, s). length s)", goal_cases)
  case 1
  show ?case by simp
next
  case (2 d c cs)
  show ?case by simp
next
  case (3 d c cs x rest)
  have "length (x # rest) \<le> length (c # cs)"
    using 3(1) length_dropWhile_le [of is_space "c # cs"] by simp
  moreover have "length (dropWhile is_space rest) \<le> length rest"
    by (rule length_dropWhile_le)
  ultimately show ?case by simp
next
  case (4 d c cs x rest)
  show ?case by simp
qed

text \<open>
  \<^verbatim>\<open>s.split(sep)\<close> for a string separator: \<open>cur\<close> is the piece being read. The
  empty separator splits into characters, as in JavaScript.
\<close>

function split_from :: "string \<Rightarrow> string \<Rightarrow> string \<Rightarrow> string list" where
  "split_from sep cur s =
     (if s = [] then [cur]
      else if sep \<noteq> [] \<and> take (length sep) s = sep
        then cur # split_from sep [] (drop (length sep) s)
      else split_from sep (cur @ [hd s]) (tl s))"
  by pat_completeness auto
termination
  by (relation "measure (\<lambda>(sep, cur, s). length s)") auto

declare split_from.simps [simp del]

definition split :: "string \<Rightarrow> string \<Rightarrow> string list" where
  "split sep s = (if sep = [] then map (\<lambda>c. [c]) s else split_from sep [] s)"

definition trim :: "string \<Rightarrow> string" where
  "trim s = rev (dropWhile is_space (rev (dropWhile is_space s)))"

subsection \<open>Numbers read from strings\<close>

text \<open>
  A number of the language is a double. A finite one is kept as the rational number it
  is exactly, the negative zero apart; NaN is \<open>None\<close> of the option type around it.
\<close>

datatype double = Double rat | MinusZero | Infinity | MinusInfinity

text \<open>The number of binary digits of a natural number.\<close>

fun bit_length :: "nat \<Rightarrow> nat" where
  "bit_length n = (if n = 0 then 0 else Suc (bit_length (n div 2)))"

declare bit_length.simps [simp del]

definition pow2 :: "int \<Rightarrow> rat" where
  "pow2 e = (if 0 \<le> e then 2 ^ nat e else 1 / 2 ^ nat (- e))"

text \<open>\<open>a / b\<close> rounded to the nearest integer, a tie to the even one.\<close>

definition round_half_even :: "nat \<Rightarrow> nat \<Rightarrow> nat" where
  "round_half_even a b =
     (let f = a div b; r = a mod b
      in if 2 * r < b then f
         else if b < 2 * r then Suc f
         else if even f then f else Suc f)"

text \<open>
  The double for the positive rational \<open>num / den\<close>, as the language fixes it for the
  mathematical value of a numeric string: the nearest double, a tie going to the one with
  the even significand, and the infinity from \<open>2 ^ 1024\<close> on. With \<open>e\<close> the exponent of
  the value (\<open>2 ^ e \<le> num / den < 2 ^ (e + 1)\<close>, not below the least exponent - 1022 of a
  normal double), doubles around the value are the multiples of \<open>2 ^ (e - 52)\<close>. The sign
  is put on afterwards; a magnitude that rounds to zero keeps it.
\<close>

definition binary_exponent :: "nat \<Rightarrow> nat \<Rightarrow> int" where
  "binary_exponent num den =
     (let e0 = int (bit_length num) - int (bit_length den)
      in if (if 0 \<le> e0 then 2 ^ nat e0 * den \<le> num else den \<le> 2 ^ nat (- e0) * num)
         then e0 else e0 - 1)"

definition to_double :: "bool \<Rightarrow> nat \<Rightarrow> nat \<Rightarrow> double" where
  "to_double negative num den =
     (if num = 0 then (if negative then MinusZero else Double 0)
      else
        let shift = max (binary_exponent num den) (- 1022) - 52;
            n = (if 0 \<le> shift then round_half_even num (den * 2 ^ nat shift)
                 else round_half_even (num * 2 ^ nat (- shift)) den);
            magnitude = of_nat n * pow2 shift
        in if pow2 1024 \<le> magnitude then (if negative then MinusInfinity else Infinity)
           else if n = 0 then (if negative then MinusZero else Double 0)
           else Double (if negative then - magnitude else magnitude))"

text \<open>
  \<^verbatim>\<open>isNaN(val)\<close> and \<^verbatim>\<open>+val\<close> on a string apply the language's string-to-number
  conversion (StringNumericLiteral): optional white space around a signed decimal literal
  with optional fraction and exponent, \<^verbatim>\<open>Infinity\<close>, or an unsigned binary, octal or
  hexadecimal integer; the empty string is 0. The result \<open>None\<close> is NaN. (The language
  lets an implementation ignore the digits after the twentieth significant one; the
  conversion here is the exact one, which the engines use.)
\<close>

definition digit_of :: "char \<Rightarrow> nat option" where
  "digit_of = map_of
     [(CHR ''0'', 0), (CHR ''1'', 1), (CHR ''2'', 2), (CHR ''3'', 3), (CHR ''4'', 4),
      (CHR ''5'', 5), (CHR ''6'', 6), (CHR ''7'', 7), (CHR ''8'', 8), (CHR ''9'', 9)]"

definition hex_digit_of :: "char \<Rightarrow> nat option" where
  "hex_digit_of c =
     (case digit_of c of
        Some d \<Rightarrow> Some d
      | None \<Rightarrow> map_of
          [(CHR ''a'', 10), (CHR ''b'', 11), (CHR ''c'', 12), (CHR ''d'', 13), (CHR ''e'', 14),
           (CHR ''f'', 15), (CHR ''A'', 10), (CHR ''B'', 11), (CHR ''C'', 12), (CHR ''D'', 13),
           (CHR ''E'', 14), (CHR ''F'', 15)] c)"

definition is_digit :: "char \<Rightarrow> bool" where
  "is_digit c = (digit_of c \<noteq> None)"

text \<open>The value of a non-empty run of digits in a base; \<open>None\<close> when a character is no digit.\<close>

definition digits_value :: "nat \<Rightarrow> (char \<Rightarrow> nat option) \<Rightarrow> string \<Rightarrow> nat option" where
  "digits_value base digit s =
     (if s = [] then None
      else case those (map digit s) of
             None \<Rightarrow> None
           | Some ds \<Rightarrow>
               if list_all (\<lambda>d. d < base) ds then Some (foldl (\<lambda>a d. a * base + d) 0 ds)
               else None)"

text \<open>ExponentPart: nothing, or \<open>e\<close>/\<open>E\<close>, an optional sign and digits.\<close>

definition exponent_part :: "string \<Rightarrow> int option" where
  "exponent_part s =
     (case s of
        [] \<Rightarrow> Some 0
      | c # r \<Rightarrow>
          if c = CHR ''e'' \<or> c = CHR ''E'' then
            (case r of
               [] \<Rightarrow> None
             | x # ds \<Rightarrow>
                 if x = CHR ''-'' then map_option (\<lambda>n. - int n) (digits_value 10 digit_of ds)
                 else if x = CHR ''+'' then map_option int (digits_value 10 digit_of ds)
                 else map_option int (digits_value 10 digit_of r))
          else None)"

definition pow10 :: "int \<Rightarrow> rat" where
  "pow10 e = (if 0 \<le> e then 10 ^ nat e else 1 / 10 ^ nat (- e))"

text \<open>
  StrUnsignedDecimalLiteral, without \<^verbatim>\<open>Infinity\<close>: the mathematical value of the
  literal as a fraction of two natural numbers, the digits times a power of ten.
\<close>

definition unsigned_decimal :: "string \<Rightarrow> (nat \<times> nat) option" where
  "unsigned_decimal u =
     (let ip = takeWhile is_digit u;
          r1 = dropWhile is_digit u;
          fp = (case r1 of [] \<Rightarrow> [] | c # r \<Rightarrow> if c = CHR ''.'' then takeWhile is_digit r else []);
          r2 = (case r1 of [] \<Rightarrow> [] | c # r \<Rightarrow> if c = CHR ''.'' then dropWhile is_digit r else r1)
      in if ip = [] \<and> fp = [] then None
         else case (digits_value 10 digit_of (CHR ''0'' # ip @ fp), exponent_part r2) of
                (Some m, Some e) \<Rightarrow>
                  (let t = e - int (length fp)
                   in if 0 \<le> t then Some (m * 10 ^ nat t, 1) else Some (m, 10 ^ nat (- t)))
              | _ \<Rightarrow> None)"

definition signed_decimal :: "string \<Rightarrow> double option" where
  "signed_decimal t =
     (case t of
        [] \<Rightarrow> None
      | c # r \<Rightarrow>
          if c = CHR ''-'' then
            (if r = ''Infinity'' then Some MinusInfinity
             else map_option (\<lambda>(num, den). to_double True num den) (unsigned_decimal r))
          else if c = CHR ''+'' then
            (if r = ''Infinity'' then Some Infinity
             else map_option (\<lambda>(num, den). to_double False num den) (unsigned_decimal r))
          else if t = ''Infinity'' then Some Infinity
          else map_option (\<lambda>(num, den). to_double False num den) (unsigned_decimal t))"

definition toNumber :: "string \<Rightarrow> double option" where
  "toNumber s =
     (let t = trim s
      in if t = [] then Some (Double 0)
         else if take 2 t \<in> set [''0x'', ''0X'']
           then map_option (\<lambda>n. to_double False n 1) (digits_value 16 hex_digit_of (drop 2 t))
         else if take 2 t \<in> set [''0o'', ''0O'']
           then map_option (\<lambda>n. to_double False n 1) (digits_value 8 digit_of (drop 2 t))
         else if take 2 t \<in> set [''0b'', ''0B'']
           then map_option (\<lambda>n. to_double False n 1) (digits_value 2 digit_of (drop 2 t))
         else signed_decimal t)"

subsection \<open>parseOptions\<close>

text \<open>
  The values an option can take after parsing. \<open>VUndefined\<close> is the value of a token
  that has no colon (\<^verbatim>\<open>arr[i][1]\<close> is then undefined and both conversions skip it).
\<close>

datatype jsval = VUndefined | VBool bool | VNum double | VStr string

text \<open>\<^verbatim>\<open>val = val === 'true' || (val === 'false' ? false : val)\<close>, for a string.\<close>

definition convert_boolean :: "jsval \<Rightarrow> jsval" where
  "convert_boolean v =
     (case v of
        VStr s \<Rightarrow> if s = ''true'' then VBool True
                  else if s = ''false'' then VBool False else VStr s
      | _ \<Rightarrow> v)"

text \<open>\<^verbatim>\<open>val = !isNaN(val) ? +val : val\<close>, for what is still a string.\<close>

definition convert_number :: "jsval \<Rightarrow> jsval" where
  "convert_number v =
     (case v of
        VStr s \<Rightarrow> (case toNumber s of Some n \<Rightarrow> VNum n | None \<Rightarrow> VStr s)
      | _ \<Rightarrow> v)"

text \<open>
  \<^verbatim>\<open>obj[key] = val\<close> on the object that \<^verbatim>\<open>var obj = {}\<close> made, whose own properties
  the map holds. The object inherits the accessor \<^verbatim>\<open>__proto__\<close> from
  \<^verbatim>\<open>Object.prototype\<close>: an assignment under that name calls its setter, which ignores a
  value that is neither an object nor \<^verbatim>\<open>null\<close>, and no property is made. The values
  here are undefined, booleans, numbers and strings. Under any other name the assignment
  makes or overwrites an own property.
\<close>

definition assign_property :: "string \<Rightarrow> jsval \<Rightarrow> (string \<rightharpoonup> jsval) \<Rightarrow> (string \<rightharpoonup> jsval)" where
  "assign_property key val obj = (if key = ''__proto__'' then obj else obj(key \<mapsto> val))"

text \<open>
  One round of the loop: \<^verbatim>\<open>arr[i] = arr[i].split(':')\<close>, the two conversions, and
  \<^verbatim>\<open>obj[arr[i][0]] = val\<close>. A split never returns the empty list.
\<close>

definition parse_token :: "string \<Rightarrow> (string \<rightharpoonup> jsval) \<Rightarrow> (string \<rightharpoonup> jsval)" where
  "parse_token tok obj =
     (case split '':'' tok of
        [] \<Rightarrow> obj
      | [k] \<Rightarrow> assign_property k VUndefined obj
      | k # v # _ \<Rightarrow> assign_property k (convert_number (convert_boolean (VStr v))) obj)"

definition normalise_delimiters :: "string \<Rightarrow> string" where
  "normalise_delimiters str =
     replace_spaces_around (CHR '','') (replace_spaces_around (CHR '':'') str)"

definition parseOptions :: "string \<Rightarrow> (string \<rightharpoonup> jsval)" where
  "parseOptions str = fold parse_token (split '','' (normalise_delimiters str)) Map.empty"

text \<open>
  The same in the words of the specification. First the spaces around the delimiters: a
  white-space character goes when the nearest other character before it or behind it is
  a colon or a comma (\<open>before\<close> is the text before the character, nearest first).
\<close>

definition nearest :: "(char \<Rightarrow> bool) \<Rightarrow> string \<Rightarrow> bool" where
  "nearest D s = (case dropWhile is_space s of [] \<Rightarrow> False | x # _ \<Rightarrow> D x)"

primrec strip_around :: "(char \<Rightarrow> bool) \<Rightarrow> string \<Rightarrow> string \<Rightarrow> string" where
  "strip_around D before [] = []"
| "strip_around D before (c # cs) =
     (if is_space c \<and> (nearest D before \<or> nearest D cs) then [] else [c])
     @ strip_around D (c # before) cs"

definition is_delimiter :: "char \<Rightarrow> bool" where
  "is_delimiter c = (c = CHR '':'' \<or> c = CHR '','')"

text \<open>
  The coercion rule: a boolean when the text is one of the two words, otherwise a number
  when it parses as one, otherwise the text itself.
\<close>

definition coerce_spec :: "string \<Rightarrow> jsval" where
  "coerce_spec v =
     (if v = ''true'' then VBool True
      else if v = ''false'' then VBool False
      else case toNumber v of Some n \<Rightarrow> VNum n | None \<Rightarrow> VStr v)"

text \<open>
  The key and value a token stands for, read as \<open>key:value\<close>: the text before the
  first colon and the coerced text between the first and the second colon (or the end). A
  token without a colon is a key whose value is undefined.
\<close>

definition token_pair :: "string \<Rightarrow> string \<times> jsval" where
  "token_pair tok =
     (case split '':'' tok of
        k # v # _ \<Rightarrow> (k, coerce_spec v)
      | _ \<Rightarrow> (hd (split '':'' tok), VUndefined))"

section \<open>The page\<close>

text \<open>
  Elements, instances and closures live in stores and are named by numbers, so that two
  references to one object (the overlay and the background shared by all instances, the
  settings object shared with the defaults) stay one object.
\<close>

type_synonym elem_id = nat
type_synonym inst_id = nat
type_synonym closure_id = nat

text \<open>
  The two handlers that one call of \<^verbatim>\<open>syncWithAnimation\<close> creates, named by the
  closure (the call's \<^verbatim>\<open>runningAnimationsCount\<close>) they share.
\<close>

datatype handler = HandleAnimationStart closure_id | HandleAnimationEnd closure_id

text \<open>
  What the library reads and writes of an element: its class list, the inline
  \<^verbatim>\<open>display\<close>, the attribute \<^verbatim>\<open>data-remodal-id\<close>, the \<^verbatim>\<open>namespaces\<close> object
  that \<^verbatim>\<open>events.on\<close> keeps on the element (namespaced event name to callback) and the
  listeners the element really has (event type and callback, in the order they were added).
\<close>

record element =
  classList :: "string list"
  display :: string
  data_remodal_id :: "string option"
  namespaces :: "string \<rightharpoonup> handler"
  listeners :: "(string \<times> handler) list"

datatype STATES = CLOSING | CLOSED | OPENING | OPENED

fun state_name :: "STATES \<Rightarrow> string" where
  "state_name CLOSING = ''closing''"
| "state_name CLOSED = ''closed''"
| "state_name OPENING = ''opening''"
| "state_name OPENED = ''opened''"

datatype STATE_CHANGE_REASONS = CONFIRMATION | CANCELLATION

text \<open>The settings object, with the types of the \<^verbatim>\<open>DEFAULTS\<close> literal.\<close>

record settings =
  hashTracking :: bool
  closeOnConfirm :: bool
  closeOnCancel :: bool
  closeOnEscape :: bool
  closeOnOutsideClick :: bool
  modifier :: string
  appendTo :: "elem_id option"

text \<open>An options object: the settings a caller supplies; an absent key is \<open>None\<close>.\<close>

record options =
  opt_hashTracking :: "bool option"
  opt_closeOnConfirm :: "bool option"
  opt_closeOnCancel :: "bool option"
  opt_closeOnEscape :: "bool option"
  opt_closeOnOutsideClick :: "bool option"
  opt_modifier :: "string option"
  opt_appendTo :: "elem_id option option"

text \<open>
  A \<^verbatim>\<open>Remodal\<close> object. \<open>settings_ref\<close> is the reference held in \<^verbatim>\<open>this.settings\<close>,
  a key of the settings store. Every instance has its four surfaces: the page is taken to
  hold the \<^verbatim>\<open>.remodal-bg\<close> element that the library's markup asks for (without it
  \<^verbatim>\<open>instance.bg.addNSEventListener\<close> raises in every \<^verbatim>\<open>open\<close>).
\<close>

record Remodal =
  settings_ref :: nat
  index :: nat
  state :: STATES
  overlay :: elem_id
  bg :: elem_id
  modal :: elem_id
  wrapper :: elem_id

text \<open>
  The lambdas that \<^verbatim>\<open>open\<close> and \<^verbatim>\<open>close\<close> hand to \<^verbatim>\<open>syncWithAnimation\<close>; each
  is run for the instance the call was made on.
\<close>

datatype action =
    OpenBefore
  | OpenAfter
  | CloseBefore "STATE_CHANGE_REASONS option"
  | CloseAfter "STATE_CHANGE_REASONS option"

text \<open>
  The variables one call of \<^verbatim>\<open>syncWithAnimation\<close> closes over: the counter, the
  instance and the action to run after the animation.
\<close>

record closure =
  runningAnimationsCount :: int
  closure_instance :: inst_id
  doAfterAnimation :: action

text \<open>
  What the page can observe of a call, in order: a custom event dispatched on an element
  by \<^verbatim>\<open>triggerEvent\<close> (type and \<^verbatim>\<open>detail.reason\<close>), \<^verbatim>\<open>element.focus()\<close> and
  \<^verbatim>\<open>element.scrollTo(x, y)\<close>.
\<close>

datatype effect =
    Event elem_id string "STATE_CHANGE_REASONS option"
  | Focus elem_id
  | ElementScrollTo elem_id int int

text \<open>
  The browser, as far as the library asks it. Computed styles are any function of the
  document's elements; the numbers of \<^verbatim>\<open>getAnimationDuration\<close> are doubles, whose
  parsing and arithmetic are taken as given (the type \<open>'n\<close> and its operations), so that
  no property below depends on how they round. \<open>parseFloat\<close> and \<open>parseInt10\<close> are
  applied to \<open>None\<close> where the source indexes a list beyond its end (\<^verbatim>\<open>undefined\<close>).
\<close>

record 'n browser =
  IS_IOS :: bool
  IS_ANIMATION :: bool
  computedStyle :: "(elem_id \<Rightarrow> element) \<Rightarrow> elem_id \<Rightarrow> string \<Rightarrow> string"
  parseFloat :: "string option \<Rightarrow> 'n"
  parseInt10 :: "string option \<Rightarrow> 'n"
  num_times :: "'n \<Rightarrow> 'n \<Rightarrow> 'n"
  num_plus :: "'n \<Rightarrow> 'n \<Rightarrow> 'n"
  num_greater :: "'n \<Rightarrow> 'n \<Rightarrow> bool"
  num_strict_equal :: "'n \<Rightarrow> 'n \<Rightarrow> bool"
  num_zero :: 'n
  NEGATIVE_INFINITY :: 'n

text \<open>
  The state of the page and of the module. \<open>location_hash\<close> is the fragment without
  its \<^verbatim>\<open>#\<close>; \<open>scrollY\<close> is the vertical scroll offset of the page (read in
  \<^verbatim>\<open>open\<close> through whichever of \<^verbatim>\<open>pageYOffset\<close> and \<^verbatim>\<open>scrollTop\<close> the browser
  has); \<open>body_padding_right\<close> is the computed right padding of the body in whole
  pixels and \<open>scrollbar_width\<close> what \<^verbatim>\<open>getScrollbarWidth()\<close> measures.
  \<open>DEFAULTS\<close>, \<open>current\<close>, \<open>scrollTop\<close> and \<open>lookup\<close> are the module's
  variables of these names; \<open>settings_store\<close> holds the settings objects and
  \<open>overlay_element\<close> the element \<^verbatim>\<open>document.querySelector('.remodal-overlay')\<close> finds.
\<close>

record 'n world =
  browser :: "'n browser"
  elems :: "elem_id \<Rightarrow> element"
  next_elem :: elem_id
  html_classList :: "string list"
  body_padding_right :: int
  scrollbar_width :: int
  location_hash :: string
  scrollY :: int
  bg_element :: elem_id
  overlay_element :: "elem_id option"
  settings_store :: "nat \<Rightarrow> settings"
  DEFAULTS :: nat
  instances :: "inst_id \<Rightarrow> Remodal"
  lookup :: "inst_id option list"
  closures :: "closure_id \<Rightarrow> closure"
  next_closure :: closure_id
  current :: "inst_id option"
  scrollTop :: "int option"
  event_log :: "effect list"

section \<open>Helpers\<close>

definition update_elem :: "elem_id \<Rightarrow> (element \<Rightarrow> element) \<Rightarrow> 'n world \<Rightarrow> 'n world" where
  "update_elem el f w = w\<lparr>elems := (elems w)(el := f (elems w el))\<rparr>"

text \<open>
  \<^verbatim>\<open>classes.trim().split(/\s*,\s*|\s+/)\<close> and the test that skips empty pieces: every
  space and every comma lies in a separator and a separator holds nothing else, so the
  pieces that are kept are the maximal runs of other characters.
\<close>

fun tokens_from :: "string \<Rightarrow> string \<Rightarrow> string list" where
  "tokens_from cur [] = (if cur = [] then [] else [cur])"
| "tokens_from cur (c # cs) =
     (if is_space c \<or> c = CHR '','' then (if cur = [] then [] else [cur]) @ tokens_from [] cs
      else tokens_from (cur @ [c]) cs)"

definition class_tokens :: "string \<Rightarrow> string list" where
  "class_tokens classes = tokens_from [] classes"

text \<open>\<^verbatim>\<open>classList.add\<close> and \<^verbatim>\<open>classList.remove\<close> of one token.\<close>

definition classList_add :: "string \<Rightarrow> string list \<Rightarrow> string list" where
  "classList_add c cl = (if c \<in> set cl then cl else cl @ [c])"

definition classList_remove :: "string \<Rightarrow> string list \<Rightarrow> string list" where
  "classList_remove c cl = removeAll c cl"

text \<open>The loops of \<^verbatim>\<open>addClasses\<close> and \<^verbatim>\<open>removeClasses\<close> run from the last piece to the first.\<close>

definition add_tokens :: "string \<Rightarrow> string list \<Rightarrow> string list" where
  "add_tokens classes cl = fold classList_add (rev (class_tokens classes)) cl"

definition remove_tokens :: "string \<Rightarrow> string list \<Rightarrow> string list" where
  "remove_tokens classes cl = fold classList_remove (rev (class_tokens classes)) cl"

definition addClasses :: "elem_id \<Rightarrow> string \<Rightarrow> 'n world \<Rightarrow> 'n world" where
  "addClasses el classes = update_elem el (\<lambda>e. e\<lparr>classList := add_tokens classes (classList e)\<rparr>)"

definition removeClasses :: "elem_id \<Rightarrow> string \<Rightarrow> 'n world \<Rightarrow> 'n world" where
  "removeClasses el classes =
     update_elem el (\<lambda>e. e\<lparr>classList := remove_tokens classes (classList e)\<rparr>)"

definition hide :: "elem_id \<Rightarrow> 'n world \<Rightarrow> 'n world" where
  "hide el = update_elem el (\<lambda>e. e\<lparr>display := ''none''\<rparr>)"

definition setStyle_display :: "elem_id \<Rightarrow> string \<Rightarrow> 'n world \<Rightarrow> 'n world" where
  "setStyle_display el v = update_elem el (\<lambda>e. e\<lparr>display := v\<rparr>)"

definition hasClass :: "string list \<Rightarrow> string \<Rightarrow> bool" where
  "hasClass cl className = (className \<in> set cl)"

definition triggerEvent ::
  "elem_id \<Rightarrow> string \<Rightarrow> STATE_CHANGE_REASONS option \<Rightarrow> 'n world \<Rightarrow> 'n world" where
  "triggerEvent el eventType reason w = w\<lparr>event_log := event_log w @ [Event el eventType reason]\<rparr>"

definition getStyle :: "'n world \<Rightarrow> elem_id \<Rightarrow> string \<Rightarrow> string" where
  "getStyle w el style = computedStyle (browser w) (elems w) el style"

subsection \<open>Namespaced events\<close>

definition join :: "string \<Rightarrow> string list \<Rightarrow> string" where
  "join sep xs = (case xs of [] \<Rightarrow> [] | x # r \<Rightarrow> fold (\<lambda>y acc. acc @ sep @ y) r x)"

definition NAMESPACE :: string where
  "NAMESPACE = ''remodal''"

definition ANIMATIONSTART_EVENTS :: string where
  "ANIMATIONSTART_EVENTS =
     join '' '' (map (\<lambda>eventName. eventName @ ''.'' @ NAMESPACE)
       [''animationstart'', ''webkitAnimationStart'', ''MSAnimationStart'', ''oAnimationStart''])"

definition ANIMATIONEND_EVENTS :: string where
  "ANIMATIONEND_EVENTS =
     join '' '' (map (\<lambda>eventName. eventName @ ''.'' @ NAMESPACE)
       [''animationend'', ''webkitAnimationEnd'', ''MSAnimationEnd'', ''oAnimationEnd''])"

text \<open>\<^verbatim>\<open>event.split('.')[0]\<close>.\<close>

definition event_type :: "string \<Rightarrow> string" where
  "event_type event = (case split ''.'' event of [] \<Rightarrow> [] | t # _ \<Rightarrow> t)"

text \<open>
  \<^verbatim>\<open>addSingleNSEvent\<close>: the callback is recorded under the namespaced name and added
  as a listener of the event type; the browser ignores a listener it already has.
\<close>

definition addSingleNSEvent :: "handler \<Rightarrow> string \<Rightarrow> element \<Rightarrow> element" where
  "addSingleNSEvent cb event e =
     e\<lparr>namespaces := (namespaces e)(event \<mapsto> cb),
       listeners := (if (event_type event, cb) \<in> set (listeners e) then listeners e
                     else listeners e @ [(event_type event, cb)])\<rparr>"

text \<open>
  \<^verbatim>\<open>removeSingleNSEvent\<close>: the callback recorded under the name is removed from the
  listeners (nothing is removed when none is recorded) and the record is deleted. In the
  source an element on which \<^verbatim>\<open>on\<close> was never called has no \<^verbatim>\<open>namespaces\<close> object
  and \<^verbatim>\<open>off\<close> raises on it; here such an element has the empty record.
\<close>

definition removeSingleNSEvent :: "string \<Rightarrow> element \<Rightarrow> element" where
  "removeSingleNSEvent event e =
     e\<lparr>listeners := (case namespaces e event of
                       None \<Rightarrow> listeners e
                     | Some cb \<Rightarrow> removeAll (event_type event, cb) (listeners e)),
       namespaces := (namespaces e)(event := None)\<rparr>"

definition addNSEventListener :: "elem_id \<Rightarrow> string \<Rightarrow> handler \<Rightarrow> 'n world \<Rightarrow> 'n world" where
  "addNSEventListener el events cb =
     update_elem el (fold (addSingleNSEvent cb) (split '' '' events))"

definition removeNSEventListener :: "elem_id \<Rightarrow> string \<Rightarrow> 'n world \<Rightarrow> 'n world" where
  "removeNSEventListener el events = update_elem el (fold removeSingleNSEvent (split '' '' events))"

section \<open>The library\<close>

text \<open>\<^verbatim>\<open>getPrefixedStyles\<close>: the style of the last prefix that has a non-empty one.\<close>

definition getPrefixedStyles :: "'n world \<Rightarrow> elem_id \<Rightarrow> string \<Rightarrow> string option" where
  "getPrefixedStyles w elem styleName =
     fold (\<lambda>prefix matchingStyle.
             if getStyle w elem (prefix @ styleName) \<noteq> []
             then Some (getStyle w elem (prefix @ styleName)) else matchingStyle)
          [[], ''-webkit-'', ''-moz-'', ''-o-'', ''-ms-''] None"

text \<open>\<^verbatim>\<open>xs[i]\<close>, undefined beyond the end.\<close>

definition item :: "'a list \<Rightarrow> nat \<Rightarrow> 'a option" where
  "item xs i = (if i < length xs then Some (xs ! i) else None)"

text \<open>\<^verbatim>\<open>s || d\<close> for a string: the empty string is falsy.\<close>

definition or_default :: "string \<Rightarrow> string \<Rightarrow> string" where
  "or_default s d = (if s = [] then d else s)"

definition getAnimationDuration :: "'n world \<Rightarrow> elem_id \<Rightarrow> 'n" where
  "getAnimationDuration w elem =
     (let b = browser w in
      if IS_ANIMATION b \<and> getPrefixedStyles w elem ''animation-name'' = Some ''none''
      then num_zero b
      else
        let duration = split '', ''
              (case getPrefixedStyles w elem ''animation-duration'' of
                 None \<Rightarrow> ''0s'' | Some d \<Rightarrow> d);
            delay = split '', '' (or_default (getStyle w elem ''animation-delay'') ''0s'');
            iterationCount =
              split '', '' (or_default (getStyle w elem ''animation-iteration-count'') ''1'')
        in fold (\<lambda>i mx.
                   let num = num_plus b
                         (num_times b (parseFloat b (item duration i))
                            (parseInt10 b (item iterationCount i)))
                         (parseFloat b (item delay i))
                   in if num_greater b num mx then num else mx)
                [0 ..< length duration] (NEGATIVE_INFINITY b))"

definition namespacify :: "string list \<Rightarrow> string" where
  "namespacify args = fold (\<lambda>arg result. result @ ''-'' @ arg) args NAMESPACE"

text \<open>
  \<^verbatim>\<open>screenLockToggle\<close>. The padding is read with \<^verbatim>\<open>parseInt\<close> from the computed
  style and written back as \<^verbatim>\<open>px\<close>.
\<close>

definition screenLockToggle :: "string \<Rightarrow> 'n world \<Rightarrow> 'n world" where
  "screenLockToggle act w =
     (if IS_IOS (browser w) then w
      else
        let lockedClass = namespacify [''is-locked''] in
        if hasClass (html_classList w) lockedClass then
          let bodyPaddingRight = body_padding_right w;
              scrollBarWidth = scrollbar_width w;
              paddingRight = (if act = ''lock'' then bodyPaddingRight - scrollBarWidth
                              else bodyPaddingRight + scrollBarWidth);
              w1 = w\<lparr>body_padding_right := paddingRight\<rparr>
          in if act = ''lock''
             then w1\<lparr>html_classList := add_tokens lockedClass (html_classList w1)\<rparr>
             else w1\<lparr>html_classList := remove_tokens lockedClass (html_classList w1)\<rparr>
        else w)"

text \<open>The four surfaces, in the order of \<^verbatim>\<open>['bg', 'overlay', 'wrapper', 'modal']\<close>.\<close>

definition surfaces :: "'n world \<Rightarrow> inst_id \<Rightarrow> elem_id list" where
  "surfaces w i =
     [bg (instances w i), overlay (instances w i), wrapper (instances w i), modal (instances w i)]"

definition the_settings :: "'n world \<Rightarrow> inst_id \<Rightarrow> settings" where
  "the_settings w i = settings_store w (settings_ref (instances w i))"

definition setState ::
  "inst_id \<Rightarrow> STATES \<Rightarrow> bool \<Rightarrow> STATE_CHANGE_REASONS option \<Rightarrow> 'n world \<Rightarrow> 'n world" where
  "setState i st isSilent reason w =
     (let newState = namespacify [''is'', state_name st];
          allStates = join '' '' (map (\<lambda>thisState. namespacify [''is'', state_name thisState])
                                   [CLOSING, CLOSED, OPENING, OPENED]);
          w1 = fold (\<lambda>el w'. addClasses el newState (removeClasses el allStates w'))
                 (surfaces w i) w;
          w2 = w1\<lparr>instances := (instances w1)(i := (instances w1 i)\<lparr>state := st\<rparr>)\<rparr>
      in if \<not> isSilent then triggerEvent (modal (instances w2 i)) (state_name st) reason w2
         else w2)"

text \<open>Removing both handler families from the four surfaces.\<close>

definition detach_handlers :: "inst_id \<Rightarrow> 'n world \<Rightarrow> 'n world" where
  "detach_handlers i w =
     fold (\<lambda>el. removeNSEventListener el (ANIMATIONSTART_EVENTS @ '' '' @ ANIMATIONEND_EVENTS))
       (surfaces w i) w"

definition run_action :: "action \<Rightarrow> inst_id \<Rightarrow> 'n world \<Rightarrow> 'n world" where
  "run_action a i w =
     (case a of
        OpenBefore \<Rightarrow> setState i OPENING False None w
      | OpenAfter \<Rightarrow> setState i OPENED False None w
      | CloseBefore reason \<Rightarrow> setState i CLOSING False reason w
      | CloseAfter reason \<Rightarrow>
          (let w1 = removeClasses (bg (instances w i)) (modifier (the_settings w i)) w;
               w2 = removeClasses (overlay (instances w1 i)) (modifier (the_settings w1 i)) w1;
               w3 = hide (overlay (instances w2 i)) w2;
               w4 = hide (wrapper (instances w3 i)) w3;
               w5 = screenLockToggle ''unlock'' w4
           in setState i CLOSED False reason w5))"

text \<open>
  The first half of \<^verbatim>\<open>syncWithAnimation\<close>: a new closure with the counter at 0, the
  two handlers on each surface, then \<^verbatim>\<open>doBeforeAnimation()\<close>.
\<close>

definition attach_handlers :: "closure_id \<Rightarrow> inst_id \<Rightarrow> 'n world \<Rightarrow> 'n world" where
  "attach_handlers c i w =
     fold (\<lambda>el w'. addNSEventListener el ANIMATIONEND_EVENTS (HandleAnimationEnd c)
                     (addNSEventListener el ANIMATIONSTART_EVENTS (HandleAnimationStart c) w'))
       (surfaces w i) w"

definition new_closure :: "action \<Rightarrow> inst_id \<Rightarrow> 'n world \<Rightarrow> 'n world" where
  "new_closure doAfter i w =
     w\<lparr>closures := (closures w)(next_closure w :=
          \<lparr>runningAnimationsCount = 0, closure_instance = i, doAfterAnimation = doAfter\<rparr>),
       next_closure := Suc (next_closure w)\<rparr>"

definition barrier_entry :: "action \<Rightarrow> action \<Rightarrow> inst_id \<Rightarrow> 'n world \<Rightarrow> 'n world" where
  "barrier_entry doBefore doAfter i w =
     run_action doBefore i (attach_handlers (next_closure w) i (new_closure doAfter i w))"

text \<open>The test of the short circuit: every surface's duration is \<^verbatim>\<open>=== 0\<close>.\<close>

definition no_animation :: "'n world \<Rightarrow> inst_id \<Rightarrow> bool" where
  "no_animation w i =
     list_all (\<lambda>el. num_strict_equal (browser w) (getAnimationDuration w el) (num_zero (browser w)))
       (surfaces w i)"

definition syncWithAnimation :: "action \<Rightarrow> action \<Rightarrow> inst_id \<Rightarrow> 'n world \<Rightarrow> 'n world" where
  "syncWithAnimation doBefore doAfter i w =
     (let w1 = barrier_entry doBefore doAfter i w
      in if no_animation w1 i then run_action doAfter i (detach_handlers i w1) else w1)"

definition halt :: "inst_id \<Rightarrow> 'n world \<Rightarrow> 'n world" where
  "halt i w =
     (if state (instances w i) = CLOSED then w
      else
        let w1 = detach_handlers i w;
            w2 = removeClasses (bg (instances w1 i)) (modifier (the_settings w1 i)) w1;
            w3 = removeClasses (overlay (instances w2 i)) (modifier (the_settings w2 i)) w2;
            w4 = hide (overlay (instances w3 i)) w3;
            w5 = hide (wrapper (instances w4 i)) w4;
            w6 = screenLockToggle ''unlock'' w5
        in setState i CLOSED True None w6)"

subsection \<open>Opening and closing\<close>

text \<open>Statements run in order.\<close>

definition run :: "('s \<Rightarrow> 's) list \<Rightarrow> 's \<Rightarrow> 's" where
  "run statements w = fold (\<lambda>statement. statement) statements w"

text \<open>The states passed: before the first statement and after each one.\<close>

definition points :: "('s \<Rightarrow> 's) list \<Rightarrow> 's \<Rightarrow> 's list" where
  "points statements w = map (\<lambda>k. run (take k statements) w) [0 ..< Suc (length statements)]"

text \<open>
  Assigning to \<^verbatim>\<open>window.location.hash\<close>: one leading \<^verbatim>\<open>#\<close> of the value is dropped.
  (The browser also percent-encodes some characters of the value; identifiers are taken
  to need none.)
\<close>

definition assign_hash :: "string \<Rightarrow> string" where
  "assign_hash v = (case v of [] \<Rightarrow> [] | c # r \<Rightarrow> if c = CHR ''#'' then r else v)"

text \<open>The statements of \<^verbatim>\<open>open\<close> between its guard and its call of \<^verbatim>\<open>syncWithAnimation\<close>.\<close>

definition open_record_scroll :: "inst_id \<Rightarrow> 'n world \<Rightarrow> 'n world" where
  "open_record_scroll i w =
     (case data_remodal_id (elems w (modal (instances w i))) of
        None \<Rightarrow> w
      | Some ident \<Rightarrow>
          if ident \<noteq> [] \<and> hashTracking (the_settings w i)
          then w\<lparr>scrollTop := Some (scrollY w), location_hash := assign_hash ident\<rparr>
          else w)"

definition open_halt_current :: "inst_id \<Rightarrow> 'n world \<Rightarrow> 'n world" where
  "open_halt_current i w =
     (case current w of None \<Rightarrow> w | Some c \<Rightarrow> if c \<noteq> i then halt c w else w)"

definition open_statements :: "inst_id \<Rightarrow> ('n world \<Rightarrow> 'n world) list" where
  "open_statements i =
     [open_record_scroll i,
      open_halt_current i,
      (\<lambda>w. w\<lparr>current := Some i\<rparr>),
      screenLockToggle ''lock'',
      (\<lambda>w. addClasses (bg (instances w i)) (modifier (the_settings w i)) w),
      (\<lambda>w. addClasses (overlay (instances w i)) (modifier (the_settings w i)) w),
      (\<lambda>w. setStyle_display (overlay (instances w i)) ''block'' w),
      (\<lambda>w. setStyle_display (wrapper (instances w i)) ''block'' w),
      (\<lambda>w. w\<lparr>event_log := event_log w @ [ElementScrollTo (wrapper (instances w i)) 0 0]\<rparr>),
      (\<lambda>w. w\<lparr>event_log := event_log w @ [Focus (modal (instances w i))]\<rparr>)]"

definition Remodal_open :: "inst_id \<Rightarrow> 'n world \<Rightarrow> 'n world" where
  "Remodal_open i w =
     (if state (instances w i) = OPENING \<or> state (instances w i) = CLOSING then w
      else syncWithAnimation OpenBefore OpenAfter i (run (open_statements i) w))"

text \<open>
  The states that a call of \<^verbatim>\<open>open\<close> passes once its guard lets it through: around the
  statements above, after \<^verbatim>\<open>doBeforeAnimation()\<close> inside the barrier, and at the return.
  An instance's state is written by \<^verbatim>\<open>setState\<close> only, and each of its calls ends one
  of these steps.
\<close>

definition open_points :: "inst_id \<Rightarrow> 'n world \<Rightarrow> 'n world list" where
  "open_points i w =
     points (open_statements i) w @
     [barrier_entry OpenBefore OpenAfter i (run (open_statements i) w),
      syncWithAnimation OpenBefore OpenAfter i (run (open_statements i) w)]"

definition close_clear_hash :: "inst_id \<Rightarrow> 'n world \<Rightarrow> 'n world" where
  "close_clear_hash i w =
     (if hashTracking (the_settings w i) \<and>
         data_remodal_id (elems w (modal (instances w i))) = Some (location_hash w)
      then w\<lparr>location_hash := [], scrollY := 0\<rparr>
      else w)"

definition Remodal_close :: "inst_id \<Rightarrow> STATE_CHANGE_REASONS option \<Rightarrow> 'n world \<Rightarrow> 'n world" where
  "Remodal_close i reason w =
     (if state (instances w i) = OPENING \<or> state (instances w i) = CLOSING
         \<or> state (instances w i) = CLOSED then w
      else syncWithAnimation (CloseBefore reason) (CloseAfter reason) i (close_clear_hash i w))"

subsection \<open>The constructor\<close>

text \<open>
  \<^verbatim>\<open>Object.assign(target, source)\<close> on the settings store: the keys the source has are
  written into the target object itself, and the reference to the target is returned. An
  undefined source writes nothing.
\<close>

definition assign_settings :: "settings \<Rightarrow> options \<Rightarrow> settings" where
  "assign_settings t s =
     \<lparr>hashTracking = (case opt_hashTracking s of None \<Rightarrow> hashTracking t | Some v \<Rightarrow> v),
      closeOnConfirm = (case opt_closeOnConfirm s of None \<Rightarrow> closeOnConfirm t | Some v \<Rightarrow> v),
      closeOnCancel = (case opt_closeOnCancel s of None \<Rightarrow> closeOnCancel t | Some v \<Rightarrow> v),
      closeOnEscape = (case opt_closeOnEscape s of None \<Rightarrow> closeOnEscape t | Some v \<Rightarrow> v),
      closeOnOutsideClick =
        (case opt_closeOnOutsideClick s of None \<Rightarrow> closeOnOutsideClick t | Some v \<Rightarrow> v),
      modifier = (case opt_modifier s of None \<Rightarrow> modifier t | Some v \<Rightarrow> v),
      appendTo = (case opt_appendTo s of None \<Rightarrow> appendTo t | Some v \<Rightarrow> v)\<rparr>"

definition Object_assign :: "nat \<Rightarrow> options option \<Rightarrow> 'n world \<Rightarrow> nat \<times> 'n world" where
  "Object_assign target source w =
     (target,
      case source of
        None \<Rightarrow> w
      | Some s \<Rightarrow>
          w\<lparr>settings_store := (settings_store w)(target := assign_settings (settings_store w target) s)\<rparr>)"

definition createElement :: "'n world \<Rightarrow> elem_id \<times> 'n world" where
  "createElement w =
     (next_elem w,
      w\<lparr>elems := (elems w)(next_elem w :=
           \<lparr>classList = [], display = [], data_remodal_id = None,
            namespaces = Map.empty, listeners = []\<rparr>),
        next_elem := Suc (next_elem w)\<rparr>)"

text \<open>
  \<^verbatim>\<open>new Remodal(modal, options)\<close>, as far as the state above goes: the settings, the
  index and the registration, the state, and the four surfaces with their classes. Where
  the new elements are appended (\<^verbatim>\<open>appendTo\<close>), the \<^verbatim>\<open>tabindex\<close> and the click
  listeners of the buttons and of the wrapper, which call \<^verbatim>\<open>close\<close>, are outside it; the
  records and listeners kept for an element are those of the animation events.
\<close>

definition resolve_overlay :: "'n world \<Rightarrow> elem_id \<times> 'n world" where
  "resolve_overlay w =
     (case overlay_element w of
        Some found \<Rightarrow> (found, w)
      | None \<Rightarrow>
          (let (created, v) = createElement w;
               v1 = addClasses created
                      (namespacify [''overlay''] @ '' '' @ namespacify [''is'', state_name CLOSED]) v;
               v2 = hide created v1
           in (created, v2\<lparr>overlay_element := Some created\<rparr>)))"

definition Remodal_constructor :: "elem_id \<Rightarrow> options option \<Rightarrow> 'n world \<Rightarrow> inst_id \<times> 'n world" where
  "Remodal_constructor modal_el opts w =
     (let (sref, w1) = Object_assign (DEFAULTS w) opts w;
          idx = length (lookup w1);
          w2 = w1\<lparr>lookup := lookup w1 @ [Some idx]\<rparr>;
          (ov, w3) = resolve_overlay w2;
          b = bg_element w3;
          w4 = update_elem b
                 (\<lambda>e. e\<lparr>classList := classList_add (namespacify [''is'', state_name CLOSED]) (classList e)\<rparr>) w3;
          m = modifier (settings_store w4 sref);
          w5 = addClasses modal_el
                 (NAMESPACE @ '' '' @ namespacify [''is-initialized''] @ '' '' @ m @ '' '' @
                  namespacify [''is'', state_name CLOSED]) w4;
          (wr, w6) = createElement w5;
          w7 = addClasses wr
                 (namespacify [''wrapper''] @ '' '' @ m @ '' '' @ namespacify [''is'', state_name CLOSED]) w6;
          w8 = hide wr w7
      in (idx,
          w8\<lparr>instances := (instances w8)(idx :=
               \<lparr>settings_ref = sref, index = idx, state = CLOSED, overlay = ov, bg = b,
                modal = modal_el, wrapper = wr\<rparr>)\<rparr>))"

subsection \<open>Animation events\<close>

text \<open>
  An event the browser dispatches: its type, its target, and the target's ancestors, which
  the event visits after the target as it bubbles.
\<close>

record signal =
  signal_type :: string
  signal_target :: elem_id
  signal_ancestors :: "elem_id list"

text \<open>
  A handler called on the element \<open>this\<close> for an event with the given target:
  \<^verbatim>\<open>handleAnimationStart\<close> and \<^verbatim>\<open>handleAnimationEnd\<close>.
\<close>

definition invoke :: "handler \<Rightarrow> elem_id \<Rightarrow> elem_id \<Rightarrow> 'n world \<Rightarrow> 'n world" where
  "invoke h this target w =
     (case h of
        HandleAnimationStart c \<Rightarrow>
          if target \<noteq> this then w
          else w\<lparr>closures := (closures w)(c := (closures w c)
                  \<lparr>runningAnimationsCount := runningAnimationsCount (closures w c) + 1\<rparr>)\<rparr>
      | HandleAnimationEnd c \<Rightarrow>
          if target \<noteq> this then w
          else
            let w1 = w\<lparr>closures := (closures w)(c := (closures w c)
                       \<lparr>runningAnimationsCount := runningAnimationsCount (closures w c) - 1\<rparr>)\<rparr>;
                noMoreAnimations = (runningAnimationsCount (closures w1 c) = 0)
            in if noMoreAnimations
               then run_action (doAfterAnimation (closures w1 c)) (closure_instance (closures w1 c))
                      (detach_handlers (closure_instance (closures w1 c)) w1)
               else w1)"

text \<open>
  The listeners of one element for the event's type are called in the order they were
  added; one that an earlier listener removed is not called.
\<close>

definition dispatch_at :: "string \<Rightarrow> elem_id \<Rightarrow> elem_id \<Rightarrow> 'n world \<Rightarrow> 'n world" where
  "dispatch_at typ target el w =
     fold (\<lambda>h w'. if (typ, h) \<in> set (listeners (elems w' el)) then invoke h el target w' else w')
       (map snd (filter (\<lambda>l. fst l = typ) (listeners (elems w el)))) w"

definition dispatchEvent :: "signal \<Rightarrow> 'n world \<Rightarrow> 'n world" where
  "dispatchEvent sg w =
     fold (dispatch_at (signal_type sg) (signal_target sg))
       (signal_target sg # filter (\<lambda>el. el \<noteq> signal_target sg) (signal_ancestors sg)) w"

section \<open>Notions used in the statements\<close>

text \<open>
  The namespaced records and the listeners that one barrier leaves on a surface: the
  start handler under the four start names, the end handler under the four end names.
\<close>

definition start_types :: "string list" where
  "start_types = [''animationstart'', ''webkitAnimationStart'', ''MSAnimationStart'', ''oAnimationStart'']"

definition end_types :: "string list" where
  "end_types = [''animationend'', ''webkitAnimationEnd'', ''MSAnimationEnd'', ''oAnimationEnd'']"

definition barrier_names :: "closure_id \<Rightarrow> (string \<rightharpoonup> handler)" where
  "barrier_names c =
     [''animationstart.remodal'' \<mapsto> HandleAnimationStart c,
      ''webkitAnimationStart.remodal'' \<mapsto> HandleAnimationStart c,
      ''MSAnimationStart.remodal'' \<mapsto> HandleAnimationStart c,
      ''oAnimationStart.remodal'' \<mapsto> HandleAnimationStart c,
      ''animationend.remodal'' \<mapsto> HandleAnimationEnd c,
      ''webkitAnimationEnd.remodal'' \<mapsto> HandleAnimationEnd c,
      ''MSAnimationEnd.remodal'' \<mapsto> HandleAnimationEnd c,
      ''oAnimationEnd.remodal'' \<mapsto> HandleAnimationEnd c]"

definition barrier_listeners :: "closure_id \<Rightarrow> (string \<times> handler) list" where
  "barrier_listeners c =
     map (\<lambda>t. (t, HandleAnimationStart c)) start_types @
     map (\<lambda>t. (t, HandleAnimationEnd c)) end_types"

text \<open>What attaching and detaching do to one element.\<close>

definition attach_element :: "closure_id \<Rightarrow> element \<Rightarrow> element" where
  "attach_element c x =
     fold (addSingleNSEvent (HandleAnimationEnd c)) (split '' '' ANIMATIONEND_EVENTS)
       (fold (addSingleNSEvent (HandleAnimationStart c)) (split '' '' ANIMATIONSTART_EVENTS) x)"

definition detach_element :: "element \<Rightarrow> element" where
  "detach_element x =
     fold removeSingleNSEvent (split '' '' (ANIMATIONSTART_EVENTS @ '' '' @ ANIMATIONEND_EVENTS)) x"

text \<open>No element of the page has an animation handler: no barrier is pending.\<close>

definition quiet :: "'n world \<Rightarrow> bool" where
  "quiet w = (\<forall>e. namespaces (elems w e) = Map.empty \<and> listeners (elems w e) = [])"

text \<open>
  The handlers of closure \<open>c\<close> are on the four surfaces of instance \<open>i\<close>, and there are
  no other handlers on the page.
\<close>

definition armed :: "closure_id \<Rightarrow> inst_id \<Rightarrow> 'n world \<Rightarrow> bool" where
  "armed c i w =
     (\<forall>e. namespaces (elems w e) = (if e \<in> set (surfaces w i) then barrier_names c else Map.empty)
        \<and> listeners (elems w e) = (if e \<in> set (surfaces w i) then barrier_listeners c else []))"

text \<open>
  A signal qualifies for an instance when it is an animation start (or end) of any vendor
  spelling whose target is one of the instance's surfaces. The handler of a surface also
  sees the signals that bubble up from inside it; their target is not the surface.
\<close>

definition qualifying_start :: "'n world \<Rightarrow> inst_id \<Rightarrow> signal \<Rightarrow> bool" where
  "qualifying_start w i sg =
     (signal_type sg \<in> set start_types \<and> signal_target sg \<in> set (surfaces w i))"

definition qualifying_end :: "'n world \<Rightarrow> inst_id \<Rightarrow> signal \<Rightarrow> bool" where
  "qualifying_end w i sg =
     (signal_type sg \<in> set end_types \<and> signal_target sg \<in> set (surfaces w i))"

text \<open>Qualifying starts minus qualifying ends of a list of signals.\<close>

definition net_count :: "'n world \<Rightarrow> inst_id \<Rightarrow> signal list \<Rightarrow> int" where
  "net_count w i sgs =
     int (length (filter (qualifying_start w i) sgs)) - int (length (filter (qualifying_end w i) sgs))"

text \<open>
  Some qualifying end among the signals brings the count of the signals up to and including
  it to zero: the decrement of that signal makes the counter exactly zero.
\<close>

definition zero_reached :: "'n world \<Rightarrow> inst_id \<Rightarrow> signal list \<Rightarrow> bool" where
  "zero_reached w i sgs =
     (\<exists>m < length sgs. qualifying_end w i (sgs ! m) \<and> net_count w i (take (Suc m) sgs) = 0)"

text \<open>The page with the counter of a closure set to a number.\<close>

definition set_count :: "closure_id \<Rightarrow> int \<Rightarrow> 'n world \<Rightarrow> 'n world" where
  "set_count c n w =
     w\<lparr>closures := (closures w)(c := (closures w c)\<lparr>runningAnimationsCount := n\<rparr>)\<rparr>"

text \<open>The notification with which an action ends (each action ends in one \<^verbatim>\<open>setState\<close>).\<close>

definition action_event :: "action \<Rightarrow> inst_id \<Rightarrow> 'n world \<Rightarrow> effect" where
  "action_event a i w =
     (case a of
        OpenBefore \<Rightarrow> Event (modal (instances w i)) ''opening'' None
      | OpenAfter \<Rightarrow> Event (modal (instances w i)) ''opened'' None
      | CloseBefore reason \<Rightarrow> Event (modal (instances w i)) ''closing'' reason
      | CloseAfter reason \<Rightarrow> Event (modal (instances w i)) ''closed'' reason)"

definition action_state :: "action \<Rightarrow> STATES" where
  "action_state a =
     (case a of OpenBefore \<Rightarrow> OPENING | OpenAfter \<Rightarrow> OPENED
      | CloseBefore reason \<Rightarrow> CLOSING | CloseAfter reason \<Rightarrow> CLOSED)"

text \<open>The class tokens of the four states.\<close>

definition state_class_set :: "string set" where
  "state_class_set =
     {''remodal-is-closing'', ''remodal-is-closed'', ''remodal-is-opening'', ''remodal-is-opened''}"

text \<open>The vendor prefixes that \<^verbatim>\<open>getPrefixedStyles\<close> tries, in its order.\<close>

definition prefixes :: "string list" where
  "prefixes = [[], ''-webkit-'', ''-moz-'', ''-o-'', ''-ms-'']"

text \<open>
  The numbers that the loop of \<^verbatim>\<open>getAnimationDuration\<close> compares, one for each entry
  of the duration, and the greatest of a list as the loop finds it.
\<close>

definition animation_terms :: "'n world \<Rightarrow> elem_id \<Rightarrow> 'n list" where
  "animation_terms w elem =
     (let b = browser w;
          duration = split '', ''
              (case getPrefixedStyles w elem ''animation-duration'' of
                 None \<Rightarrow> ''0s'' | Some d \<Rightarrow> d);
          delay = split '', '' (or_default (getStyle w elem ''animation-delay'') ''0s'');
          iterationCount =
              split '', '' (or_default (getStyle w elem ''animation-iteration-count'') ''1'')
      in map (\<lambda>i. num_plus b
                    (num_times b (parseFloat b (item duration i)) (parseInt10 b (item iterationCount i)))
                    (parseFloat b (item delay i)))
           [0 ..< length duration])"

definition greatest :: "('n \<Rightarrow> 'n \<Rightarrow> bool) \<Rightarrow> 'n list \<Rightarrow> 'n \<Rightarrow> 'n" where
  "greatest gt nums start = fold (\<lambda>num mx. if gt num mx then num else mx) nums start"

text \<open>
  The same read from the front: the counter stands at \<open>k\<close>, and a qualifying end among
  the signals takes it from 1 to 0.
\<close>

primrec crossing :: "'n world \<Rightarrow> inst_id \<Rightarrow> int \<Rightarrow> signal list \<Rightarrow> bool" where
  "crossing w i k [] = False"
| "crossing w i k (sg # sgs) =
     ((qualifying_end w i sg \<and> k - 1 = 0)
      \<or> crossing w i
           (k + (if qualifying_start w i sg then 1 else if qualifying_end w i sg then - 1 else 0)) sgs)"

text \<open>
  The states that a call of \<^verbatim>\<open>close\<close> passes once its guard lets it through.
\<close>

definition close_points ::
  "inst_id \<Rightarrow> STATE_CHANGE_REASONS option \<Rightarrow> 'n world \<Rightarrow> 'n world list" where
  "close_points i reason w =
     [w, close_clear_hash i w,
      barrier_entry (CloseBefore reason) (CloseAfter reason) i (close_clear_hash i w),
      syncWithAnimation (CloseBefore reason) (CloseAfter reason) i (close_clear_hash i w)]"

text \<open>
  The pages that the library brings about when its calls come in turn. It is loaded on a
  page without animation handlers of its own and without instances; then instances are made for elements of the
  page, \<^verbatim>\<open>open\<close> and \<^verbatim>\<open>close\<close> are called on registered instances, \<^verbatim>\<open>destroy\<close> halts
  one, and the browser dispatches animation events. Each of these runs to its end before
  the next begins: no listener of a notification calls the library from inside a call (for
  such a listener see the end of this section). The
  states that \<^verbatim>\<open>open\<close> and \<^verbatim>\<open>close\<close> pass on their way count as pages too.
\<close>

inductive reachable_in_turn :: "'n world \<Rightarrow> bool" where
  loaded:
    "lookup w = [] \<Longrightarrow> current w = None \<Longrightarrow> quiet w \<Longrightarrow> bg_element w < next_elem w \<Longrightarrow>
     (\<forall>found. overlay_element w = Some found \<longrightarrow> found < next_elem w) \<Longrightarrow>
     reachable_in_turn w"
| constructed:
    "reachable_in_turn w \<Longrightarrow> modal_el < next_elem w \<Longrightarrow>
     reachable_in_turn (snd (Remodal_constructor modal_el opts w))"
| open_point:
    "reachable_in_turn w \<Longrightarrow> i < length (lookup w) \<Longrightarrow>
     state (instances w i) \<noteq> OPENING \<Longrightarrow> state (instances w i) \<noteq> CLOSING \<Longrightarrow>
     p \<in> set (open_points i w) \<Longrightarrow> reachable_in_turn p"
| close_point:
    "reachable_in_turn w \<Longrightarrow> i < length (lookup w) \<Longrightarrow> state (instances w i) = OPENED \<Longrightarrow>
     p \<in> set (close_points i reason w) \<Longrightarrow> reachable_in_turn p"
| halted:
    "reachable_in_turn w \<Longrightarrow> i < length (lookup w) \<Longrightarrow> reachable_in_turn (halt i w)"
| signalled:
    "reachable_in_turn w \<Longrightarrow> reachable_in_turn (dispatchEvent sg w)"

text \<open>
  What holds of every such page. The elements in use were handed out by the page; every
  registered instance but the one \<^verbatim>\<open>current\<close> points to is closed; \<^verbatim>\<open>current\<close> is
  registered; and the animation handlers on the page, if any, are those of one barrier of
  the current instance, which is then opening or closing.
\<close>

definition allocated :: "'n world \<Rightarrow> bool" where
  "allocated w =
     (bg_element w < next_elem w
      \<and> (\<forall>found. overlay_element w = Some found \<longrightarrow> found < next_elem w)
      \<and> (\<forall>j < length (lookup w). \<forall>e \<in> set (surfaces w j). e < next_elem w))"

definition others_closed :: "'n world \<Rightarrow> bool" where
  "others_closed w =
     (\<forall>j < length (lookup w). current w = Some j \<or> state (instances w j) = CLOSED)"

definition current_registered :: "'n world \<Rightarrow> bool" where
  "current_registered w = (\<forall>c. current w = Some c \<longrightarrow> c < length (lookup w))"

definition barrier_of_current :: "'n world \<Rightarrow> bool" where
  "barrier_of_current w =
     (quiet w
      \<or> (\<exists>c cur. current w = Some cur \<and> armed c cur w \<and> closure_instance (closures w c) = cur
            \<and> (state (instances w cur) = OPENING \<or> state (instances w cur) = CLOSING)))"

definition coordinated :: "'n world \<Rightarrow> bool" where
  "coordinated w =
     (allocated w \<and> others_closed w \<and> current_registered w \<and> barrier_of_current w)"

subsection \<open>Listeners of the notifications\<close>

text \<open>
  \<^verbatim>\<open>triggerEvent\<close> ends in \<^verbatim>\<open>el.dispatchEvent(event)\<close>, which calls the listeners of
  the element for the event before it returns. It is the last statement of \<^verbatim>\<open>setState\<close>,
  and \<^verbatim>\<open>setState\<close> is the last statement of each of the four actions. In the
  definitions of the library above no listener is registered for a notification. Here
  \<open>notify el name\<close> is what the listeners of \<open>el\<close> for the notification \<open>name\<close> do to
  the page; they are code of the page and may call the library. The listeners of the
  focus event, which \<^verbatim>\<open>this.modal.focus()\<close> calls, are left out.
\<close>

definition run_action_notifying ::
  "(elem_id \<Rightarrow> string \<Rightarrow> 'n world \<Rightarrow> 'n world) \<Rightarrow> action \<Rightarrow> inst_id \<Rightarrow> 'n world \<Rightarrow> 'n world" where
  "run_action_notifying notify a i w =
     notify (modal (instances w i)) (state_name (action_state a)) (run_action a i w)"

definition syncWithAnimation_notifying ::
  "(elem_id \<Rightarrow> string \<Rightarrow> 'n world \<Rightarrow> 'n world) \<Rightarrow> action \<Rightarrow> action \<Rightarrow> inst_id \<Rightarrow>
   'n world \<Rightarrow> 'n world" where
  "syncWithAnimation_notifying notify doBefore doAfter i w =
     (let w1 = run_action_notifying notify doBefore i
                 (attach_handlers (next_closure w) i (new_closure doAfter i w))
      in if no_animation w1 i then run_action_notifying notify doAfter i (detach_handlers i w1)
         else w1)"

definition Remodal_open_notifying ::
  "(elem_id \<Rightarrow> string \<Rightarrow> 'n world \<Rightarrow> 'n world) \<Rightarrow> inst_id \<Rightarrow> 'n world \<Rightarrow> 'n world" where
  "Remodal_open_notifying notify i w =
     (if state (instances w i) = OPENING \<or> state (instances w i) = CLOSING then w
      else syncWithAnimation_notifying notify OpenBefore OpenAfter i (run (open_statements i) w))"

section \<open>A page for the examples\<close>

text \<open>
  A browser whose numbers are exact: NaN is \<open>None\<close>, and \<^verbatim>\<open>parseFloat\<close> and
  \<^verbatim>\<open>parseInt\<close> read the longest numeric prefix.
\<close>

text \<open>The numbers of the browser of the examples: exact rationals and the two infinities.\<close>

datatype jsnum = Finite rat | PosInfinity | NegInfinity

definition digits_nat :: "string \<Rightarrow> nat" where
  "digits_nat ds = foldl (\<lambda>a c. a * 10 + (case digit_of c of None \<Rightarrow> 0 | Some d \<Rightarrow> d)) 0 ds"

definition exact_parseFloat :: "string option \<Rightarrow> jsnum option" where
  "exact_parseFloat arg =
     (case arg of
        None \<Rightarrow> None
      | Some s \<Rightarrow>
          (let t = dropWhile is_space s;
               negative = (take 1 t = ''-'');
               r = (if take 1 t = ''-'' \<or> take 1 t = ''+'' then drop 1 t else t);
               ip = takeWhile is_digit r;
               r1 = dropWhile is_digit r;
               fp = (if take 1 r1 = ''.'' then takeWhile is_digit (drop 1 r1) else []);
               r2 = (if take 1 r1 = ''.'' then dropWhile is_digit (drop 1 r1) else r1);
               r3 = drop 1 r2;
               eneg = (take 1 r3 = ''-'');
               r4 = (if take 1 r3 = ''-'' \<or> take 1 r3 = ''+'' then drop 1 r3 else r3);
               ed = takeWhile is_digit r4;
               e = (if (take 1 r2 = ''e'' \<or> take 1 r2 = ''E'') \<and> ed \<noteq> []
                    then (if eneg then - int (digits_nat ed) else int (digits_nat ed)) else 0);
               q = of_nat (digits_nat (ip @ fp)) / 10 ^ length fp * pow10 e
           in if take 8 r = ''Infinity'' then Some (if negative then NegInfinity else PosInfinity)
              else if ip = [] \<and> fp = [] then None
              else Some (Finite (if negative then - q else q))))"

definition exact_parseInt10 :: "string option \<Rightarrow> jsnum option" where
  "exact_parseInt10 arg =
     (case arg of
        None \<Rightarrow> None
      | Some s \<Rightarrow>
          (let t = dropWhile is_space s;
               negative = (take 1 t = ''-'');
               r = (if take 1 t = ''-'' \<or> take 1 t = ''+'' then drop 1 t else t);
               ds = takeWhile is_digit r
           in if ds = [] then None
              else Some (Finite (if negative then - of_nat (digits_nat ds) else of_nat (digits_nat ds)))))"

fun sign_of :: "jsnum \<Rightarrow> int" where
  "sign_of (Finite q) = (if q < 0 then - 1 else if q = 0 then 0 else 1)"
| "sign_of PosInfinity = 1"
| "sign_of NegInfinity = - 1"

fun exact_times :: "jsnum option \<Rightarrow> jsnum option \<Rightarrow> jsnum option" where
  "exact_times (Some (Finite x)) (Some (Finite y)) = Some (Finite (x * y))"
| "exact_times (Some a) (Some b) =
     (if sign_of a * sign_of b = 0 then None
      else if 0 < sign_of a * sign_of b then Some PosInfinity else Some NegInfinity)"
| "exact_times _ _ = None"

fun exact_plus :: "jsnum option \<Rightarrow> jsnum option \<Rightarrow> jsnum option" where
  "exact_plus (Some (Finite x)) (Some (Finite y)) = Some (Finite (x + y))"
| "exact_plus (Some (Finite x)) (Some b) = Some b"
| "exact_plus (Some a) (Some (Finite y)) = Some a"
| "exact_plus (Some a) (Some b) = (if a = b then Some a else None)"
| "exact_plus _ _ = None"

fun exact_greater :: "jsnum option \<Rightarrow> jsnum option \<Rightarrow> bool" where
  "exact_greater (Some (Finite x)) (Some (Finite y)) = (y < x)"
| "exact_greater (Some a) (Some b) =
     ((a = PosInfinity \<and> b \<noteq> PosInfinity) \<or> (b = NegInfinity \<and> a \<noteq> NegInfinity))"
| "exact_greater _ _ = False"

definition exact_browser ::
  "((elem_id \<Rightarrow> element) \<Rightarrow> elem_id \<Rightarrow> string \<Rightarrow> string) \<Rightarrow> (jsnum option) browser" where
  "exact_browser css =
     \<lparr>IS_IOS = False, IS_ANIMATION = True, computedStyle = css,
      parseFloat = exact_parseFloat, parseInt10 = exact_parseInt10,
      num_times = exact_times, num_plus = exact_plus, num_greater = exact_greater,
      num_strict_equal = (\<lambda>a b. a \<noteq> None \<and> a = b),
      num_zero = Some (Finite 0), NEGATIVE_INFINITY = Some NegInfinity\<rparr>"

text \<open>
  A style sheet without animations, and one that animates a dialog element (an element
  with the attribute \<^verbatim>\<open>data-remodal-id\<close>) for 0.3s while it carries the class of a
  transition, and nothing else: there the background, the overlay and the wrapper have
  the animation name \<open>none\<close>.
\<close>

definition no_css :: "(elem_id \<Rightarrow> element) \<Rightarrow> elem_id \<Rightarrow> string \<Rightarrow> string" where
  "no_css els el property = []"

definition animating :: "(elem_id \<Rightarrow> element) \<Rightarrow> elem_id \<Rightarrow> bool" where
  "animating els el =
     (data_remodal_id (els el) \<noteq> None \<and>
      (''remodal-is-opening'' \<in> set (classList (els el))
       \<or> ''remodal-is-closing'' \<in> set (classList (els el))))"

definition fade_css :: "(elem_id \<Rightarrow> element) \<Rightarrow> elem_id \<Rightarrow> string \<Rightarrow> string" where
  "fade_css els el property =
     (if animating els el
      then (if property = ''animation-name'' then ''fade''
            else if property = ''animation-duration'' then ''0.3s''
            else if property = ''animation-delay'' then ''0s''
            else if property = ''animation-iteration-count'' then ''1''
            else [])
      else (if property = ''animation-name'' then ''none'' else []))"

definition blank_element :: element where
  "blank_element =
     \<lparr>classList = [], display = [], data_remodal_id = None, namespaces = Map.empty, listeners = []\<rparr>"

definition default_settings :: settings where
  "default_settings =
     \<lparr>hashTracking = True, closeOnConfirm = True, closeOnCancel = True, closeOnEscape = True,
      closeOnOutsideClick = True, modifier = [], appendTo = None\<rparr>"

definition no_options :: options where
  "no_options =
     \<lparr>opt_hashTracking = None, opt_closeOnConfirm = None, opt_closeOnCancel = None,
      opt_closeOnEscape = None, opt_closeOnOutsideClick = None, opt_modifier = None,
      opt_appendTo = None\<rparr>"

text \<open>
  A page before any instance is made: the background is element 10, two dialog elements
  11 and 12 carry the identifiers \<open>first\<close> and \<open>second\<close>, the page is scrolled down
  by 300 pixels and its scroll bar is 15 pixels wide.
\<close>

definition empty_page ::
  "((elem_id \<Rightarrow> element) \<Rightarrow> elem_id \<Rightarrow> string \<Rightarrow> string) \<Rightarrow> (jsnum option) world" where
  "empty_page css =
     \<lparr>browser = exact_browser css,
      elems = (\<lambda>e. blank_element)
        (10 := blank_element\<lparr>classList := [''remodal-bg'']\<rparr>,
         11 := blank_element\<lparr>classList := [''remodal''], data_remodal_id := Some ''first''\<rparr>,
         12 := blank_element\<lparr>classList := [''remodal''], data_remodal_id := Some ''second''\<rparr>),
      next_elem = 13,
      html_classList = [],
      body_padding_right = 0,
      scrollbar_width = 15,
      location_hash = [],
      scrollY = 300,
      bg_element = 10,
      overlay_element = None,
      settings_store = (\<lambda>r. default_settings),
      DEFAULTS = 0,
      instances = (\<lambda>j. \<lparr>settings_ref = 0, index = j, state = CLOSED, overlay = 0, bg = 0,
                          modal = 0, wrapper = 0\<rparr>),
      lookup = [],
      closures = (\<lambda>c. \<lparr>runningAnimationsCount = 0, closure_instance = 0, doAfterAnimation = OpenAfter\<rparr>),
      next_closure = 0,
      current = None,
      scrollTop = None,
      event_log = []\<rparr>"

text \<open>
  The page with two instances, made for the two dialog elements without options: they
  share the overlay (element 13) and the background, and have the wrappers 14 and 15.
\<close>

definition two_dialogs ::
  "((elem_id \<Rightarrow> element) \<Rightarrow> elem_id \<Rightarrow> string \<Rightarrow> string) \<Rightarrow> (jsnum option) world" where
  "two_dialogs css =
     snd (Remodal_constructor 12 None (snd (Remodal_constructor 11 None (empty_page css))))"

definition animation_signal :: "string \<Rightarrow> elem_id \<Rightarrow> signal" where
  "animation_signal typ el = \<lparr>signal_type = typ, signal_target = el, signal_ancestors = []\<rparr>"

text \<open>Options that set every key, to a value the defaults do not have.\<close>

definition all_options :: options where
  "all_options =
     \<lparr>opt_hashTracking = Some False, opt_closeOnConfirm = Some False, opt_closeOnCancel = Some False,
      opt_closeOnEscape = Some False, opt_closeOnOutsideClick = Some False,
      opt_modifier = Some ''fancy'', opt_appendTo = Some (Some 0)\<rparr>"

text \<open>What an optional options object supplies for a key.\<close>

definition supplied :: "options option \<Rightarrow> (options \<Rightarrow> 'a option) \<Rightarrow> 'a option" where
  "supplied opts key = (case opts of None \<Rightarrow> None | Some s \<Rightarrow> key s)"

text \<open>The page with the marker of the screen lock on its root element.\<close>

definition locked_page :: "(jsnum option) world" where
  "locked_page = (empty_page no_css)\<lparr>html_classList := [''remodal-is-locked'']\<rparr>"

text \<open>
  A style sheet with two animations on every element; the duration is given under the
  WebKit prefix only.
\<close>

definition multi_css :: "(elem_id \<Rightarrow> element) \<Rightarrow> elem_id \<Rightarrow> string \<Rightarrow> string" where
  "multi_css els el property =
     (if property = ''animation-name'' then ''slide, fade''
      else if property = ''-webkit-animation-duration'' then ''0.3s, 1s''
      else if property = ''animation-iteration-count'' then ''2, 1''
      else if property = ''animation-delay'' then ''0s, 0.5s''
      else [])"

text \<open>
  A listener on the first dialog element for the notification \<open>opening\<close> that calls
  \<^verbatim>\<open>open\<close> on the second instance; there are no other listeners.
\<close>

definition second_on_opening :: "elem_id \<Rightarrow> string \<Rightarrow> (jsnum option) world \<Rightarrow> (jsnum option) world" where
  "second_on_opening el name =
     (if el = 11 \<and> name = ''opening'' then Remodal_open (Suc 0) else (\<lambda>w. w))"

section \<open>Properties of the options parser\<close>

subsection \<open>The spaces around the delimiters\<close>

lemma nearest_simps [simp]:
  "nearest D [] = False"
  "nearest D (c # cs) = (if is_space c then nearest D cs else D c)"
  by (simp_all add: nearest_def)

lemma replace_at_delimiter:
  assumes "dropWhile is_space s = d # rest"
  shows "replace_spaces_around d s = d # replace_spaces_around d (dropWhile is_space rest)"
  using assms by (cases s) simp_all

lemma replace_no_delimiter:
  assumes "\<not> nearest (\<lambda>x. x = d) (c # cs)"
  shows "replace_spaces_around d (c # cs) = c # replace_spaces_around d cs"
proof (cases "dropWhile is_space (c # cs)")
  case Nil
  then show ?thesis
    by (simp only: replace_spaces_around.simps list.case)
next
  case (Cons x rest)
  have "x \<noteq> d"
    using assms unfolding nearest_def Cons by simp
  then show ?thesis
    by (simp only: replace_spaces_around.simps Cons list.case if_False)
qed

lemma nearest_dropWhile: "nearest D (dropWhile is_space s) = nearest D s"
  by (induction s) simp_all

text \<open>One pass of the replacement removes the spaces around its delimiter.\<close>

lemma replace_spaces_around_strip:
  assumes "\<not> is_space d"
  shows "replace_spaces_around d (if nearest (\<lambda>x. x = d) before then dropWhile is_space s else s)
         = strip_around (\<lambda>x. x = d) before s"
proof (induction s arbitrary: before)
  case Nil
  show ?case by simp
next
  case (Cons c cs)
  let ?D = "\<lambda>x. x = d"
  show ?case
  proof (cases "is_space c")
    case space: True
    show ?thesis
    proof (cases "nearest ?D before")
      case True
      then show ?thesis
        using space Cons.IH [of "c # before"] by simp
    next
      case False
      show ?thesis
      proof (cases "nearest ?D cs")
        case True
        then obtain rest where r: "dropWhile is_space cs = d # rest"
          by (auto simp: nearest_def split: list.splits)
        have "replace_spaces_around d (c # cs) = d # replace_spaces_around d (dropWhile is_space rest)"
          by (rule replace_at_delimiter) (simp add: space r)
        also have "\<dots> = replace_spaces_around d cs"
          by (rule replace_at_delimiter [OF r, symmetric])
        finally show ?thesis
          using space False True Cons.IH [of "c # before"] by simp
      next
        case nocs: False
        have "replace_spaces_around d (c # cs) = c # replace_spaces_around d cs"
          by (rule replace_no_delimiter) (simp add: space nocs)
        then show ?thesis
          using space False nocs Cons.IH [of "c # before"] by simp
      qed
    qed
  next
    case other: False
    have step: "replace_spaces_around d (c # cs) =
        c # replace_spaces_around d (if c = d then dropWhile is_space cs else cs)"
      using other by simp
    show ?thesis
      using other step Cons.IH [of "c # before"] by simp
  qed
qed

lemma strip_around_keeps_nearest: "nearest E (strip_around D before s) = nearest E s"
  by (induction s arbitrary: before) simp_all

lemma nearest_either: "nearest (\<lambda>x. D1 x \<or> D2 x) s = (nearest D1 s \<or> nearest D2 s)"
  by (induction s) simp_all

text \<open>Two passes, one for each delimiter, are one pass for both.\<close>

lemma strip_around_twice:
  assumes "\<And>E. nearest E before2 = nearest E before1"
  shows "strip_around D2 before2 (strip_around D1 before1 s) =
         strip_around (\<lambda>x. D1 x \<or> D2 x) before1 s"
  using assms
proof (induction s arbitrary: before1 before2)
  case Nil
  show ?case by simp
next
  case (Cons c cs)
  have next_before: "nearest E (c # before2) = nearest E (c # before1)" for E
    using Cons.prems by simp
  have b2: "nearest D2 before2 = nearest D2 before1"
    by (rule Cons.prems)
  show ?case
  proof (cases "is_space c \<and> (nearest D1 before1 \<or> nearest D1 cs)")
    case True
    have first: "strip_around D1 before1 (c # cs) = strip_around D1 (c # before1) cs"
      using True by simp
    have both: "strip_around (\<lambda>x. D1 x \<or> D2 x) before1 (c # cs) =
        strip_around (\<lambda>x. D1 x \<or> D2 x) (c # before1) cs"
      using True by (auto simp: nearest_either)
    have "nearest E before2 = nearest E (c # before1)" for E
      using True Cons.prems [of E] by simp
    then have "strip_around D2 before2 (strip_around D1 (c # before1) cs) =
        strip_around (\<lambda>x. D1 x \<or> D2 x) (c # before1) cs"
      by (rule Cons.IH)
    then show ?thesis
      by (simp only: first both)
  next
    case False
    have first: "strip_around D1 before1 (c # cs) = c # strip_around D1 (c # before1) cs"
      using False by auto
    have cond: "(is_space c \<and> (nearest D2 before2 \<or> nearest D2 (strip_around D1 (c # before1) cs)))
        = (is_space c \<and> (nearest (\<lambda>x. D1 x \<or> D2 x) before1 \<or> nearest (\<lambda>x. D1 x \<or> D2 x) cs))"
      using False by (auto simp: nearest_either strip_around_keeps_nearest b2)
    show ?thesis
      unfolding first by (simp only: strip_around.simps cond Cons.IH [OF next_before])
  qed
qed

lemma normalise_delimiters_strip: "normalise_delimiters str = strip_around is_delimiter [] str"
proof -
  have c: "\<not> is_space (CHR '':'')" "\<not> is_space (CHR '','')"
    by (simp_all add: is_space_def)
  have "normalise_delimiters str =
      strip_around (\<lambda>x. x = CHR '','') [] (strip_around (\<lambda>x. x = CHR '':'') [] str)"
    using replace_spaces_around_strip [OF c(1), of "[]"] replace_spaces_around_strip [OF c(2), of "[]"]
    by (simp add: normalise_delimiters_def)
  also have "\<dots> = strip_around (\<lambda>x. x = CHR '':'' \<or> x = CHR '','') [] str"
    by (rule strip_around_twice) simp
  finally show ?thesis
    by (simp add: is_delimiter_def [abs_def])
qed

subsection \<open>Splitting\<close>

lemma split_from_not_Nil: "split_from sep cur s \<noteq> []"
  by (induction sep cur s rule: split_from.induct) (subst split_from.simps, simp)

lemma split_not_Nil: "sep \<noteq> [] \<Longrightarrow> split sep s \<noteq> []"
  by (simp add: split_def split_from_not_Nil)

lemma fold_join_prefix:
  "fold (\<lambda>y acc. acc @ sep @ y) r (p @ q) = p @ fold (\<lambda>y acc. acc @ sep @ y) r q"
  by (induction r arbitrary: q) simp_all

lemma join_Cons: "xs \<noteq> [] \<Longrightarrow> join sep (x # xs) = x @ sep @ join sep xs"
  using fold_join_prefix [of sep _ "x @ sep"]
  by (cases xs) (simp_all add: join_def)

lemma join_split_from: "sep \<noteq> [] \<Longrightarrow> join sep (split_from sep cur s) = cur @ s"
proof (induction sep cur s rule: split_from.induct)
  case (1 sep cur s)
  show ?case
  proof (cases "s = []")
    case True
    then show ?thesis
      by (subst split_from.simps) (simp add: join_def)
  next
    case False
    show ?thesis
    proof (cases "take (length sep) s = sep")
      case True
      have "join sep (split_from sep cur s) = cur @ sep @ join sep (split_from sep [] (drop (length sep) s))"
        using False True 1(3)
        by (subst split_from.simps) (simp add: join_Cons split_from_not_Nil)
      also have "\<dots> = cur @ take (length sep) s @ drop (length sep) s"
        using 1(1) [OF False _ 1(3)] True 1(3) by simp
      finally show ?thesis by simp
    next
      case no: False
      have "join sep (split_from sep cur s) = join sep (split_from sep (cur @ [hd s]) (tl s))"
        using False no by (subst split_from.simps) simp
      also have "\<dots> = (cur @ [hd s]) @ tl s"
        using 1(2) [OF False _ 1(3)] no by simp
      finally show ?thesis using False by simp
    qed
  qed
qed

lemma pieces_split_from:
  "d \<notin> set cur \<Longrightarrow> list_all (\<lambda>t. d \<notin> set t) (split_from [d] cur s)"
proof (induction "[d]" cur s rule: split_from.induct)
  case (1 cur s)
  show ?case
  proof (cases "s = []")
    case True
    then show ?thesis
      using 1(3) by (subst split_from.simps) simp
  next
    case False
    then obtain c cs where s: "s = c # cs" by (cases s) auto
    show ?thesis
    proof (cases "c = d")
      case True
      then show ?thesis
        using 1(1) [OF False] 1(3) s by (subst split_from.simps) simp
    next
      case no: False
      then show ?thesis
        using 1(2) [OF False] 1(3) s by (subst split_from.simps) simp
    qed
  qed
qed

lemma split_pieces:
  "join [d] (split [d] s) = s"
  "list_all (\<lambda>t. d \<notin> set t) (split [d] s)"
  by (simp_all add: split_def join_split_from pieces_split_from)

subsection \<open>The tokens\<close>

lemma parse_token_pair:
  "parse_token t obj = assign_property (fst (token_pair t)) (snd (token_pair t)) obj"
proof (cases "split '':'' t")
  case Nil
  then show ?thesis using split_not_Nil [of "'':''" t] by simp
next
  case (Cons k r)
  then show ?thesis
    by (cases r)
       (simp_all add: parse_token_def token_pair_def coerce_spec_def convert_number_def
          convert_boolean_def split: option.splits)
qed

lemma fold_parse_token:
  "fold parse_token toks obj =
     obj ++ map_of (rev (filter (\<lambda>p. fst p \<noteq> ''__proto__'') (map token_pair toks)))"
proof (induction toks arbitrary: obj)
  case Nil
  show ?case by simp
next
  case (Cons t ts)
  let ?rest = "map_of (rev (filter (\<lambda>p. fst p \<noteq> ''__proto__'') (map token_pair ts)))"
  have step: "fold parse_token (t # ts) obj
        = assign_property (fst (token_pair t)) (snd (token_pair t)) obj ++ ?rest"
    by (simp only: fold_simps Cons.IH parse_token_pair comp_apply)
  show ?case
  proof (cases "fst (token_pair t) = ''__proto__''")
    case True
    then show ?thesis
      unfolding step by (simp add: assign_property_def)
  next
    case False
    have "obj(fst (token_pair t) \<mapsto> snd (token_pair t)) ++ ?rest
          = obj ++ (map_of [token_pair t] ++ ?rest)"
      by (simp add: map_add_upd_left fun_eq_iff map_add_def split: option.splits)
    then show ?thesis
      unfolding step using False by (simp add: assign_property_def)
  qed
qed

lemma coerce_spec_cases:
  "(coerce_spec v = VBool True) = (v = ''true'')"
  "(coerce_spec v = VBool False) = (v = ''false'')"
  "v \<noteq> ''true'' \<Longrightarrow> v \<noteq> ''false'' \<Longrightarrow> toNumber v = Some n \<Longrightarrow> coerce_spec v = VNum n"
  "v \<noteq> ''true'' \<Longrightarrow> v \<noteq> ''false'' \<Longrightarrow> toNumber v = None \<Longrightarrow> coerce_spec v = VStr v"
  by (auto simp: coerce_spec_def split: option.splits)

subsection \<open>Numbers\<close>

lemma bit_length_numeral:
  "bit_length 0 = 0"
  "bit_length (Suc 0) = 1"
  "bit_length (numeral k) = Suc (bit_length (numeral k div 2))"
  by (subst bit_length.simps, simp)+

lemmas to_double_eval =
  to_double_def binary_exponent_def round_half_even_def pow2_def Let_def bit_length_numeral

lemma literal_examples:
  "unsigned_decimal ''1'' = Some (1, 1)"
  "unsigned_decimal ''0.1'' = Some (1, 10)"
  "unsigned_decimal ''0'' = Some (0, 1)"
  "unsigned_decimal ''12'' = Some (12, 1)"
  "unsigned_decimal ''9007199254740993'' = Some (9007199254740993, 1)"
  "unsigned_decimal ''abc'' = None"
  "unsigned_decimal ''truefoo'' = None"
  "unsigned_decimal ''my-class'' = None"
  by (simp_all add: unsigned_decimal_def is_digit_def digit_of_def digits_value_def
      exponent_part_def Let_def)

lemma big_literals:
  "unsigned_decimal ''1e400'' = Some (10 ^ 400, 1)"
  "unsigned_decimal ''1e-400'' = Some (1, 10 ^ 400)"
  by (simp_all add: unsigned_decimal_def is_digit_def digit_of_def digits_value_def
      exponent_part_def Let_def del: power_numeral)

lemma rounding_examples:
  "to_double False 1 1 = Double 1"
  "to_double False 12 1 = Double 12"
  "to_double False 31 1 = Double 31"
  "to_double False 1 10 = Double (3602879701896397 / 2 ^ 55)"
  "to_double False 9007199254740993 1 = Double 9007199254740992"
  "to_double True 0 1 = MinusZero"
  by (simp_all add: to_double_eval)

lemma overflow_example: "to_double False (10 ^ 400) 1 = Infinity"
  by (simp add: to_double_eval)

lemma underflow_example: "to_double True 1 (10 ^ 400) = MinusZero"
  by (simp add: to_double_eval)

lemma number_examples:
  "toNumber ''1'' = Some (Double 1)"
  "toNumber '' 12 '' = Some (Double 12)"
  "toNumber ''0.1'' = Some (Double (3602879701896397 / 2 ^ 55))"
  "toNumber ''9007199254740993'' = Some (Double 9007199254740992)"
  "toNumber ''0x1F'' = Some (Double 31)"
  "toNumber ''-0'' = Some MinusZero"
  "toNumber ''1e400'' = Some Infinity"
  "toNumber ''-1e-400'' = Some MinusZero"
  "toNumber ''abc'' = None"
  "toNumber ''truefoo'' = None"
  "toNumber ''my-class'' = None"
  "toNumber [] = Some (Double 0)"
  by (simp_all add: toNumber_def trim_def is_space_def signed_decimal_def literal_examples
      big_literals rounding_examples overflow_example underflow_example digits_value_def
      hex_digit_of_def digit_of_def Let_def del: One_nat_def power_numeral)

subsection \<open>The examples\<close>

lemma example_tokens:
  "split '','' (normalise_delimiters ''hashTracking:false,modifier:my-class'')
     = [''hashTracking:false'', ''modifier:my-class'']"
  "split '','' (normalise_delimiters ''appendTo:1'') = [''appendTo:1'']"
  "split '','' (normalise_delimiters ''label:truefoo'') = [''label:truefoo'']"
  "split '','' (normalise_delimiters ''hashTracking : false ,  modifier:my class'')
     = [''hashTracking:false'', ''modifier:my class'']"
  "split '','' (normalise_delimiters ''__proto__:1,limit:1e400'') = [''__proto__:1'', ''limit:1e400'']"
  "split '','' (normalise_delimiters ''__proto__:1'') = [''__proto__:1'']"
  by code_simp+

lemma example_parts:
  "split '':'' ''hashTracking:false'' = [''hashTracking'', ''false'']"
  "split '':'' ''modifier:my-class'' = [''modifier'', ''my-class'']"
  "split '':'' ''modifier:my class'' = [''modifier'', ''my class'']"
  "split '':'' ''appendTo:1'' = [''appendTo'', ''1'']"
  "split '':'' ''label:truefoo'' = [''label'', ''truefoo'']"
  "split '':'' ''__proto__:1'' = [''__proto__'', ''1'']"
  "split '':'' ''limit:1e400'' = [''limit'', ''1e400'']"
  by code_simp+

lemma more_numbers:
  "toNumber ''my class'' = None"
  by (simp_all add: toNumber_def trim_def is_space_def signed_decimal_def unsigned_decimal_def
      is_digit_def digit_of_def Let_def)

lemma example_pairs:
  "token_pair ''hashTracking:false'' = (''hashTracking'', VBool False)"
  "token_pair ''modifier:my-class'' = (''modifier'', VStr ''my-class'')"
  "token_pair ''modifier:my class'' = (''modifier'', VStr ''my class'')"
  "token_pair ''appendTo:1'' = (''appendTo'', VNum (Double 1))"
  "token_pair ''label:truefoo'' = (''label'', VStr ''truefoo'')"
  "token_pair ''__proto__:1'' = (''__proto__'', VNum (Double 1))"
  "token_pair ''limit:1e400'' = (''limit'', VNum Infinity)"
  by (simp_all add: token_pair_def example_parts coerce_spec_def number_examples more_numbers)

lemma parseOptions_pairs:
  "parseOptions str =
     map_of (rev (filter (\<lambda>p. fst p \<noteq> ''__proto__'')
       (map token_pair (split '','' (normalise_delimiters str)))))"
  by (simp add: parseOptions_def fold_parse_token)

lemma parsed_examples:
  "parseOptions ''hashTracking:false,modifier:my-class''
     = [''hashTracking'' \<mapsto> VBool False, ''modifier'' \<mapsto> VStr ''my-class'']"
  "parseOptions ''appendTo:1'' = [''appendTo'' \<mapsto> VNum (Double 1)]"
  "parseOptions ''label:truefoo'' = [''label'' \<mapsto> VStr ''truefoo'']"
  "parseOptions ''hashTracking : false ,  modifier:my class''
     = [''hashTracking'' \<mapsto> VBool False, ''modifier'' \<mapsto> VStr ''my class'']"
  "parseOptions ''__proto__:1,limit:1e400'' = [''limit'' \<mapsto> VNum Infinity]"
  "parseOptions ''__proto__:1'' = Map.empty"
  by (simp_all add: parseOptions_pairs example_tokens example_pairs)

section \<open>Constants of the library, evaluated\<close>

lemma start_names:
  "split '' '' ANIMATIONSTART_EVENTS =
     [''animationstart.remodal'', ''webkitAnimationStart.remodal'',
      ''MSAnimationStart.remodal'', ''oAnimationStart.remodal'']"
  by code_simp

lemma end_names:
  "split '' '' ANIMATIONEND_EVENTS =
     [''animationend.remodal'', ''webkitAnimationEnd.remodal'',
      ''MSAnimationEnd.remodal'', ''oAnimationEnd.remodal'']"
  by code_simp

lemma all_names:
  "split '' '' (ANIMATIONSTART_EVENTS @ '' '' @ ANIMATIONEND_EVENTS) =
     [''animationstart.remodal'', ''webkitAnimationStart.remodal'',
      ''MSAnimationStart.remodal'', ''oAnimationStart.remodal'',
      ''animationend.remodal'', ''webkitAnimationEnd.remodal'',
      ''MSAnimationEnd.remodal'', ''oAnimationEnd.remodal'']"
  by code_simp

lemma event_types:
  "event_type ''animationstart.remodal'' = ''animationstart''"
  "event_type ''webkitAnimationStart.remodal'' = ''webkitAnimationStart''"
  "event_type ''MSAnimationStart.remodal'' = ''MSAnimationStart''"
  "event_type ''oAnimationStart.remodal'' = ''oAnimationStart''"
  "event_type ''animationend.remodal'' = ''animationend''"
  "event_type ''webkitAnimationEnd.remodal'' = ''webkitAnimationEnd''"
  "event_type ''MSAnimationEnd.remodal'' = ''MSAnimationEnd''"
  "event_type ''oAnimationEnd.remodal'' = ''oAnimationEnd''"
  by code_simp+

lemma state_classes:
  "namespacify [''is'', state_name st] =
     (case st of CLOSING \<Rightarrow> ''remodal-is-closing'' | CLOSED \<Rightarrow> ''remodal-is-closed''
      | OPENING \<Rightarrow> ''remodal-is-opening'' | OPENED \<Rightarrow> ''remodal-is-opened'')"
  by (cases st) (simp_all add: namespacify_def NAMESPACE_def)

lemma all_states_tokens:
  "class_tokens (join '' '' (map (\<lambda>thisState. namespacify [''is'', state_name thisState])
                                   [CLOSING, CLOSED, OPENING, OPENED])) =
    [''remodal-is-closing'', ''remodal-is-closed'', ''remodal-is-opening'', ''remodal-is-opened'']"
  by code_simp

lemma state_class_tokens:
  "class_tokens (namespacify [''is'', state_name st]) = [namespacify [''is'', state_name st]]"
  by (cases st; hypsubst; code_simp)

lemma locked_class: "namespacify [''is-locked''] = ''remodal-is-locked''"
  by code_simp

lemma locked_tokens: "class_tokens ''remodal-is-locked'' = [''remodal-is-locked'']"
  by code_simp

section \<open>What each function leaves unchanged\<close>

lemma update_elem_frame [simp]:
  "browser (update_elem el f w) = browser w"
  "next_elem (update_elem el f w) = next_elem w"
  "html_classList (update_elem el f w) = html_classList w"
  "body_padding_right (update_elem el f w) = body_padding_right w"
  "scrollbar_width (update_elem el f w) = scrollbar_width w"
  "location_hash (update_elem el f w) = location_hash w"
  "scrollY (update_elem el f w) = scrollY w"
  "bg_element (update_elem el f w) = bg_element w"
  "overlay_element (update_elem el f w) = overlay_element w"
  "settings_store (update_elem el f w) = settings_store w"
  "DEFAULTS (update_elem el f w) = DEFAULTS w"
  "instances (update_elem el f w) = instances w"
  "lookup (update_elem el f w) = lookup w"
  "closures (update_elem el f w) = closures w"
  "next_closure (update_elem el f w) = next_closure w"
  "current (update_elem el f w) = current w"
  "scrollTop (update_elem el f w) = scrollTop w"
  "event_log (update_elem el f w) = event_log w"
  by (simp_all add: update_elem_def)

lemma addClasses_frame [simp]:
  "browser (addClasses el classes w) = browser w"
  "next_elem (addClasses el classes w) = next_elem w"
  "html_classList (addClasses el classes w) = html_classList w"
  "body_padding_right (addClasses el classes w) = body_padding_right w"
  "scrollbar_width (addClasses el classes w) = scrollbar_width w"
  "location_hash (addClasses el classes w) = location_hash w"
  "scrollY (addClasses el classes w) = scrollY w"
  "bg_element (addClasses el classes w) = bg_element w"
  "overlay_element (addClasses el classes w) = overlay_element w"
  "settings_store (addClasses el classes w) = settings_store w"
  "DEFAULTS (addClasses el classes w) = DEFAULTS w"
  "instances (addClasses el classes w) = instances w"
  "lookup (addClasses el classes w) = lookup w"
  "closures (addClasses el classes w) = closures w"
  "next_closure (addClasses el classes w) = next_closure w"
  "current (addClasses el classes w) = current w"
  "scrollTop (addClasses el classes w) = scrollTop w"
  "event_log (addClasses el classes w) = event_log w"
  by (simp_all add: addClasses_def)

lemma removeClasses_frame [simp]:
  "browser (removeClasses el classes w) = browser w"
  "next_elem (removeClasses el classes w) = next_elem w"
  "html_classList (removeClasses el classes w) = html_classList w"
  "body_padding_right (removeClasses el classes w) = body_padding_right w"
  "scrollbar_width (removeClasses el classes w) = scrollbar_width w"
  "location_hash (removeClasses el classes w) = location_hash w"
  "scrollY (removeClasses el classes w) = scrollY w"
  "bg_element (removeClasses el classes w) = bg_element w"
  "overlay_element (removeClasses el classes w) = overlay_element w"
  "settings_store (removeClasses el classes w) = settings_store w"
  "DEFAULTS (removeClasses el classes w) = DEFAULTS w"
  "instances (removeClasses el classes w) = instances w"
  "lookup (removeClasses el classes w) = lookup w"
  "closures (removeClasses el classes w) = closures w"
  "next_closure (removeClasses el classes w) = next_closure w"
  "current (removeClasses el classes w) = current w"
  "scrollTop (removeClasses el classes w) = scrollTop w"
  "event_log (removeClasses el classes w) = event_log w"
  by (simp_all add: removeClasses_def)

lemma hide_frame [simp]:
  "browser (hide el w) = browser w"
  "next_elem (hide el w) = next_elem w"
  "html_classList (hide el w) = html_classList w"
  "body_padding_right (hide el w) = body_padding_right w"
  "scrollbar_width (hide el w) = scrollbar_width w"
  "location_hash (hide el w) = location_hash w"
  "scrollY (hide el w) = scrollY w"
  "bg_element (hide el w) = bg_element w"
  "overlay_element (hide el w) = overlay_element w"
  "settings_store (hide el w) = settings_store w"
  "DEFAULTS (hide el w) = DEFAULTS w"
  "instances (hide el w) = instances w"
  "lookup (hide el w) = lookup w"
  "closures (hide el w) = closures w"
  "next_closure (hide el w) = next_closure w"
  "current (hide el w) = current w"
  "scrollTop (hide el w) = scrollTop w"
  "event_log (hide el w) = event_log w"
  by (simp_all add: hide_def)

lemma setStyle_display_frame [simp]:
  "browser (setStyle_display el v w) = browser w"
  "next_elem (setStyle_display el v w) = next_elem w"
  "html_classList (setStyle_display el v w) = html_classList w"
  "body_padding_right (setStyle_display el v w) = body_padding_right w"
  "scrollbar_width (setStyle_display el v w) = scrollbar_width w"
  "location_hash (setStyle_display el v w) = location_hash w"
  "scrollY (setStyle_display el v w) = scrollY w"
  "bg_element (setStyle_display el v w) = bg_element w"
  "overlay_element (setStyle_display el v w) = overlay_element w"
  "settings_store (setStyle_display el v w) = settings_store w"
  "DEFAULTS (setStyle_display el v w) = DEFAULTS w"
  "instances (setStyle_display el v w) = instances w"
  "lookup (setStyle_display el v w) = lookup w"
  "closures (setStyle_display el v w) = closures w"
  "next_closure (setStyle_display el v w) = next_closure w"
  "current (setStyle_display el v w) = current w"
  "scrollTop (setStyle_display el v w) = scrollTop w"
  "event_log (setStyle_display el v w) = event_log w"
  by (simp_all add: setStyle_display_def)

lemma addNSEventListener_frame [simp]:
  "browser (addNSEventListener el events cb w) = browser w"
  "next_elem (addNSEventListener el events cb w) = next_elem w"
  "html_classList (addNSEventListener el events cb w) = html_classList w"
  "body_padding_right (addNSEventListener el events cb w) = body_padding_right w"
  "scrollbar_width (addNSEventListener el events cb w) = scrollbar_width w"
  "location_hash (addNSEventListener el events cb w) = location_hash w"
  "scrollY (addNSEventListener el events cb w) = scrollY w"
  "bg_element (addNSEventListener el events cb w) = bg_element w"
  "overlay_element (addNSEventListener el events cb w) = overlay_element w"
  "settings_store (addNSEventListener el events cb w) = settings_store w"
  "DEFAULTS (addNSEventListener el events cb w) = DEFAULTS w"
  "instances (addNSEventListener el events cb w) = instances w"
  "lookup (addNSEventListener el events cb w) = lookup w"
  "closures (addNSEventListener el events cb w) = closures w"
  "next_closure (addNSEventListener el events cb w) = next_closure w"
  "current (addNSEventListener el events cb w) = current w"
  "scrollTop (addNSEventListener el events cb w) = scrollTop w"
  "event_log (addNSEventListener el events cb w) = event_log w"
  by (simp_all add: addNSEventListener_def)

lemma removeNSEventListener_frame [simp]:
  "browser (removeNSEventListener el events w) = browser w"
  "next_elem (removeNSEventListener el events w) = next_elem w"
  "html_classList (removeNSEventListener el events w) = html_classList w"
  "body_padding_right (removeNSEventListener el events w) = body_padding_right w"
  "scrollbar_width (removeNSEventListener el events w) = scrollbar_width w"
  "location_hash (removeNSEventListener el events w) = location_hash w"
  "scrollY (removeNSEventListener el events w) = scrollY w"
  "bg_element (removeNSEventListener el events w) = bg_element w"
  "overlay_element (removeNSEventListener el events w) = overlay_element w"
  "settings_store (removeNSEventListener el events w) = settings_store w"
  "DEFAULTS (removeNSEventListener el events w) = DEFAULTS w"
  "instances (removeNSEventListener el events w) = instances w"
  "lookup (removeNSEventListener el events w) = lookup w"
  "closures (removeNSEventListener el events w) = closures w"
  "next_closure (removeNSEventListener el events w) = next_closure w"
  "current (removeNSEventListener el events w) = current w"
  "scrollTop (removeNSEventListener el events w) = scrollTop w"
  "event_log (removeNSEventListener el events w) = event_log w"
  by (simp_all add: removeNSEventListener_def)

lemma addClasses_elem_frame [simp]:
  "display (elems (addClasses el classes w) e) = display (elems w e)"
  "data_remodal_id (elems (addClasses el classes w) e) = data_remodal_id (elems w e)"
  "namespaces (elems (addClasses el classes w) e) = namespaces (elems w e)"
  "listeners (elems (addClasses el classes w) e) = listeners (elems w e)"
  by (simp_all add: addClasses_def update_elem_def)

lemma removeClasses_elem_frame [simp]:
  "display (elems (removeClasses el classes w) e) = display (elems w e)"
  "data_remodal_id (elems (removeClasses el classes w) e) = data_remodal_id (elems w e)"
  "namespaces (elems (removeClasses el classes w) e) = namespaces (elems w e)"
  "listeners (elems (removeClasses el classes w) e) = listeners (elems w e)"
  by (simp_all add: removeClasses_def update_elem_def)

lemma hide_elem_frame [simp]:
  "classList (elems (hide el w) e) = classList (elems w e)"
  "data_remodal_id (elems (hide el w) e) = data_remodal_id (elems w e)"
  "namespaces (elems (hide el w) e) = namespaces (elems w e)"
  "listeners (elems (hide el w) e) = listeners (elems w e)"
  by (simp_all add: hide_def update_elem_def)

lemma setStyle_display_elem_frame [simp]:
  "classList (elems (setStyle_display el v w) e) = classList (elems w e)"
  "data_remodal_id (elems (setStyle_display el v w) e) = data_remodal_id (elems w e)"
  "namespaces (elems (setStyle_display el v w) e) = namespaces (elems w e)"
  "listeners (elems (setStyle_display el v w) e) = listeners (elems w e)"
  by (simp_all add: setStyle_display_def update_elem_def)

lemma fold_addSingleNSEvent_frame [simp]:
  "classList (fold (addSingleNSEvent cb) names x) = classList x"
  "display (fold (addSingleNSEvent cb) names x) = display x"
  "data_remodal_id (fold (addSingleNSEvent cb) names x) = data_remodal_id x"
  by (induction names arbitrary: x; simp add: addSingleNSEvent_def)+

lemma fold_removeSingleNSEvent_frame [simp]:
  "classList (fold removeSingleNSEvent names x) = classList x"
  "display (fold removeSingleNSEvent names x) = display x"
  "data_remodal_id (fold removeSingleNSEvent names x) = data_remodal_id x"
  by (induction names arbitrary: x; simp add: removeSingleNSEvent_def)+

lemma addNSEventListener_elem_frame [simp]:
  "classList (elems (addNSEventListener el events cb w) e) = classList (elems w e)"
  "display (elems (addNSEventListener el events cb w) e) = display (elems w e)"
  "data_remodal_id (elems (addNSEventListener el events cb w) e) = data_remodal_id (elems w e)"
  by (simp_all add: addNSEventListener_def update_elem_def)

lemma removeNSEventListener_elem_frame [simp]:
  "classList (elems (removeNSEventListener el events w) e) = classList (elems w e)"
  "display (elems (removeNSEventListener el events w) e) = display (elems w e)"
  "data_remodal_id (elems (removeNSEventListener el events w) e) = data_remodal_id (elems w e)"
  by (simp_all add: removeNSEventListener_def update_elem_def)

lemma triggerEvent_frame [simp]:
  "browser (triggerEvent el eventType reason w) = browser w"
  "elems (triggerEvent el eventType reason w) = elems w"
  "next_elem (triggerEvent el eventType reason w) = next_elem w"
  "html_classList (triggerEvent el eventType reason w) = html_classList w"
  "body_padding_right (triggerEvent el eventType reason w) = body_padding_right w"
  "scrollbar_width (triggerEvent el eventType reason w) = scrollbar_width w"
  "location_hash (triggerEvent el eventType reason w) = location_hash w"
  "scrollY (triggerEvent el eventType reason w) = scrollY w"
  "bg_element (triggerEvent el eventType reason w) = bg_element w"
  "overlay_element (triggerEvent el eventType reason w) = overlay_element w"
  "settings_store (triggerEvent el eventType reason w) = settings_store w"
  "DEFAULTS (triggerEvent el eventType reason w) = DEFAULTS w"
  "instances (triggerEvent el eventType reason w) = instances w"
  "lookup (triggerEvent el eventType reason w) = lookup w"
  "closures (triggerEvent el eventType reason w) = closures w"
  "next_closure (triggerEvent el eventType reason w) = next_closure w"
  "current (triggerEvent el eventType reason w) = current w"
  "scrollTop (triggerEvent el eventType reason w) = scrollTop w"
  by (simp_all add: triggerEvent_def)

lemma screenLockToggle_frame [simp]:
  "browser (screenLockToggle act w) = browser w"
  "elems (screenLockToggle act w) = elems w"
  "next_elem (screenLockToggle act w) = next_elem w"
  "scrollbar_width (screenLockToggle act w) = scrollbar_width w"
  "location_hash (screenLockToggle act w) = location_hash w"
  "scrollY (screenLockToggle act w) = scrollY w"
  "bg_element (screenLockToggle act w) = bg_element w"
  "overlay_element (screenLockToggle act w) = overlay_element w"
  "settings_store (screenLockToggle act w) = settings_store w"
  "DEFAULTS (screenLockToggle act w) = DEFAULTS w"
  "instances (screenLockToggle act w) = instances w"
  "lookup (screenLockToggle act w) = lookup w"
  "closures (screenLockToggle act w) = closures w"
  "next_closure (screenLockToggle act w) = next_closure w"
  "current (screenLockToggle act w) = current w"
  "scrollTop (screenLockToggle act w) = scrollTop w"
  "event_log (screenLockToggle act w) = event_log w"
  by (simp_all add: screenLockToggle_def Let_def)

lemma new_closure_frame [simp]:
  "browser (new_closure doAfter i w) = browser w"
  "elems (new_closure doAfter i w) = elems w"
  "next_elem (new_closure doAfter i w) = next_elem w"
  "html_classList (new_closure doAfter i w) = html_classList w"
  "body_padding_right (new_closure doAfter i w) = body_padding_right w"
  "scrollbar_width (new_closure doAfter i w) = scrollbar_width w"
  "location_hash (new_closure doAfter i w) = location_hash w"
  "scrollY (new_closure doAfter i w) = scrollY w"
  "bg_element (new_closure doAfter i w) = bg_element w"
  "overlay_element (new_closure doAfter i w) = overlay_element w"
  "settings_store (new_closure doAfter i w) = settings_store w"
  "DEFAULTS (new_closure doAfter i w) = DEFAULTS w"
  "instances (new_closure doAfter i w) = instances w"
  "lookup (new_closure doAfter i w) = lookup w"
  "current (new_closure doAfter i w) = current w"
  "scrollTop (new_closure doAfter i w) = scrollTop w"
  "event_log (new_closure doAfter i w) = event_log w"
  by (simp_all add: new_closure_def)

lemma detach_handlers_frame [simp]:
  "browser (detach_handlers i w) = browser w"
  "next_elem (detach_handlers i w) = next_elem w"
  "html_classList (detach_handlers i w) = html_classList w"
  "body_padding_right (detach_handlers i w) = body_padding_right w"
  "scrollbar_width (detach_handlers i w) = scrollbar_width w"
  "location_hash (detach_handlers i w) = location_hash w"
  "scrollY (detach_handlers i w) = scrollY w"
  "bg_element (detach_handlers i w) = bg_element w"
  "overlay_element (detach_handlers i w) = overlay_element w"
  "settings_store (detach_handlers i w) = settings_store w"
  "DEFAULTS (detach_handlers i w) = DEFAULTS w"
  "instances (detach_handlers i w) = instances w"
  "lookup (detach_handlers i w) = lookup w"
  "closures (detach_handlers i w) = closures w"
  "next_closure (detach_handlers i w) = next_closure w"
  "current (detach_handlers i w) = current w"
  "scrollTop (detach_handlers i w) = scrollTop w"
  "event_log (detach_handlers i w) = event_log w"
  by (simp_all add: detach_handlers_def surfaces_def)

lemma detach_handlers_elem_frame [simp]:
  "classList (elems (detach_handlers i w) e) = classList (elems w e)"
  "display (elems (detach_handlers i w) e) = display (elems w e)"
  "data_remodal_id (elems (detach_handlers i w) e) = data_remodal_id (elems w e)"
  by (simp_all add: detach_handlers_def surfaces_def)

lemma attach_handlers_frame [simp]:
  "browser (attach_handlers c i w) = browser w"
  "next_elem (attach_handlers c i w) = next_elem w"
  "html_classList (attach_handlers c i w) = html_classList w"
  "body_padding_right (attach_handlers c i w) = body_padding_right w"
  "scrollbar_width (attach_handlers c i w) = scrollbar_width w"
  "location_hash (attach_handlers c i w) = location_hash w"
  "scrollY (attach_handlers c i w) = scrollY w"
  "bg_element (attach_handlers c i w) = bg_element w"
  "overlay_element (attach_handlers c i w) = overlay_element w"
  "settings_store (attach_handlers c i w) = settings_store w"
  "DEFAULTS (attach_handlers c i w) = DEFAULTS w"
  "instances (attach_handlers c i w) = instances w"
  "lookup (attach_handlers c i w) = lookup w"
  "closures (attach_handlers c i w) = closures w"
  "next_closure (attach_handlers c i w) = next_closure w"
  "current (attach_handlers c i w) = current w"
  "scrollTop (attach_handlers c i w) = scrollTop w"
  "event_log (attach_handlers c i w) = event_log w"
  by (simp_all add: attach_handlers_def surfaces_def)

lemma attach_handlers_elem_frame [simp]:
  "classList (elems (attach_handlers c i w) e) = classList (elems w e)"
  "display (elems (attach_handlers c i w) e) = display (elems w e)"
  "data_remodal_id (elems (attach_handlers c i w) e) = data_remodal_id (elems w e)"
  by (simp_all add: attach_handlers_def surfaces_def)

lemma addClasses_surfaces [simp]:
  "surfaces (addClasses el classes w) j = surfaces w j"
  "the_settings (addClasses el classes w) j = the_settings w j"
  by (simp_all add: surfaces_def the_settings_def)

lemma removeClasses_surfaces [simp]:
  "surfaces (removeClasses el classes w) j = surfaces w j"
  "the_settings (removeClasses el classes w) j = the_settings w j"
  by (simp_all add: surfaces_def the_settings_def)

lemma hide_surfaces [simp]:
  "surfaces (hide el w) j = surfaces w j"
  "the_settings (hide el w) j = the_settings w j"
  by (simp_all add: surfaces_def the_settings_def)

lemma setStyle_display_surfaces [simp]:
  "surfaces (setStyle_display el v w) j = surfaces w j"
  "the_settings (setStyle_display el v w) j = the_settings w j"
  by (simp_all add: surfaces_def the_settings_def)

lemma addNSEventListener_surfaces [simp]:
  "surfaces (addNSEventListener el events cb w) j = surfaces w j"
  "the_settings (addNSEventListener el events cb w) j = the_settings w j"
  by (simp_all add: surfaces_def the_settings_def)

lemma removeNSEventListener_surfaces [simp]:
  "surfaces (removeNSEventListener el events w) j = surfaces w j"
  "the_settings (removeNSEventListener el events w) j = the_settings w j"
  by (simp_all add: surfaces_def the_settings_def)

lemma triggerEvent_surfaces [simp]:
  "surfaces (triggerEvent el eventType reason w) j = surfaces w j"
  "the_settings (triggerEvent el eventType reason w) j = the_settings w j"
  by (simp_all add: surfaces_def the_settings_def)

lemma screenLockToggle_surfaces [simp]:
  "surfaces (screenLockToggle act w) j = surfaces w j"
  "the_settings (screenLockToggle act w) j = the_settings w j"
  by (simp_all add: surfaces_def the_settings_def)

lemma detach_handlers_surfaces [simp]:
  "surfaces (detach_handlers i w) j = surfaces w j"
  "the_settings (detach_handlers i w) j = the_settings w j"
  by (simp_all add: surfaces_def the_settings_def)

lemma attach_handlers_surfaces [simp]:
  "surfaces (attach_handlers c i w) j = surfaces w j"
  "the_settings (attach_handlers c i w) j = the_settings w j"
  by (simp_all add: surfaces_def the_settings_def)

lemma setState_frame [simp]:
  "browser (setState i st isSilent reason w) = browser w"
  "next_elem (setState i st isSilent reason w) = next_elem w"
  "html_classList (setState i st isSilent reason w) = html_classList w"
  "body_padding_right (setState i st isSilent reason w) = body_padding_right w"
  "scrollbar_width (setState i st isSilent reason w) = scrollbar_width w"
  "location_hash (setState i st isSilent reason w) = location_hash w"
  "scrollY (setState i st isSilent reason w) = scrollY w"
  "bg_element (setState i st isSilent reason w) = bg_element w"
  "overlay_element (setState i st isSilent reason w) = overlay_element w"
  "settings_store (setState i st isSilent reason w) = settings_store w"
  "DEFAULTS (setState i st isSilent reason w) = DEFAULTS w"
  "lookup (setState i st isSilent reason w) = lookup w"
  "closures (setState i st isSilent reason w) = closures w"
  "next_closure (setState i st isSilent reason w) = next_closure w"
  "current (setState i st isSilent reason w) = current w"
  "scrollTop (setState i st isSilent reason w) = scrollTop w"
  by (simp_all add: setState_def Let_def surfaces_def)

lemma setState_elem_frame [simp]:
  "display (elems (setState i st isSilent reason w) e) = display (elems w e)"
  "data_remodal_id (elems (setState i st isSilent reason w) e) = data_remodal_id (elems w e)"
  "namespaces (elems (setState i st isSilent reason w) e) = namespaces (elems w e)"
  "listeners (elems (setState i st isSilent reason w) e) = listeners (elems w e)"
  by (simp_all add: setState_def Let_def surfaces_def)

lemma setState_instances:
  "instances (setState i st isSilent reason w) = (instances w)(i := (instances w i)\<lparr>state := st\<rparr>)"
  by (simp add: setState_def Let_def surfaces_def)

lemma setState_inst_frame [simp]:
  "settings_ref (instances (setState i st isSilent reason w) j) = settings_ref (instances w j)"
  "index (instances (setState i st isSilent reason w) j) = index (instances w j)"
  "overlay (instances (setState i st isSilent reason w) j) = overlay (instances w j)"
  "bg (instances (setState i st isSilent reason w) j) = bg (instances w j)"
  "modal (instances (setState i st isSilent reason w) j) = modal (instances w j)"
  "wrapper (instances (setState i st isSilent reason w) j) = wrapper (instances w j)"
  by (simp_all add: setState_instances)

lemma setState_surfaces [simp]:
  "surfaces (setState i st isSilent reason w) j = surfaces w j"
  "the_settings (setState i st isSilent reason w) j = the_settings w j"
  by (simp_all add: surfaces_def the_settings_def)

lemma setState_state [simp]:
  "state (instances (setState i st isSilent reason w) j) = (if j = i then st else state (instances w j))"
  by (simp add: setState_instances)

lemma setState_event_log [simp]:
  "event_log (setState i st isSilent reason w) =
     (if isSilent then event_log w else event_log w @ [Event (modal (instances w i)) (state_name st) reason])"
  by (simp add: setState_def Let_def surfaces_def triggerEvent_def)

lemma run_action_frame [simp]:
  "browser (run_action a i w) = browser w"
  "next_elem (run_action a i w) = next_elem w"
  "scrollbar_width (run_action a i w) = scrollbar_width w"
  "location_hash (run_action a i w) = location_hash w"
  "scrollY (run_action a i w) = scrollY w"
  "bg_element (run_action a i w) = bg_element w"
  "overlay_element (run_action a i w) = overlay_element w"
  "settings_store (run_action a i w) = settings_store w"
  "DEFAULTS (run_action a i w) = DEFAULTS w"
  "lookup (run_action a i w) = lookup w"
  "closures (run_action a i w) = closures w"
  "next_closure (run_action a i w) = next_closure w"
  "current (run_action a i w) = current w"
  "scrollTop (run_action a i w) = scrollTop w"
  by (cases a; simp add: run_action_def Let_def)+

lemma run_action_elem_frame [simp]:
  "data_remodal_id (elems (run_action a i w) e) = data_remodal_id (elems w e)"
  "namespaces (elems (run_action a i w) e) = namespaces (elems w e)"
  "listeners (elems (run_action a i w) e) = listeners (elems w e)"
  by (cases a; simp add: run_action_def Let_def)+

lemma run_action_inst_frame [simp]:
  "settings_ref (instances (run_action a i w) j) = settings_ref (instances w j)"
  "index (instances (run_action a i w) j) = index (instances w j)"
  "overlay (instances (run_action a i w) j) = overlay (instances w j)"
  "bg (instances (run_action a i w) j) = bg (instances w j)"
  "modal (instances (run_action a i w) j) = modal (instances w j)"
  "wrapper (instances (run_action a i w) j) = wrapper (instances w j)"
  by (cases a; simp add: run_action_def Let_def)+

lemma run_action_surfaces [simp]:
  "surfaces (run_action a i w) j = surfaces w j"
  "the_settings (run_action a i w) j = the_settings w j"
  by (simp_all add: surfaces_def the_settings_def)

lemma halt_frame [simp]:
  "browser (halt i w) = browser w"
  "next_elem (halt i w) = next_elem w"
  "scrollbar_width (halt i w) = scrollbar_width w"
  "location_hash (halt i w) = location_hash w"
  "scrollY (halt i w) = scrollY w"
  "bg_element (halt i w) = bg_element w"
  "overlay_element (halt i w) = overlay_element w"
  "settings_store (halt i w) = settings_store w"
  "DEFAULTS (halt i w) = DEFAULTS w"
  "lookup (halt i w) = lookup w"
  "closures (halt i w) = closures w"
  "next_closure (halt i w) = next_closure w"
  "current (halt i w) = current w"
  "scrollTop (halt i w) = scrollTop w"
  "event_log (halt i w) = event_log w"
  by (simp_all add: halt_def Let_def)

lemma halt_elem_frame [simp]:
  "data_remodal_id (elems (halt i w) e) = data_remodal_id (elems w e)"
  by (simp_all add: halt_def Let_def)

lemma halt_inst_frame [simp]:
  "settings_ref (instances (halt i w) j) = settings_ref (instances w j)"
  "index (instances (halt i w) j) = index (instances w j)"
  "overlay (instances (halt i w) j) = overlay (instances w j)"
  "bg (instances (halt i w) j) = bg (instances w j)"
  "modal (instances (halt i w) j) = modal (instances w j)"
  "wrapper (instances (halt i w) j) = wrapper (instances w j)"
  by (simp_all add: halt_def Let_def)

lemma halt_surfaces [simp]:
  "surfaces (halt i w) j = surfaces w j"
  "the_settings (halt i w) j = the_settings w j"
  by (simp_all add: surfaces_def the_settings_def)

lemma barrier_entry_frame [simp]:
  "browser (barrier_entry doBefore doAfter i w) = browser w"
  "next_elem (barrier_entry doBefore doAfter i w) = next_elem w"
  "scrollbar_width (barrier_entry doBefore doAfter i w) = scrollbar_width w"
  "location_hash (barrier_entry doBefore doAfter i w) = location_hash w"
  "scrollY (barrier_entry doBefore doAfter i w) = scrollY w"
  "bg_element (barrier_entry doBefore doAfter i w) = bg_element w"
  "overlay_element (barrier_entry doBefore doAfter i w) = overlay_element w"
  "settings_store (barrier_entry doBefore doAfter i w) = settings_store w"
  "DEFAULTS (barrier_entry doBefore doAfter i w) = DEFAULTS w"
  "lookup (barrier_entry doBefore doAfter i w) = lookup w"
  "current (barrier_entry doBefore doAfter i w) = current w"
  "scrollTop (barrier_entry doBefore doAfter i w) = scrollTop w"
  by (simp_all add: barrier_entry_def)

lemma barrier_entry_elem_frame [simp]:
  "data_remodal_id (elems (barrier_entry doBefore doAfter i w) e) = data_remodal_id (elems w e)"
  by (simp_all add: barrier_entry_def)

lemma new_closure_surfaces [simp]:
  "surfaces (new_closure doAfter i w) j = surfaces w j"
  "the_settings (new_closure doAfter i w) j = the_settings w j"
  by (simp_all add: surfaces_def the_settings_def)

lemma barrier_entry_inst_frame [simp]:
  "settings_ref (instances (barrier_entry doBefore doAfter i w) j) = settings_ref (instances w j)"
  "index (instances (barrier_entry doBefore doAfter i w) j) = index (instances w j)"
  "overlay (instances (barrier_entry doBefore doAfter i w) j) = overlay (instances w j)"
  "bg (instances (barrier_entry doBefore doAfter i w) j) = bg (instances w j)"
  "modal (instances (barrier_entry doBefore doAfter i w) j) = modal (instances w j)"
  "wrapper (instances (barrier_entry doBefore doAfter i w) j) = wrapper (instances w j)"
  by (simp_all add: barrier_entry_def)

lemma barrier_entry_surfaces [simp]:
  "surfaces (barrier_entry doBefore doAfter i w) j = surfaces w j"
  "the_settings (barrier_entry doBefore doAfter i w) j = the_settings w j"
  by (simp_all add: surfaces_def the_settings_def)

lemma syncWithAnimation_frame [simp]:
  "browser (syncWithAnimation doBefore doAfter i w) = browser w"
  "next_elem (syncWithAnimation doBefore doAfter i w) = next_elem w"
  "scrollbar_width (syncWithAnimation doBefore doAfter i w) = scrollbar_width w"
  "location_hash (syncWithAnimation doBefore doAfter i w) = location_hash w"
  "scrollY (syncWithAnimation doBefore doAfter i w) = scrollY w"
  "bg_element (syncWithAnimation doBefore doAfter i w) = bg_element w"
  "overlay_element (syncWithAnimation doBefore doAfter i w) = overlay_element w"
  "settings_store (syncWithAnimation doBefore doAfter i w) = settings_store w"
  "DEFAULTS (syncWithAnimation doBefore doAfter i w) = DEFAULTS w"
  "lookup (syncWithAnimation doBefore doAfter i w) = lookup w"
  "current (syncWithAnimation doBefore doAfter i w) = current w"
  "scrollTop (syncWithAnimation doBefore doAfter i w) = scrollTop w"
  by (simp_all add: syncWithAnimation_def Let_def)

lemma syncWithAnimation_elem_frame [simp]:
  "data_remodal_id (elems (syncWithAnimation doBefore doAfter i w) e) = data_remodal_id (elems w e)"
  by (simp_all add: syncWithAnimation_def Let_def)

lemma syncWithAnimation_inst_frame [simp]:
  "settings_ref (instances (syncWithAnimation doBefore doAfter i w) j) = settings_ref (instances w j)"
  "index (instances (syncWithAnimation doBefore doAfter i w) j) = index (instances w j)"
  "overlay (instances (syncWithAnimation doBefore doAfter i w) j) = overlay (instances w j)"
  "bg (instances (syncWithAnimation doBefore doAfter i w) j) = bg (instances w j)"
  "modal (instances (syncWithAnimation doBefore doAfter i w) j) = modal (instances w j)"
  "wrapper (instances (syncWithAnimation doBefore doAfter i w) j) = wrapper (instances w j)"
  by (simp_all add: syncWithAnimation_def Let_def)

lemma syncWithAnimation_surfaces [simp]:
  "surfaces (syncWithAnimation doBefore doAfter i w) j = surfaces w j"
  "the_settings (syncWithAnimation doBefore doAfter i w) j = the_settings w j"
  by (simp_all add: surfaces_def the_settings_def)

lemma invoke_frame [simp]:
  "browser (invoke h this target w) = browser w"
  "next_elem (invoke h this target w) = next_elem w"
  "scrollbar_width (invoke h this target w) = scrollbar_width w"
  "location_hash (invoke h this target w) = location_hash w"
  "scrollY (invoke h this target w) = scrollY w"
  "bg_element (invoke h this target w) = bg_element w"
  "overlay_element (invoke h this target w) = overlay_element w"
  "settings_store (invoke h this target w) = settings_store w"
  "DEFAULTS (invoke h this target w) = DEFAULTS w"
  "lookup (invoke h this target w) = lookup w"
  "next_closure (invoke h this target w) = next_closure w"
  "current (invoke h this target w) = current w"
  "scrollTop (invoke h this target w) = scrollTop w"
  by (cases h; simp add: invoke_def Let_def)+

lemma invoke_elem_frame [simp]:
  "data_remodal_id (elems (invoke h this target w) e) = data_remodal_id (elems w e)"
  by (cases h; simp add: invoke_def Let_def)+

lemma invoke_inst_frame [simp]:
  "settings_ref (instances (invoke h this target w) j) = settings_ref (instances w j)"
  "index (instances (invoke h this target w) j) = index (instances w j)"
  "overlay (instances (invoke h this target w) j) = overlay (instances w j)"
  "bg (instances (invoke h this target w) j) = bg (instances w j)"
  "modal (instances (invoke h this target w) j) = modal (instances w j)"
  "wrapper (instances (invoke h this target w) j) = wrapper (instances w j)"
  by (cases h; simp add: invoke_def Let_def)+

lemma invoke_surfaces [simp]:
  "surfaces (invoke h this target w) j = surfaces w j"
  "the_settings (invoke h this target w) j = the_settings w j"
  by (simp_all add: surfaces_def the_settings_def)

lemma fold_keeps:
  assumes "\<And>x s. proj (g x s) = proj s"
  shows "proj (fold g xs s) = proj s"
  using assms by (induction xs arbitrary: s) simp_all

lemma dispatch_at_frame [simp]:
  "browser (dispatch_at typ target el w) = browser w"
  "next_elem (dispatch_at typ target el w) = next_elem w"
  "scrollbar_width (dispatch_at typ target el w) = scrollbar_width w"
  "location_hash (dispatch_at typ target el w) = location_hash w"
  "scrollY (dispatch_at typ target el w) = scrollY w"
  "bg_element (dispatch_at typ target el w) = bg_element w"
  "overlay_element (dispatch_at typ target el w) = overlay_element w"
  "settings_store (dispatch_at typ target el w) = settings_store w"
  "DEFAULTS (dispatch_at typ target el w) = DEFAULTS w"
  "lookup (dispatch_at typ target el w) = lookup w"
  "next_closure (dispatch_at typ target el w) = next_closure w"
  "current (dispatch_at typ target el w) = current w"
  "scrollTop (dispatch_at typ target el w) = scrollTop w"
  unfolding dispatch_at_def by (rule fold_keeps; simp)+

lemma dispatch_at_elem_frame [simp]:
  "data_remodal_id (elems (dispatch_at typ target el w) e) = data_remodal_id (elems w e)"
  unfolding dispatch_at_def by (rule fold_keeps [where proj = "\<lambda>w. data_remodal_id (elems w e)"]) simp

lemma dispatch_at_inst_frame [simp]:
  "settings_ref (instances (dispatch_at typ target el w) j) = settings_ref (instances w j)"
  "index (instances (dispatch_at typ target el w) j) = index (instances w j)"
  "overlay (instances (dispatch_at typ target el w) j) = overlay (instances w j)"
  "bg (instances (dispatch_at typ target el w) j) = bg (instances w j)"
  "modal (instances (dispatch_at typ target el w) j) = modal (instances w j)"
  "wrapper (instances (dispatch_at typ target el w) j) = wrapper (instances w j)"
  unfolding dispatch_at_def
  by (rule fold_keeps [where proj = "\<lambda>w. settings_ref (instances w j)"], simp,
      rule fold_keeps [where proj = "\<lambda>w. index (instances w j)"], simp,
      rule fold_keeps [where proj = "\<lambda>w. overlay (instances w j)"], simp,
      rule fold_keeps [where proj = "\<lambda>w. bg (instances w j)"], simp,
      rule fold_keeps [where proj = "\<lambda>w. modal (instances w j)"], simp,
      rule fold_keeps [where proj = "\<lambda>w. wrapper (instances w j)"], simp)

lemma dispatch_at_surfaces [simp]:
  "surfaces (dispatch_at typ target el w) j = surfaces w j"
  "the_settings (dispatch_at typ target el w) j = the_settings w j"
  by (simp_all add: surfaces_def the_settings_def)

lemma dispatchEvent_frame [simp]:
  "browser (dispatchEvent sg w) = browser w"
  "next_elem (dispatchEvent sg w) = next_elem w"
  "scrollbar_width (dispatchEvent sg w) = scrollbar_width w"
  "location_hash (dispatchEvent sg w) = location_hash w"
  "scrollY (dispatchEvent sg w) = scrollY w"
  "bg_element (dispatchEvent sg w) = bg_element w"
  "overlay_element (dispatchEvent sg w) = overlay_element w"
  "settings_store (dispatchEvent sg w) = settings_store w"
  "DEFAULTS (dispatchEvent sg w) = DEFAULTS w"
  "lookup (dispatchEvent sg w) = lookup w"
  "next_closure (dispatchEvent sg w) = next_closure w"
  "current (dispatchEvent sg w) = current w"
  "scrollTop (dispatchEvent sg w) = scrollTop w"
  unfolding dispatchEvent_def by (rule fold_keeps; simp)+

lemma dispatchEvent_elem_frame [simp]:
  "data_remodal_id (elems (dispatchEvent sg w) e) = data_remodal_id (elems w e)"
  unfolding dispatchEvent_def by (rule fold_keeps [where proj = "\<lambda>w. data_remodal_id (elems w e)"]) simp

lemma dispatchEvent_inst_frame [simp]:
  "settings_ref (instances (dispatchEvent sg w) j) = settings_ref (instances w j)"
  "index (instances (dispatchEvent sg w) j) = index (instances w j)"
  "overlay (instances (dispatchEvent sg w) j) = overlay (instances w j)"
  "bg (instances (dispatchEvent sg w) j) = bg (instances w j)"
  "modal (instances (dispatchEvent sg w) j) = modal (instances w j)"
  "wrapper (instances (dispatchEvent sg w) j) = wrapper (instances w j)"
  unfolding dispatchEvent_def
  by (rule fold_keeps [where proj = "\<lambda>w. settings_ref (instances w j)"], simp,
      rule fold_keeps [where proj = "\<lambda>w. index (instances w j)"], simp,
      rule fold_keeps [where proj = "\<lambda>w. overlay (instances w j)"], simp,
      rule fold_keeps [where proj = "\<lambda>w. bg (instances w j)"], simp,
      rule fold_keeps [where proj = "\<lambda>w. modal (instances w j)"], simp,
      rule fold_keeps [where proj = "\<lambda>w. wrapper (instances w j)"], simp)

lemma dispatchEvent_surfaces [simp]:
  "surfaces (dispatchEvent sg w) j = surfaces w j"
  "the_settings (dispatchEvent sg w) j = the_settings w j"
  by (simp_all add: surfaces_def the_settings_def)

lemma open_record_scroll_frame [simp]:
  "browser (open_record_scroll i w) = browser w"
  "elems (open_record_scroll i w) = elems w"
  "next_elem (open_record_scroll i w) = next_elem w"
  "html_classList (open_record_scroll i w) = html_classList w"
  "body_padding_right (open_record_scroll i w) = body_padding_right w"
  "scrollbar_width (open_record_scroll i w) = scrollbar_width w"
  "scrollY (open_record_scroll i w) = scrollY w"
  "bg_element (open_record_scroll i w) = bg_element w"
  "overlay_element (open_record_scroll i w) = overlay_element w"
  "settings_store (open_record_scroll i w) = settings_store w"
  "DEFAULTS (open_record_scroll i w) = DEFAULTS w"
  "instances (open_record_scroll i w) = instances w"
  "lookup (open_record_scroll i w) = lookup w"
  "closures (open_record_scroll i w) = closures w"
  "next_closure (open_record_scroll i w) = next_closure w"
  "current (open_record_scroll i w) = current w"
  "event_log (open_record_scroll i w) = event_log w"
  by (simp_all add: open_record_scroll_def split: option.splits)

lemma open_record_scroll_surfaces [simp]:
  "surfaces (open_record_scroll i w) j = surfaces w j"
  "the_settings (open_record_scroll i w) j = the_settings w j"
  by (simp_all add: surfaces_def the_settings_def)

lemma open_halt_current_frame [simp]:
  "browser (open_halt_current i w) = browser w"
  "next_elem (open_halt_current i w) = next_elem w"
  "scrollbar_width (open_halt_current i w) = scrollbar_width w"
  "location_hash (open_halt_current i w) = location_hash w"
  "scrollY (open_halt_current i w) = scrollY w"
  "bg_element (open_halt_current i w) = bg_element w"
  "overlay_element (open_halt_current i w) = overlay_element w"
  "settings_store (open_halt_current i w) = settings_store w"
  "DEFAULTS (open_halt_current i w) = DEFAULTS w"
  "lookup (open_halt_current i w) = lookup w"
  "closures (open_halt_current i w) = closures w"
  "next_closure (open_halt_current i w) = next_closure w"
  "current (open_halt_current i w) = current w"
  "scrollTop (open_halt_current i w) = scrollTop w"
  "event_log (open_halt_current i w) = event_log w"
  by (simp_all add: open_halt_current_def split: option.splits)

lemma open_halt_current_elem_frame [simp]:
  "data_remodal_id (elems (open_halt_current i w) e) = data_remodal_id (elems w e)"
  by (simp_all add: open_halt_current_def split: option.splits)

lemma open_halt_current_inst_frame [simp]:
  "settings_ref (instances (open_halt_current i w) j) = settings_ref (instances w j)"
  "index (instances (open_halt_current i w) j) = index (instances w j)"
  "overlay (instances (open_halt_current i w) j) = overlay (instances w j)"
  "bg (instances (open_halt_current i w) j) = bg (instances w j)"
  "modal (instances (open_halt_current i w) j) = modal (instances w j)"
  "wrapper (instances (open_halt_current i w) j) = wrapper (instances w j)"
  by (simp_all add: open_halt_current_def split: option.splits)

lemma open_halt_current_surfaces [simp]:
  "surfaces (open_halt_current i w) j = surfaces w j"
  "the_settings (open_halt_current i w) j = the_settings w j"
  by (simp_all add: surfaces_def the_settings_def)

lemma open_statements_frame [simp]:
  "browser (run (open_statements i) w) = browser w"
  "next_elem (run (open_statements i) w) = next_elem w"
  "scrollbar_width (run (open_statements i) w) = scrollbar_width w"
  "scrollY (run (open_statements i) w) = scrollY w"
  "bg_element (run (open_statements i) w) = bg_element w"
  "overlay_element (run (open_statements i) w) = overlay_element w"
  "settings_store (run (open_statements i) w) = settings_store w"
  "DEFAULTS (run (open_statements i) w) = DEFAULTS w"
  "lookup (run (open_statements i) w) = lookup w"
  "closures (run (open_statements i) w) = closures w"
  "next_closure (run (open_statements i) w) = next_closure w"
  by (simp_all add: run_def open_statements_def)

lemma open_statements_elem_frame [simp]:
  "data_remodal_id (elems (run (open_statements i) w) e) = data_remodal_id (elems w e)"
  by (simp_all add: run_def open_statements_def)

lemma open_statements_inst_frame [simp]:
  "settings_ref (instances (run (open_statements i) w) j) = settings_ref (instances w j)"
  "index (instances (run (open_statements i) w) j) = index (instances w j)"
  "overlay (instances (run (open_statements i) w) j) = overlay (instances w j)"
  "bg (instances (run (open_statements i) w) j) = bg (instances w j)"
  "modal (instances (run (open_statements i) w) j) = modal (instances w j)"
  "wrapper (instances (run (open_statements i) w) j) = wrapper (instances w j)"
  by (simp_all add: run_def open_statements_def)

lemma open_statements_surfaces [simp]:
  "surfaces (run (open_statements i) w) j = surfaces w j"
  "the_settings (run (open_statements i) w) j = the_settings w j"
  by (simp_all add: surfaces_def the_settings_def)

lemma Remodal_open_frame [simp]:
  "browser (Remodal_open i w) = browser w"
  "next_elem (Remodal_open i w) = next_elem w"
  "scrollbar_width (Remodal_open i w) = scrollbar_width w"
  "scrollY (Remodal_open i w) = scrollY w"
  "bg_element (Remodal_open i w) = bg_element w"
  "overlay_element (Remodal_open i w) = overlay_element w"
  "settings_store (Remodal_open i w) = settings_store w"
  "DEFAULTS (Remodal_open i w) = DEFAULTS w"
  "lookup (Remodal_open i w) = lookup w"
  by (simp_all add: Remodal_open_def)

lemma Remodal_open_elem_frame [simp]:
  "data_remodal_id (elems (Remodal_open i w) e) = data_remodal_id (elems w e)"
  by (simp_all add: Remodal_open_def)

lemma Remodal_open_inst_frame [simp]:
  "settings_ref (instances (Remodal_open i w) j) = settings_ref (instances w j)"
  "index (instances (Remodal_open i w) j) = index (instances w j)"
  "overlay (instances (Remodal_open i w) j) = overlay (instances w j)"
  "bg (instances (Remodal_open i w) j) = bg (instances w j)"
  "modal (instances (Remodal_open i w) j) = modal (instances w j)"
  "wrapper (instances (Remodal_open i w) j) = wrapper (instances w j)"
  by (simp_all add: Remodal_open_def)

lemma Remodal_open_surfaces [simp]:
  "surfaces (Remodal_open i w) j = surfaces w j"
  "the_settings (Remodal_open i w) j = the_settings w j"
  by (simp_all add: surfaces_def the_settings_def)

lemma close_clear_hash_frame [simp]:
  "browser (close_clear_hash i w) = browser w"
  "elems (close_clear_hash i w) = elems w"
  "next_elem (close_clear_hash i w) = next_elem w"
  "html_classList (close_clear_hash i w) = html_classList w"
  "body_padding_right (close_clear_hash i w) = body_padding_right w"
  "scrollbar_width (close_clear_hash i w) = scrollbar_width w"
  "bg_element (close_clear_hash i w) = bg_element w"
  "overlay_element (close_clear_hash i w) = overlay_element w"
  "settings_store (close_clear_hash i w) = settings_store w"
  "DEFAULTS (close_clear_hash i w) = DEFAULTS w"
  "instances (close_clear_hash i w) = instances w"
  "lookup (close_clear_hash i w) = lookup w"
  "closures (close_clear_hash i w) = closures w"
  "next_closure (close_clear_hash i w) = next_closure w"
  "current (close_clear_hash i w) = current w"
  "scrollTop (close_clear_hash i w) = scrollTop w"
  "event_log (close_clear_hash i w) = event_log w"
  by (simp_all add: close_clear_hash_def)

lemma close_clear_hash_surfaces [simp]:
  "surfaces (close_clear_hash i w) j = surfaces w j"
  "the_settings (close_clear_hash i w) j = the_settings w j"
  by (simp_all add: surfaces_def the_settings_def)

lemma Remodal_close_frame [simp]:
  "browser (Remodal_close i reason w) = browser w"
  "next_elem (Remodal_close i reason w) = next_elem w"
  "scrollbar_width (Remodal_close i reason w) = scrollbar_width w"
  "bg_element (Remodal_close i reason w) = bg_element w"
  "overlay_element (Remodal_close i reason w) = overlay_element w"
  "settings_store (Remodal_close i reason w) = settings_store w"
  "DEFAULTS (Remodal_close i reason w) = DEFAULTS w"
  "lookup (Remodal_close i reason w) = lookup w"
  "current (Remodal_close i reason w) = current w"
  "scrollTop (Remodal_close i reason w) = scrollTop w"
  by (simp_all add: Remodal_close_def)

lemma Remodal_close_elem_frame [simp]:
  "data_remodal_id (elems (Remodal_close i reason w) e) = data_remodal_id (elems w e)"
  by (simp_all add: Remodal_close_def)

lemma Remodal_close_inst_frame [simp]:
  "settings_ref (instances (Remodal_close i reason w) j) = settings_ref (instances w j)"
  "index (instances (Remodal_close i reason w) j) = index (instances w j)"
  "overlay (instances (Remodal_close i reason w) j) = overlay (instances w j)"
  "bg (instances (Remodal_close i reason w) j) = bg (instances w j)"
  "modal (instances (Remodal_close i reason w) j) = modal (instances w j)"
  "wrapper (instances (Remodal_close i reason w) j) = wrapper (instances w j)"
  by (simp_all add: Remodal_close_def)

lemma Remodal_close_surfaces [simp]:
  "surfaces (Remodal_close i reason w) j = surfaces w j"
  "the_settings (Remodal_close i reason w) j = the_settings w j"
  by (simp_all add: surfaces_def the_settings_def)

section \<open>The constructor\<close>

lemma createElement_frame [simp]:
  "settings_store (snd (createElement w)) = settings_store w"
  "DEFAULTS (snd (createElement w)) = DEFAULTS w"
  "lookup (snd (createElement w)) = lookup w"
  "instances (snd (createElement w)) = instances w"
  "current (snd (createElement w)) = current w"
  "bg_element (snd (createElement w)) = bg_element w"
  by (simp_all add: createElement_def)

lemma resolve_overlay_frame [simp]:
  "settings_store (snd (resolve_overlay w)) = settings_store w"
  "DEFAULTS (snd (resolve_overlay w)) = DEFAULTS w"
  "lookup (snd (resolve_overlay w)) = lookup w"
  "instances (snd (resolve_overlay w)) = instances w"
  "current (snd (resolve_overlay w)) = current w"
  "bg_element (snd (resolve_overlay w)) = bg_element w"
  by (simp_all add: resolve_overlay_def Let_def split_beta split: option.splits)

lemma Object_assign_fields [simp]:
  "fst (Object_assign target source w) = target"
  "DEFAULTS (snd (Object_assign target source w)) = DEFAULTS w"
  "lookup (snd (Object_assign target source w)) = lookup w"
  "instances (snd (Object_assign target source w)) = instances w"
  "current (snd (Object_assign target source w)) = current w"
  "settings_store (snd (Object_assign target source w)) =
     (case source of None \<Rightarrow> settings_store w
      | Some s \<Rightarrow> (settings_store w)(target := assign_settings (settings_store w target) s))"
  by (simp_all add: Object_assign_def split: option.splits)

lemma constructor_fields:
  "fst (Remodal_constructor m opts w) = length (lookup w)"
  "DEFAULTS (snd (Remodal_constructor m opts w)) = DEFAULTS w"
  "lookup (snd (Remodal_constructor m opts w)) = lookup w @ [Some (length (lookup w))]"
  "current (snd (Remodal_constructor m opts w)) = current w"
  "settings_store (snd (Remodal_constructor m opts w)) =
     (case opts of None \<Rightarrow> settings_store w
      | Some s \<Rightarrow> (settings_store w)(DEFAULTS w := assign_settings (settings_store w (DEFAULTS w)) s))"
  "settings_ref (instances (snd (Remodal_constructor m opts w)) (length (lookup w))) = DEFAULTS w"
  "state (instances (snd (Remodal_constructor m opts w)) j) =
     (if j = length (lookup w) then CLOSED else state (instances w j))"
  "j \<noteq> length (lookup w) \<Longrightarrow>
     instances (snd (Remodal_constructor m opts w)) j = instances w j"
  by (simp_all add: Remodal_constructor_def Let_def split_beta)

lemma Object_assign_more [simp]:
  "browser (snd (Object_assign t s w)) = browser w"
  "elems (snd (Object_assign t s w)) = elems w"
  "next_elem (snd (Object_assign t s w)) = next_elem w"
  "html_classList (snd (Object_assign t s w)) = html_classList w"
  "body_padding_right (snd (Object_assign t s w)) = body_padding_right w"
  "scrollbar_width (snd (Object_assign t s w)) = scrollbar_width w"
  "location_hash (snd (Object_assign t s w)) = location_hash w"
  "scrollY (snd (Object_assign t s w)) = scrollY w"
  "bg_element (snd (Object_assign t s w)) = bg_element w"
  "overlay_element (snd (Object_assign t s w)) = overlay_element w"
  "closures (snd (Object_assign t s w)) = closures w"
  "next_closure (snd (Object_assign t s w)) = next_closure w"
  "scrollTop (snd (Object_assign t s w)) = scrollTop w"
  "event_log (snd (Object_assign t s w)) = event_log w"
  by (simp_all add: Object_assign_def split: option.splits)

lemma createElement_more [simp]:
  "fst (createElement w) = next_elem w"
  "next_elem (snd (createElement w)) = Suc (next_elem w)"
  "overlay_element (snd (createElement w)) = overlay_element w"
  "browser (snd (createElement w)) = browser w"
  "closures (snd (createElement w)) = closures w"
  "next_closure (snd (createElement w)) = next_closure w"
  "event_log (snd (createElement w)) = event_log w"
  "scrollY (snd (createElement w)) = scrollY w"
  "scrollTop (snd (createElement w)) = scrollTop w"
  "location_hash (snd (createElement w)) = location_hash w"
  "html_classList (snd (createElement w)) = html_classList w"
  "body_padding_right (snd (createElement w)) = body_padding_right w"
  "scrollbar_width (snd (createElement w)) = scrollbar_width w"
  "e \<noteq> next_elem w \<Longrightarrow> elems (snd (createElement w)) e = elems w e"
  "namespaces (elems (snd (createElement w)) (next_elem w)) = Map.empty"
  "listeners (elems (snd (createElement w)) (next_elem w)) = []"
  by (simp_all add: createElement_def)

lemma quiet_createElement: "quiet w \<Longrightarrow> quiet (snd (createElement w))"
  by (simp add: quiet_def createElement_def)

lemma quiet_elems_only:
  assumes "\<And>e. namespaces (elems w' e) = namespaces (elems w e)"
    and "\<And>e. listeners (elems w' e) = listeners (elems w e)"
  shows "quiet w' = quiet w"
  by (simp add: quiet_def assms)

lemma quiet_simple [simp]:
  "quiet (addClasses el cs w) = quiet w"
  "quiet (removeClasses el cs w) = quiet w"
  "quiet (hide el w) = quiet w"
  "quiet (setStyle_display el v w) = quiet w"
  "quiet (screenLockToggle act w) = quiet w"
  "quiet (setState i st silent reason w) = quiet w"
  "quiet (w\<lparr>overlay_element := x\<rparr>) = quiet w"
  "quiet (w\<lparr>lookup := l\<rparr>) = quiet w"
  "quiet (w\<lparr>instances := ins\<rparr>) = quiet w"
  "quiet (w\<lparr>current := cur\<rparr>) = quiet w"
  "quiet (w\<lparr>event_log := lg\<rparr>) = quiet w"
  "quiet (w\<lparr>settings_store := st'\<rparr>) = quiet w"
  by (simp_all add: quiet_def)

lemma resolve_overlay_more [simp]:
  "fst (resolve_overlay w) = (case overlay_element w of Some found \<Rightarrow> found | None \<Rightarrow> next_elem w)"
  "next_elem (snd (resolve_overlay w)) =
     (case overlay_element w of Some found \<Rightarrow> next_elem w | None \<Rightarrow> Suc (next_elem w))"
  "overlay_element (snd (resolve_overlay w)) =
     Some (case overlay_element w of Some found \<Rightarrow> found | None \<Rightarrow> next_elem w)"
  "browser (snd (resolve_overlay w)) = browser w"
  "closures (snd (resolve_overlay w)) = closures w"
  "next_closure (snd (resolve_overlay w)) = next_closure w"
  "event_log (snd (resolve_overlay w)) = event_log w"
  "scrollY (snd (resolve_overlay w)) = scrollY w"
  "scrollTop (snd (resolve_overlay w)) = scrollTop w"
  "location_hash (snd (resolve_overlay w)) = location_hash w"
  "html_classList (snd (resolve_overlay w)) = html_classList w"
  "body_padding_right (snd (resolve_overlay w)) = body_padding_right w"
  "scrollbar_width (snd (resolve_overlay w)) = scrollbar_width w"
  by (simp_all add: resolve_overlay_def Let_def split_beta split: option.splits)

lemma quiet_resolve_overlay: "quiet w \<Longrightarrow> quiet (snd (resolve_overlay w))"
  by (simp add: resolve_overlay_def Let_def split_beta quiet_createElement split: option.splits)

lemma quiet_Object_assign: "quiet (snd (Object_assign t s w)) = quiet w"
  by (simp add: Object_assign_def split: option.splits)

lemma quiet_update_classList:
  "quiet (update_elem el (\<lambda>e. e\<lparr>classList := f e\<rparr>) w) = quiet w"
  by (rule quiet_elems_only) (simp_all add: update_elem_def)

lemma constructor_quiet:
  assumes "quiet w"
  shows "quiet (snd (Remodal_constructor m opts w))"
  using assms
  by (simp add: Remodal_constructor_def Let_def split_beta quiet_createElement
      quiet_resolve_overlay quiet_Object_assign quiet_update_classList)

lemma constructor_instance:
  "instances (snd (Remodal_constructor m opts w)) (length (lookup w)) =
     \<lparr>settings_ref = DEFAULTS w, index = length (lookup w), state = CLOSED,
      overlay = (case overlay_element w of Some found \<Rightarrow> found | None \<Rightarrow> next_elem w),
      bg = bg_element w, modal = m,
      wrapper = (case overlay_element w of Some found \<Rightarrow> next_elem w | None \<Rightarrow> Suc (next_elem w))\<rparr>"
  by (simp add: Remodal_constructor_def Let_def split_beta split: option.splits)

lemma constructor_more:
  "browser (snd (Remodal_constructor m opts w)) = browser w"
  "next_elem (snd (Remodal_constructor m opts w)) =
     (case overlay_element w of Some found \<Rightarrow> Suc (next_elem w) | None \<Rightarrow> Suc (Suc (next_elem w)))"
  "overlay_element (snd (Remodal_constructor m opts w)) =
     Some (case overlay_element w of Some found \<Rightarrow> found | None \<Rightarrow> next_elem w)"
  "bg_element (snd (Remodal_constructor m opts w)) = bg_element w"
  "closures (snd (Remodal_constructor m opts w)) = closures w"
  "next_closure (snd (Remodal_constructor m opts w)) = next_closure w"
  "event_log (snd (Remodal_constructor m opts w)) = event_log w"
  "scrollY (snd (Remodal_constructor m opts w)) = scrollY w"
  "scrollTop (snd (Remodal_constructor m opts w)) = scrollTop w"
  "location_hash (snd (Remodal_constructor m opts w)) = location_hash w"
  "html_classList (snd (Remodal_constructor m opts w)) = html_classList w"
  "body_padding_right (snd (Remodal_constructor m opts w)) = body_padding_right w"
  "scrollbar_width (snd (Remodal_constructor m opts w)) = scrollbar_width w"
  by (simp_all add: Remodal_constructor_def Let_def split_beta split: option.splits)

lemma constructor_data_id:
  assumes "e < next_elem w"
  shows "data_remodal_id (elems (snd (Remodal_constructor m opts w)) e) = data_remodal_id (elems w e)"
  using assms
  by (simp add: Remodal_constructor_def Let_def split_beta resolve_overlay_def createElement_def
      update_elem_def split: option.splits)

section \<open>Attaching and detaching\<close>

lemma detach_element_unfold:
  "detach_element x =
     fold removeSingleNSEvent
       [''animationstart.remodal'', ''webkitAnimationStart.remodal'',
        ''MSAnimationStart.remodal'', ''oAnimationStart.remodal'',
        ''animationend.remodal'', ''webkitAnimationEnd.remodal'',
        ''MSAnimationEnd.remodal'', ''oAnimationEnd.remodal''] x"
  by (simp only: detach_element_def all_names)

lemma attach_element_fresh:
  assumes "namespaces x = Map.empty" and "listeners x = []"
  shows "attach_element c x = x\<lparr>namespaces := barrier_names c, listeners := barrier_listeners c\<rparr>"
  using assms
  by (simp add: attach_element_def start_names end_names addSingleNSEvent_def event_types
      barrier_names_def barrier_listeners_def start_types_def end_types_def)

lemma attach_element_again:
  assumes "namespaces x = barrier_names c" and "listeners x = barrier_listeners c"
  shows "attach_element c x = x"
proof -
  have ns: "(barrier_names c)
      (''animationstart.remodal'' \<mapsto> HandleAnimationStart c,
      ''webkitAnimationStart.remodal'' \<mapsto> HandleAnimationStart c,
      ''MSAnimationStart.remodal'' \<mapsto> HandleAnimationStart c,
      ''oAnimationStart.remodal'' \<mapsto> HandleAnimationStart c,
      ''animationend.remodal'' \<mapsto> HandleAnimationEnd c,
      ''webkitAnimationEnd.remodal'' \<mapsto> HandleAnimationEnd c,
      ''MSAnimationEnd.remodal'' \<mapsto> HandleAnimationEnd c,
      ''oAnimationEnd.remodal'' \<mapsto> HandleAnimationEnd c) = barrier_names c"
    by (rule ext) (simp add: barrier_names_def)
  show ?thesis
    using assms
    by (simp add: attach_element_def start_names end_names addSingleNSEvent_def event_types ns
        barrier_listeners_def start_types_def end_types_def)
qed

lemma detach_element_armed:
  assumes "namespaces x = barrier_names c" and "listeners x = barrier_listeners c"
  shows "detach_element x = x\<lparr>namespaces := Map.empty, listeners := []\<rparr>"
proof -
  have ns: "namespaces (detach_element x) = Map.empty"
    using assms(1)
    by (intro ext) (simp add: detach_element_unfold removeSingleNSEvent_def barrier_names_def)
  have ls: "listeners (detach_element x) = []"
    using assms
    by (simp add: detach_element_unfold removeSingleNSEvent_def event_types
        barrier_names_def barrier_listeners_def start_types_def end_types_def)
  have rest: "classList (detach_element x) = classList x" "display (detach_element x) = display x"
    "data_remodal_id (detach_element x) = data_remodal_id x"
    by (simp_all add: detach_element_def)
  show ?thesis
    using ns ls rest by (intro element.equality) simp_all
qed

lemma detach_element_quiet:
  assumes "namespaces x = Map.empty" and "listeners x = []"
  shows "detach_element x = x"
proof -
  have ns: "namespaces (detach_element x) = Map.empty"
    using assms(1)
    by (intro ext) (simp add: detach_element_unfold removeSingleNSEvent_def)
  have ls: "listeners (detach_element x) = []"
    using assms
    by (simp add: detach_element_unfold removeSingleNSEvent_def)
  have rest: "classList (detach_element x) = classList x" "display (detach_element x) = display x"
    "data_remodal_id (detach_element x) = data_remodal_id x"
    by (simp_all add: detach_element_def)
  show ?thesis
    using ns ls rest assms by (intro element.equality) simp_all
qed

lemma addNS_pair:
  "addNSEventListener el ANIMATIONEND_EVENTS (HandleAnimationEnd c)
     (addNSEventListener el ANIMATIONSTART_EVENTS (HandleAnimationStart c) w)
   = update_elem el (attach_element c) w"
  by (simp add: addNSEventListener_def update_elem_def attach_element_def)

lemma removeNS_all:
  "removeNSEventListener el (ANIMATIONSTART_EVENTS @ '' '' @ ANIMATIONEND_EVENTS)
   = update_elem el detach_element"
proof -
  have "fold removeSingleNSEvent (split '' '' (ANIMATIONSTART_EVENTS @ '' '' @ ANIMATIONEND_EVENTS))
        = detach_element"
    by (rule ext) (simp only: detach_element_def)
  then show ?thesis
    by (intro ext) (simp only: removeNSEventListener_def)
qed

lemma fold_update_elem:
  "elems (fold (\<lambda>el. update_elem el f) els w) e = (f ^^ count_list els e) (elems w e)"
proof (induction els arbitrary: w)
  case Nil
  show ?case by simp
next
  case (Cons x xs)
  have "elems (fold (\<lambda>el. update_elem el f) (x # xs) w) e
        = (f ^^ count_list xs e) (elems (update_elem x f w) e)"
    by (simp only: fold_simps Cons.IH)
  also have "elems (update_elem x f w) e = (if e = x then f (elems w e) else elems w e)"
    by (simp add: update_elem_def)
  finally show ?case
    by (simp add: funpow_swap1)
qed

lemma funpow_fixed:
  assumes "f (f x) = f x" and "0 < n"
  shows "(f ^^ n) x = f x"
  using assms(2)
proof (induction n)
  case 0
  then show ?case by simp
next
  case (Suc n)
  show ?case
  proof (cases n)
    case 0
    then show ?thesis by simp
  next
    case (Suc k)
    with Suc.IH have "(f ^^ n) x = f x" by simp
    then show ?thesis by (simp add: assms(1))
  qed
qed

lemma attach_handlers_elems:
  "elems (attach_handlers c i w) e =
     (attach_element c ^^ count_list (surfaces w i) e) (elems w e)"
proof -
  have "attach_handlers c i w = fold (\<lambda>el. update_elem el (attach_element c)) (surfaces w i) w"
    by (simp only: attach_handlers_def addNS_pair)
  then show ?thesis by (simp only: fold_update_elem)
qed

lemma detach_handlers_elems:
  "elems (detach_handlers i w) e = (detach_element ^^ count_list (surfaces w i) e) (elems w e)"
proof -
  have "detach_handlers i w = fold (\<lambda>el. update_elem el detach_element) (surfaces w i) w"
    by (simp only: detach_handlers_def removeNS_all)
  then show ?thesis by (simp only: fold_update_elem)
qed

lemma attach_handlers_quiet:
  assumes "quiet w"
  shows "armed c i (attach_handlers c i w)"
proof -
  have "namespaces (elems (attach_handlers c i w) e) =
          (if e \<in> set (surfaces w i) then barrier_names c else Map.empty)
        \<and> listeners (elems (attach_handlers c i w) e) =
          (if e \<in> set (surfaces w i) then barrier_listeners c else [])" for e
  proof (cases "e \<in> set (surfaces w i)")
    case True
    have fresh: "namespaces (elems w e) = Map.empty" "listeners (elems w e) = []"
      using assms by (simp_all add: quiet_def)
    have once: "attach_element c (elems w e)
                = (elems w e)\<lparr>namespaces := barrier_names c, listeners := barrier_listeners c\<rparr>"
      by (rule attach_element_fresh [OF fresh])
    have twice: "attach_element c (attach_element c (elems w e)) = attach_element c (elems w e)"
      by (simp add: once attach_element_again)
    have "0 < count_list (surfaces w i) e"
      using True by (metis count_list_0_iff gr0I)
    then have "(attach_element c ^^ count_list (surfaces w i) e) (elems w e)
               = attach_element c (elems w e)"
      by (rule funpow_fixed [OF twice])
    then show ?thesis
      using True by (simp add: attach_handlers_elems once)
  next
    case False
    then have "count_list (surfaces w i) e = 0"
      by (simp add: count_list_0_iff)
    then show ?thesis
      using False assms by (simp add: attach_handlers_elems quiet_def)
  qed
  then show ?thesis
    by (simp add: armed_def)
qed

lemma detach_handlers_armed:
  assumes "armed c i w"
  shows "quiet (detach_handlers i w)"
proof -
  have "namespaces (elems (detach_handlers i w) e) = Map.empty
        \<and> listeners (elems (detach_handlers i w) e) = []" for e
  proof (cases "e \<in> set (surfaces w i)")
    case True
    have was: "namespaces (elems w e) = barrier_names c" "listeners (elems w e) = barrier_listeners c"
      using assms True by (simp_all add: armed_def)
    have once: "detach_element (elems w e) = (elems w e)\<lparr>namespaces := Map.empty, listeners := []\<rparr>"
      by (rule detach_element_armed [OF was])
    have twice: "detach_element (detach_element (elems w e)) = detach_element (elems w e)"
      by (simp add: once detach_element_quiet)
    have "0 < count_list (surfaces w i) e"
      using True by (metis count_list_0_iff gr0I)
    then have "(detach_element ^^ count_list (surfaces w i) e) (elems w e) = detach_element (elems w e)"
      by (rule funpow_fixed [OF twice])
    then show ?thesis
      by (simp add: detach_handlers_elems once)
  next
    case False
    then have "count_list (surfaces w i) e = 0"
      by (simp add: count_list_0_iff)
    then show ?thesis
      using False assms by (simp add: detach_handlers_elems armed_def)
  qed
  then show ?thesis
    by (simp add: quiet_def)
qed

lemma detach_handlers_quiet:
  assumes "quiet w"
  shows "detach_handlers i w = w"
proof -
  have "elems (detach_handlers i w) e = elems w e" for e
  proof -
    have q: "namespaces (elems w e) = Map.empty" "listeners (elems w e) = []"
      using assms by (simp_all add: quiet_def)
    have "(detach_element ^^ n) (elems w e) = elems w e" for n
      by (induction n) (simp_all add: detach_element_quiet [OF q])
    then show ?thesis by (simp add: detach_handlers_elems)
  qed
  then have "elems (detach_handlers i w) = elems w" by (rule ext)
  then show ?thesis
    by (intro world.equality) simp_all
qed

section \<open>Dispatching a signal\<close>

lemma invoke_elsewhere:
  "target \<noteq> this \<Longrightarrow> invoke h this target w = w"
  by (cases h) (simp_all add: invoke_def)

lemma fold_identity:
  assumes "\<And>x s. x \<in> set xs \<Longrightarrow> g x s = s"
  shows "fold g xs s = s"
  using assms by (induction xs arbitrary: s) simp_all

lemma dispatch_at_elsewhere:
  "el \<noteq> target \<Longrightarrow> dispatch_at typ target el w = w"
  unfolding dispatch_at_def
  by (rule fold_identity) (simp add: invoke_elsewhere)

lemma dispatchEvent_at_target:
  "dispatchEvent sg w = dispatch_at (signal_type sg) (signal_target sg) (signal_target sg) w"
proof -
  have "fold (dispatch_at (signal_type sg) (signal_target sg))
          (filter (\<lambda>el. el \<noteq> signal_target sg) (signal_ancestors sg)) s = s" for s :: "'a world"
    by (rule fold_identity) (simp add: dispatch_at_elsewhere)
  then show ?thesis
    by (simp add: dispatchEvent_def)
qed

lemma dispatch_at_no_listeners:
  "listeners (elems w el) = [] \<Longrightarrow> dispatch_at typ target el w = w"
  by (simp add: dispatch_at_def)

lemma dispatchEvent_quiet:
  "quiet w \<Longrightarrow> dispatchEvent sg w = w"
  by (simp add: dispatchEvent_at_target dispatch_at_no_listeners quiet_def)

lemma barrier_listeners_of_type:
  "map snd (filter (\<lambda>l. fst l = typ) (barrier_listeners c)) =
     (if typ \<in> set start_types then [HandleAnimationStart c]
      else if typ \<in> set end_types then [HandleAnimationEnd c] else [])"
  by (auto simp: barrier_listeners_def start_types_def end_types_def)

lemma barrier_listeners_member:
  "typ \<in> set start_types \<Longrightarrow> (typ, HandleAnimationStart c) \<in> set (barrier_listeners c)"
  "typ \<in> set end_types \<Longrightarrow> (typ, HandleAnimationEnd c) \<in> set (barrier_listeners c)"
  by (auto simp: barrier_listeners_def start_types_def end_types_def)

text \<open>On a page where the only handlers are those of one barrier, a signal is one call
  of a handler or nothing.\<close>

lemma dispatchEvent_armed:
  assumes "armed c i w"
  shows "dispatchEvent sg w =
     (if qualifying_start w i sg then invoke (HandleAnimationStart c) (signal_target sg) (signal_target sg) w
      else if qualifying_end w i sg then invoke (HandleAnimationEnd c) (signal_target sg) (signal_target sg) w
      else w)"
proof (cases "signal_target sg \<in> set (surfaces w i)")
  case False
  then have "listeners (elems w (signal_target sg)) = []"
    using assms by (simp add: armed_def)
  then show ?thesis
    using False
    by (simp add: dispatchEvent_at_target dispatch_at_no_listeners qualifying_start_def qualifying_end_def)
next
  case True
  then have ls: "listeners (elems w (signal_target sg)) = barrier_listeners c"
    using assms by (simp add: armed_def)
  show ?thesis
    using True
    by (simp add: dispatchEvent_at_target dispatch_at_def ls barrier_listeners_of_type
        barrier_listeners_member qualifying_start_def qualifying_end_def)
qed

section \<open>A run of the barrier\<close>

lemma set_count_fields [simp]:
  "elems (set_count c n w) = elems w"
  "instances (set_count c n w) = instances w"
  "event_log (set_count c n w) = event_log w"
  "browser (set_count c n w) = browser w"
  "settings_store (set_count c n w) = settings_store w"
  "surfaces (set_count c n w) j = surfaces w j"
  "the_settings (set_count c n w) j = the_settings w j"
  "runningAnimationsCount (closures (set_count c n w) c) = n"
  "closure_instance (closures (set_count c n w) c') = closure_instance (closures w c')"
  "doAfterAnimation (closures (set_count c n w) c') = doAfterAnimation (closures w c')"
  "set_count c n (set_count c m w) = set_count c n w"
  by (simp_all add: set_count_def surfaces_def the_settings_def)

lemma set_count_same:
  assumes "runningAnimationsCount (closures w c) = n"
  shows "set_count c n w = w"
proof -
  have "(closures w c)\<lparr>runningAnimationsCount := n\<rparr> = closures w c"
    using assms by (cases "closures w c") simp
  then show ?thesis
    by (simp add: set_count_def)
qed

lemma armed_set_count [simp]: "armed c i (set_count c' n w) = armed c i w"
  by (simp add: armed_def)

lemma invoke_start:
  "invoke (HandleAnimationStart c) t t w = set_count c (runningAnimationsCount (closures w c) + 1) w"
  by (simp add: invoke_def set_count_def)

lemma invoke_end:
  "invoke (HandleAnimationEnd c) t t w =
     (if runningAnimationsCount (closures w c) - 1 = 0
      then run_action (doAfterAnimation (closures w c)) (closure_instance (closures w c))
             (detach_handlers (closure_instance (closures w c)) (set_count c 0 w))
      else set_count c (runningAnimationsCount (closures w c) - 1) w)"
  by (simp add: invoke_def set_count_def Let_def)

lemma quiet_run_action [simp]: "quiet (run_action a i w) = quiet w"
  by (simp add: quiet_def)

lemma armed_run_action [simp]: "armed c j (run_action a i w) = armed c j w"
  by (simp add: armed_def)

lemma qualifying_disjoint:
  "qualifying_start w i sg \<Longrightarrow> \<not> qualifying_end w i sg"
  by (auto simp: qualifying_start_def qualifying_end_def start_types_def end_types_def)

lemma net_count_Cons:
  "net_count w i (sg # sgs) =
     (if qualifying_start w i sg then 1 else if qualifying_end w i sg then - 1 else 0)
     + net_count w i sgs"
  by (auto simp: net_count_def dest: qualifying_disjoint)

lemma net_count_Nil [simp]: "net_count w i [] = 0"
  by (simp add: net_count_def)

text \<open>The same with the counter starting at \<open>k\<close>.\<close>

lemma zero_from_Cons:
  "(\<exists>m < length (sg # sgs). qualifying_end w i ((sg # sgs) ! m)
        \<and> k + net_count w i (take (Suc m) (sg # sgs)) = 0)
   = ((qualifying_end w i sg \<and> k - 1 = 0)
      \<or> (\<exists>m < length sgs. qualifying_end w i (sgs ! m)
            \<and> (k + (if qualifying_start w i sg then 1 else if qualifying_end w i sg then - 1 else 0))
                + net_count w i (take (Suc m) sgs) = 0))"
  (is "?L = ?R")
proof
  assume ?L
  then obtain m where m: "m < length (sg # sgs)" "qualifying_end w i ((sg # sgs) ! m)"
    "k + net_count w i (take (Suc m) (sg # sgs)) = 0" by blast
  show ?R
  proof (cases m)
    case 0
    with m have e: "qualifying_end w i sg" by simp
    then have "\<not> qualifying_start w i sg" using qualifying_disjoint by blast
    with m 0 e show ?thesis
      by (simp add: net_count_Cons)
  next
    case (Suc n)
    with m have "n < length sgs" "qualifying_end w i (sgs ! n)"
      "(k + (if qualifying_start w i sg then 1 else if qualifying_end w i sg then - 1 else 0))
          + net_count w i (take (Suc n) sgs) = 0"
      by (simp_all add: net_count_Cons)
    then show ?thesis by blast
  qed
next
  assume ?R
  then show ?L
  proof
    assume a: "qualifying_end w i sg \<and> k - 1 = 0"
    then have "\<not> qualifying_start w i sg" using qualifying_disjoint by blast
    with a have "0 < length (sg # sgs) \<and> qualifying_end w i ((sg # sgs) ! 0)
        \<and> k + net_count w i (take (Suc 0) (sg # sgs)) = 0"
      by (simp add: net_count_Cons)
    then show ?L by blast
  next
    assume "\<exists>m < length sgs. qualifying_end w i (sgs ! m)
            \<and> (k + (if qualifying_start w i sg then 1 else if qualifying_end w i sg then - 1 else 0))
                + net_count w i (take (Suc m) sgs) = 0"
    then obtain n where n: "n < length sgs" "qualifying_end w i (sgs ! n)"
      "(k + (if qualifying_start w i sg then 1 else if qualifying_end w i sg then - 1 else 0))
          + net_count w i (take (Suc n) sgs) = 0" by blast
    then have "Suc n < length (sg # sgs) \<and> qualifying_end w i ((sg # sgs) ! Suc n)
        \<and> k + net_count w i (take (Suc (Suc n)) (sg # sgs)) = 0"
      by (simp add: net_count_Cons)
    then show ?L by blast
  qed
qed

lemma qualifying_cong:
  assumes "surfaces w' i = surfaces w i"
  shows "qualifying_start w' i = qualifying_start w i"
    and "qualifying_end w' i = qualifying_end w i"
    and "net_count w' i = net_count w i"
proof -
  show s: "qualifying_start w' i = qualifying_start w i"
    by (rule ext) (simp add: qualifying_start_def assms)
  show e: "qualifying_end w' i = qualifying_end w i"
    by (rule ext) (simp add: qualifying_end_def assms)
  show "net_count w' i = net_count w i"
    by (rule ext) (simp add: net_count_def s e)
qed

lemma fold_dispatch_quiet:
  "quiet w \<Longrightarrow> fold dispatchEvent sgs w = w"
  by (induction sgs) (simp_all add: dispatchEvent_quiet)

lemma barrier_run:
  assumes "armed c i w"
    and "closure_instance (closures w c) = i"
    and "doAfterAnimation (closures w c) = a"
    and "runningAnimationsCount (closures w c) = k"
  shows "fold dispatchEvent sgs w =
     (if \<exists>m < length sgs. qualifying_end w i (sgs ! m) \<and> k + net_count w i (take (Suc m) sgs) = 0
      then run_action a i (detach_handlers i (set_count c 0 w))
      else set_count c (k + net_count w i sgs) w)"
  using assms
proof (induction sgs arbitrary: w k)
  case Nil
  then show ?case by (simp add: set_count_same)
next
  case (Cons sg sgs)
  let ?d = "if qualifying_start w i sg then 1 else if qualifying_end w i sg then - 1 else (0::int)"
  show ?case
  proof (cases "qualifying_end w i sg \<and> k - 1 = 0")
    case True
    then have ns: "\<not> qualifying_start w i sg" using qualifying_disjoint by blast
    have step: "dispatchEvent sg w = run_action a i (detach_handlers i (set_count c 0 w))"
      using True ns Cons.prems by (simp add: dispatchEvent_armed invoke_end)
    have "quiet (detach_handlers i (set_count c 0 w))"
      by (rule detach_handlers_armed [of c]) (simp add: Cons.prems)
    then have "quiet (dispatchEvent sg w)" by (simp add: step)
    then have "fold dispatchEvent (sg # sgs) w = dispatchEvent sg w"
      by (simp add: fold_dispatch_quiet)
    then show ?thesis
      using True by (simp only: zero_from_Cons step) simp
  next
    case False
    have step: "dispatchEvent sg w = set_count c (k + ?d) w"
      using False Cons.prems
      by (auto simp: dispatchEvent_armed invoke_start invoke_end set_count_same
          dest: qualifying_disjoint)
    have cong: "qualifying_end (set_count c (k + ?d) w) i = qualifying_end w i"
      "net_count (set_count c (k + ?d) w) i = net_count w i"
      using qualifying_cong [of "set_count c (k + ?d) w" i w] by simp_all
    have ih0: "fold dispatchEvent sgs (set_count c (k + ?d) w) =
       (if \<exists>m < length sgs. qualifying_end (set_count c (k + ?d) w) i (sgs ! m)
              \<and> (k + ?d) + net_count (set_count c (k + ?d) w) i (take (Suc m) sgs) = 0
        then run_action a i (detach_handlers i (set_count c 0 (set_count c (k + ?d) w)))
        else set_count c ((k + ?d) + net_count (set_count c (k + ?d) w) i sgs)
               (set_count c (k + ?d) w))"
      by (rule Cons.IH) (simp_all add: Cons.prems)
    have ih: "fold dispatchEvent sgs (set_count c (k + ?d) w) =
       (if \<exists>m < length sgs. qualifying_end w i (sgs ! m)
              \<and> (k + ?d) + net_count w i (take (Suc m) sgs) = 0
        then run_action a i (detach_handlers i (set_count c 0 w))
        else set_count c ((k + ?d) + net_count w i sgs) w)"
      using ih0 by (simp only: cong set_count_fields)
    have h1: "fold dispatchEvent (sg # sgs) w = fold dispatchEvent sgs (set_count c (k + ?d) w)"
      by (simp add: step)
    have eqP: "(\<exists>m < length (sg # sgs). qualifying_end w i ((sg # sgs) ! m)
                  \<and> k + net_count w i (take (Suc m) (sg # sgs)) = 0)
             = (\<exists>m < length sgs. qualifying_end w i (sgs ! m)
                  \<and> (k + ?d) + net_count w i (take (Suc m) sgs) = 0)"
      unfolding zero_from_Cons using False by blast
    have eqN: "k + net_count w i (sg # sgs) = (k + ?d) + net_count w i sgs"
      unfolding net_count_Cons by (rule add.assoc [symmetric])
    show ?thesis
      unfolding h1 ih eqP eqN by (rule refl)
  qed
qed

section \<open>Entering the barrier\<close>

lemma run_action_event_log:
  "event_log (run_action a i w) = event_log w @ [action_event a i w]"
  by (cases a) (simp_all add: run_action_def action_event_def Let_def)

lemma run_action_state:
  "state (instances (run_action a i w) j) = (if j = i then action_state a else state (instances w j))"
  by (cases a) (simp_all add: run_action_def action_state_def Let_def)

lemma action_event_cong:
  "modal (instances w' i) = modal (instances w i) \<Longrightarrow> action_event a i w' = action_event a i w"
  by (cases a) (simp_all add: action_event_def)

lemma quiet_new_closure [simp]: "quiet (new_closure a i w) = quiet w"
  by (simp add: quiet_def)

lemma new_closure_closure:
  "closures (new_closure a i w) (next_closure w) =
     \<lparr>runningAnimationsCount = 0, closure_instance = i, doAfterAnimation = a\<rparr>"
  by (simp add: new_closure_def)

lemma barrier_entry_armed:
  assumes "quiet w"
  shows "armed (next_closure w) i (barrier_entry b a i w)"
proof -
  have "armed (next_closure w) i (attach_handlers (next_closure w) i (new_closure a i w))"
    by (rule attach_handlers_quiet) (simp add: assms)
  then show ?thesis
    by (simp add: barrier_entry_def)
qed

lemma barrier_entry_closure:
  "closures (barrier_entry b a i w) (next_closure w) =
     \<lparr>runningAnimationsCount = 0, closure_instance = i, doAfterAnimation = a\<rparr>"
  by (simp add: barrier_entry_def new_closure_closure)

lemma barrier_entry_event_log:
  "event_log (barrier_entry b a i w) = event_log w @ [action_event b i w]"
proof -
  have "action_event b i (attach_handlers (next_closure w) i (new_closure a i w)) = action_event b i w"
    by (rule action_event_cong) simp
  then show ?thesis
    by (simp add: barrier_entry_def run_action_event_log)
qed

lemma barrier_entry_state:
  "state (instances (barrier_entry b a i w) j) = (if j = i then action_state b else state (instances w j))"
  by (simp add: barrier_entry_def run_action_state)

lemma syncWithAnimation_pending:
  "\<not> no_animation (barrier_entry b a i w) i \<Longrightarrow> syncWithAnimation b a i w = barrier_entry b a i w"
  by (simp add: syncWithAnimation_def)

lemma syncWithAnimation_immediate:
  "no_animation (barrier_entry b a i w) i \<Longrightarrow>
   syncWithAnimation b a i w = run_action a i (detach_handlers i (barrier_entry b a i w))"
  by (simp add: syncWithAnimation_def)

lemma syncWithAnimation_event_log:
  "event_log (syncWithAnimation b a i w) =
     event_log w @ [action_event b i w] @
     (if no_animation (barrier_entry b a i w) i then [action_event a i w] else [])"
proof -
  have "action_event a i (detach_handlers i (barrier_entry b a i w)) = action_event a i w"
    by (rule action_event_cong) simp
  then show ?thesis
    by (simp add: syncWithAnimation_def run_action_event_log barrier_entry_event_log)
qed

lemma syncWithAnimation_state:
  "state (instances (syncWithAnimation b a i w) j) =
     (if j = i then (if no_animation (barrier_entry b a i w) i then action_state a else action_state b)
      else state (instances w j))"
  by (simp add: syncWithAnimation_def run_action_state barrier_entry_state)

lemma syncWithAnimation_quiet:
  assumes "quiet w" and "no_animation (barrier_entry b a i w) i"
  shows "quiet (syncWithAnimation b a i w)"
proof -
  have "quiet (detach_handlers i (barrier_entry b a i w))"
    by (rule detach_handlers_armed [OF barrier_entry_armed [OF assms(1)]])
  then show ?thesis
    by (simp add: syncWithAnimation_immediate [OF assms(2)])
qed

text \<open>The signals that arrive while a barrier is pending.\<close>

lemma pending_barrier_run:
  assumes "quiet w" and "\<not> no_animation (barrier_entry b a i w) i"
  defines "w1 \<equiv> syncWithAnimation b a i w"
  shows "fold dispatchEvent sgs w1 =
     (if zero_reached w1 i sgs
      then run_action a i (detach_handlers i w1)
      else set_count (next_closure w) (net_count w1 i sgs) w1)"
proof -
  have w1: "w1 = barrier_entry b a i w"
    by (simp add: w1_def syncWithAnimation_pending assms(2))
  have z: "set_count (next_closure w) 0 w1 = w1"
    by (rule set_count_same) (simp add: w1 barrier_entry_closure)
  have "fold dispatchEvent sgs w1 =
     (if \<exists>m < length sgs. qualifying_end w1 i (sgs ! m) \<and> 0 + net_count w1 i (take (Suc m) sgs) = 0
      then run_action a i (detach_handlers i (set_count (next_closure w) 0 w1))
      else set_count (next_closure w) (0 + net_count w1 i sgs) w1)"
    by (rule barrier_run) (simp_all add: w1 barrier_entry_armed assms(1) barrier_entry_closure)
  then show ?thesis
    by (simp only: z zero_reached_def add_0)
qed

section \<open>Classes\<close>

lemma fold_classList_add:
  "set (fold classList_add ts cl) = set cl \<union> set ts"
  by (induction ts arbitrary: cl) (auto simp: classList_add_def)

lemma fold_classList_remove:
  "set (fold classList_remove ts cl) = set cl - set ts"
  by (induction ts arbitrary: cl) (auto simp: classList_remove_def)

lemma set_add_tokens: "set (add_tokens cs cl) = set cl \<union> set (class_tokens cs)"
  by (simp add: add_tokens_def fold_classList_add)

lemma set_remove_tokens: "set (remove_tokens cs cl) = set cl - set (class_tokens cs)"
  by (simp add: remove_tokens_def fold_classList_remove)

lemma addClasses_classes:
  "set (classList (elems (addClasses el cs w) e)) =
     (if e = el then set (classList (elems w e)) \<union> set (class_tokens cs)
      else set (classList (elems w e)))"
  by (simp add: addClasses_def update_elem_def set_add_tokens)

lemma removeClasses_classes:
  "set (classList (elems (removeClasses el cs w) e)) =
     (if e = el then set (classList (elems w e)) - set (class_tokens cs)
      else set (classList (elems w e)))"
  by (simp add: removeClasses_def update_elem_def set_remove_tokens)

lemma setState_classes:
  "set (classList (elems (setState i st silent reason w) e)) =
     (if e \<in> set (surfaces w i)
      then (set (classList (elems w e)) - state_class_set) \<union> {namespacify [''is'', state_name st]}
      else set (classList (elems w e)))"
proof -
  let ?new = "namespacify [''is'', state_name st]"
  let ?all = "join '' '' (map (\<lambda>thisState. namespacify [''is'', state_name thisState])
                                   [CLOSING, CLOSED, OPENING, OPENED])"
  let ?g = "\<lambda>el (w' :: 'a world). addClasses el ?new (removeClasses el ?all w')"
  have all: "set (class_tokens ?all) = state_class_set"
    by (simp only: all_states_tokens state_class_set_def) simp
  have new: "set (class_tokens ?new) = {?new}"
    by (simp only: state_class_tokens) simp
  have in_all: "?new \<in> state_class_set"
    unfolding state_classes state_class_set_def by (cases st) simp_all
  have step: "set (classList (elems (?g el v) e)) =
      (if e = el then (set (classList (elems v e)) - state_class_set) \<union> {?new}
       else set (classList (elems v e)))" for el e and v :: "'a world"
    by (simp only: addClasses_classes removeClasses_classes all new) simp
  have fold_g: "set (classList (elems (fold ?g els v) e)) =
      (if e \<in> set els then (set (classList (elems v e)) - state_class_set) \<union> {?new}
       else set (classList (elems v e)))" for els e and v :: "'a world"
  proof (induction els arbitrary: v)
    case Nil
    show ?case by simp
  next
    case (Cons x xs)
    have "set (classList (elems (fold ?g (x # xs) v) e)) =
      (if e \<in> set xs then (set (classList (elems (?g x v) e)) - state_class_set) \<union> {?new}
       else set (classList (elems (?g x v) e)))"
      by (simp only: fold_simps Cons.IH)
    then show ?case
      unfolding step using in_all by auto
  qed
  have "elems (setState i st silent reason w) = elems (fold ?g (surfaces w i) w)"
    by (simp add: setState_def Let_def)
  then show ?thesis
    by (simp only: fold_g)
qed

section \<open>Opening and closing\<close>

lemma halt_closed: "state (instances w i) = CLOSED \<Longrightarrow> halt i w = w"
  by (simp add: halt_def)

lemma halt_state:
  "state (instances (halt i w) j) = (if j = i then CLOSED else state (instances w j))"
  by (simp add: halt_def Let_def)

lemma open_halt_current_state:
  "state (instances (open_halt_current i w) j) =
     (if current w = Some j \<and> j \<noteq> i then CLOSED else state (instances w j))"
  by (auto simp: open_halt_current_def halt_state split: option.splits)

lemma open_statements_state:
  "state (instances (run (open_statements i) w) j) =
     (if current w = Some j \<and> j \<noteq> i then CLOSED else state (instances w j))"
  by (simp add: run_def open_statements_def open_halt_current_state)

lemma open_statements_current: "current (run (open_statements i) w) = Some i"
  by (simp add: run_def open_statements_def)

lemma open_statements_event_log:
  "event_log (run (open_statements i) w) =
     event_log w @ [ElementScrollTo (wrapper (instances w i)) 0 0, Focus (modal (instances w i))]"
  by (simp add: run_def open_statements_def)

lemma open_statements_hash:
  "location_hash (run (open_statements i) w) = location_hash (open_record_scroll i w)"
  "scrollTop (run (open_statements i) w) = scrollTop (open_record_scroll i w)"
  by (simp_all add: run_def open_statements_def)

lemma Remodal_open_event_log:
  assumes "state (instances w i) \<noteq> OPENING" and "state (instances w i) \<noteq> CLOSING"
  shows "event_log (Remodal_open i w) =
     event_log w @
     [ElementScrollTo (wrapper (instances w i)) 0 0, Focus (modal (instances w i)),
      Event (modal (instances w i)) ''opening'' None] @
     (if no_animation (barrier_entry OpenBefore OpenAfter i (run (open_statements i) w)) i
      then [Event (modal (instances w i)) ''opened'' None] else [])"
  using assms
  by (simp add: Remodal_open_def syncWithAnimation_event_log open_statements_event_log
      action_event_def)

lemma Remodal_close_event_log:
  assumes "state (instances w i) = OPENED"
  shows "event_log (Remodal_close i reason w) =
     event_log w @ [Event (modal (instances w i)) ''closing'' reason] @
     (if no_animation (barrier_entry (CloseBefore reason) (CloseAfter reason) i (close_clear_hash i w)) i
      then [Event (modal (instances w i)) ''closed'' reason] else [])"
  using assms
  by (simp add: Remodal_close_def syncWithAnimation_event_log action_event_def)

lemma Remodal_close_state:
  assumes "state (instances w i) = OPENED"
  shows "state (instances (Remodal_close i reason w) j) =
     (if j = i
      then (if no_animation (barrier_entry (CloseBefore reason) (CloseAfter reason) i
                 (close_clear_hash i w)) i then CLOSED else CLOSING)
      else state (instances w j))"
  using assms
  by (simp add: Remodal_close_def syncWithAnimation_state action_state_def)

lemma Remodal_open_state:
  assumes "state (instances w i) \<noteq> OPENING" and "state (instances w i) \<noteq> CLOSING"
  shows "state (instances (Remodal_open i w) j) =
     (if j = i
      then (if no_animation (barrier_entry OpenBefore OpenAfter i (run (open_statements i) w)) i
            then OPENED else OPENING)
      else if current w = Some j then CLOSED else state (instances w j))"
  using assms
  by (simp add: Remodal_open_def syncWithAnimation_state action_state_def open_statements_state)

lemma quiet_close_clear_hash [simp]: "quiet (close_clear_hash i w) = quiet w"
  by (simp add: quiet_def close_clear_hash_def)

lemma quiet_halt: "quiet w \<Longrightarrow> quiet (halt i w)"
  by (simp add: halt_def Let_def detach_handlers_quiet)

lemma halt_armed:
  "armed c i w \<Longrightarrow> state (instances w i) \<noteq> CLOSED \<Longrightarrow> quiet (halt i w)"
  by (simp add: halt_def Let_def detach_handlers_armed)

lemma quiet_fields [simp]:
  "quiet (w\<lparr>scrollTop := a, location_hash := b\<rparr>) = quiet w"
  "quiet (w\<lparr>location_hash := b, scrollY := y\<rparr>) = quiet w"
  by (simp_all add: quiet_def)

lemma quiet_open_statements: "quiet w \<Longrightarrow> quiet (run (open_statements i) w)"
  by (simp add: run_def open_statements_def open_record_scroll_def open_halt_current_def
      quiet_halt split: option.splits)

lemma pending_event_log:
  assumes "quiet w" and "\<not> no_animation (barrier_entry b a i w) i"
  shows "event_log (fold dispatchEvent sgs (syncWithAnimation b a i w)) =
     event_log w @ [action_event b i w] @
     (if zero_reached (syncWithAnimation b a i w) i sgs then [action_event a i w] else [])"
proof -
  let ?w1 = "syncWithAnimation b a i w"
  have ev: "action_event a i (detach_handlers i ?w1) = action_event a i w"
    by (rule action_event_cong) simp
  show ?thesis
    by (simp add: pending_barrier_run [OF assms] run_action_event_log ev
        syncWithAnimation_event_log assms(2))
qed

lemma immediate_event_log:
  assumes "quiet w" and "no_animation (barrier_entry b a i w) i"
  shows "event_log (fold dispatchEvent sgs (syncWithAnimation b a i w)) =
     event_log w @ [action_event b i w, action_event a i w]"
  by (simp add: fold_dispatch_quiet [OF syncWithAnimation_quiet [OF assms]]
      syncWithAnimation_event_log assms(2))

lemma Remodal_open_hash:
  assumes "state (instances w i) \<noteq> OPENING" and "state (instances w i) \<noteq> CLOSING"
  shows "location_hash (Remodal_open i w) = location_hash (open_record_scroll i w)"
    and "scrollTop (Remodal_open i w) = scrollTop (open_record_scroll i w)"
  using assms by (simp_all add: Remodal_open_def open_statements_hash)

lemma Remodal_close_hash:
  assumes "state (instances w i) = OPENED"
  shows "location_hash (Remodal_close i reason w) = location_hash (close_clear_hash i w)"
    and "scrollY (Remodal_close i reason w) = scrollY (close_clear_hash i w)"
  using assms by (simp_all add: Remodal_close_def)

lemma screenLockToggle_unmarked:
  "\<not> hasClass (html_classList w) (namespacify [''is-locked'']) \<Longrightarrow> screenLockToggle act w = w"
  by (simp add: screenLockToggle_def)

lemma open_statements_html_unmarked:
  assumes "\<not> hasClass (html_classList w) (namespacify [''is-locked''])"
  shows "html_classList (run (open_statements i) w) = html_classList w"
    and "body_padding_right (run (open_statements i) w) = body_padding_right w"
proof -
  have h: "html_classList (open_halt_current i w) = html_classList w
           \<and> body_padding_right (open_halt_current i w) = body_padding_right w"
    using assms
    by (simp add: open_halt_current_def halt_def Let_def screenLockToggle_unmarked
        split: option.splits)
  have r: "run (open_statements i) w =
       (\<lambda>w. w\<lparr>event_log := event_log w @ [Focus (modal (instances w i))]\<rparr>)
       ((\<lambda>w. w\<lparr>event_log := event_log w @ [ElementScrollTo (wrapper (instances w i)) 0 0]\<rparr>)
       (setStyle_display (wrapper (instances w i)) ''block''
       (setStyle_display (overlay (instances w i)) ''block''
       ((\<lambda>w. addClasses (overlay (instances w i)) (modifier (the_settings w i)) w)
       ((\<lambda>w. addClasses (bg (instances w i)) (modifier (the_settings w i)) w)
       (screenLockToggle ''lock''
       ((open_halt_current i (open_record_scroll i w))\<lparr>current := Some i\<rparr>)))))))"
    by (simp add: run_def open_statements_def)
  have u: "\<not> hasClass (html_classList ((open_halt_current i (open_record_scroll i w))\<lparr>current := Some i\<rparr>))
             (namespacify [''is-locked''])"
    using assms
    by (simp add: open_halt_current_def halt_def Let_def screenLockToggle_unmarked
        split: option.splits)
  show "html_classList (run (open_statements i) w) = html_classList w"
    unfolding r using assms
    by (simp add: screenLockToggle_unmarked [OF u] open_halt_current_def halt_def Let_def
        screenLockToggle_unmarked split: option.splits)
  show "body_padding_right (run (open_statements i) w) = body_padding_right w"
    unfolding r using assms
    by (simp add: screenLockToggle_unmarked [OF u] open_halt_current_def halt_def Let_def
        screenLockToggle_unmarked split: option.splits)
qed

lemma run_action_open_html [simp]:
  "html_classList (run_action OpenBefore i w) = html_classList w"
  "html_classList (run_action OpenAfter i w) = html_classList w"
  "body_padding_right (run_action OpenBefore i w) = body_padding_right w"
  "body_padding_right (run_action OpenAfter i w) = body_padding_right w"
  by (simp_all add: run_action_def)

lemma Remodal_open_html_unmarked:
  assumes "\<not> hasClass (html_classList w) (namespacify [''is-locked''])"
  shows "html_classList (Remodal_open i w) = html_classList w"
    and "body_padding_right (Remodal_open i w) = body_padding_right w"
  by (simp_all add: Remodal_open_def syncWithAnimation_def Let_def barrier_entry_def
      open_statements_html_unmarked [OF assms])

section \<open>The duration probe\<close>

lemma getPrefixedStyles_last:
  "getPrefixedStyles w e s =
     (case filter (\<lambda>p. getStyle w e (p @ s) \<noteq> []) (rev prefixes) of
        [] \<Rightarrow> None | p # ps \<Rightarrow> Some (getStyle w e (p @ s)))"
  by (simp add: getPrefixedStyles_def prefixes_def)

lemma getAnimationDuration_greatest:
  "getAnimationDuration w e =
     (if IS_ANIMATION (browser w) \<and> getPrefixedStyles w e ''animation-name'' = Some ''none''
      then num_zero (browser w)
      else greatest (num_greater (browser w)) (animation_terms w e) (NEGATIVE_INFINITY (browser w)))"
  by (simp add: getAnimationDuration_def animation_terms_def greatest_def Let_def fold_map comp_def)

lemma exact_greater_Some: "exact_greater a b \<Longrightarrow> a \<noteq> None \<and> b \<noteq> None"
  by (cases a; cases b) simp_all

lemma exact_greater_chain1:
  "exact_greater t m \<Longrightarrow> \<not> exact_greater t r \<Longrightarrow> r \<noteq> None \<Longrightarrow> \<not> exact_greater m r"
  apply (cases t; cases m; cases r; simp)
  subgoal for x y z by (cases x; cases y; cases z) (auto split: if_splits)
  done

lemma exact_greater_chain2:
  "\<not> exact_greater t m \<Longrightarrow> \<not> exact_greater m r \<Longrightarrow> m \<noteq> None \<Longrightarrow> r \<noteq> None \<Longrightarrow> \<not> exact_greater t r"
  apply (cases t; cases m; cases r; simp)
  subgoal for x y z by (cases x; cases y; cases z) (auto split: if_splits)
  done

lemma greatest_exact:
  assumes "m \<noteq> None"
  shows "greatest exact_greater ts m \<noteq> None
     \<and> (\<forall>t \<in> set ts. \<not> exact_greater t (greatest exact_greater ts m))
     \<and> \<not> exact_greater m (greatest exact_greater ts m)
     \<and> (greatest exact_greater ts m \<in> set ts \<or> greatest exact_greater ts m = m)"
  using assms
proof (induction ts arbitrary: m)
  case Nil
  then show ?case by (cases m) (auto simp: greatest_def; rename_tac x; case_tac x; simp)+
next
  case (Cons t ts)
  let ?m1 = "if exact_greater t m then t else m"
  have m1: "?m1 \<noteq> None"
    using Cons.prems exact_greater_Some [of t m] by auto
  have g: "greatest exact_greater (t # ts) m = greatest exact_greater ts ?m1"
    by (simp add: greatest_def)
  note ih = Cons.IH [OF m1]
  let ?r = "greatest exact_greater ts ?m1"
  have a: "\<not> exact_greater t ?r \<and> \<not> exact_greater m ?r"
  proof (cases "exact_greater t m")
    case True
    then show ?thesis
      using ih exact_greater_chain1 [of t m ?r] by auto
  next
    case False
    then show ?thesis
      using ih exact_greater_chain2 [of t m ?r] Cons.prems by auto
  qed
  show ?case
    unfolding g using ih a by auto
qed

section \<open>The outcome of a pending barrier\<close>

lemma crossing_zero:
  "crossing w i k sgs =
     (\<exists>m < length sgs. qualifying_end w i (sgs ! m) \<and> k + net_count w i (take (Suc m) sgs) = 0)"
proof (induction sgs arbitrary: k)
  case Nil
  show ?case by simp
next
  case (Cons sg sgs)
  show ?case
    unfolding zero_from_Cons by (simp add: Cons.IH)
qed

lemma zero_reached_crossing: "zero_reached w i sgs = crossing w i 0 sgs"
  by (simp add: crossing_zero zero_reached_def)

lemma pending_outcome:
  assumes "quiet w" and "\<not> no_animation (barrier_entry b a i w) i"
  shows "armed (next_closure w) i (syncWithAnimation b a i w)"
    and "runningAnimationsCount (closures (syncWithAnimation b a i w) (next_closure w)) = 0"
    and "zero_reached (syncWithAnimation b a i w) i sgs \<Longrightarrow>
           quiet (fold dispatchEvent sgs (syncWithAnimation b a i w))"
    and "zero_reached (syncWithAnimation b a i w) i sgs \<Longrightarrow>
           state (instances (fold dispatchEvent sgs (syncWithAnimation b a i w)) i) = action_state a"
    and "\<not> zero_reached (syncWithAnimation b a i w) i sgs \<Longrightarrow>
           armed (next_closure w) i (fold dispatchEvent sgs (syncWithAnimation b a i w))"
    and "\<not> zero_reached (syncWithAnimation b a i w) i sgs \<Longrightarrow>
           runningAnimationsCount
             (closures (fold dispatchEvent sgs (syncWithAnimation b a i w)) (next_closure w)) =
           net_count (syncWithAnimation b a i w) i sgs"
    and "\<not> zero_reached (syncWithAnimation b a i w) i sgs \<Longrightarrow>
           state (instances (fold dispatchEvent sgs (syncWithAnimation b a i w)) i) = action_state b"
proof -
  let ?w1 = "syncWithAnimation b a i w"
  have w1: "?w1 = barrier_entry b a i w"
    by (rule syncWithAnimation_pending [OF assms(2)])
  show ar: "armed (next_closure w) i ?w1"
    by (simp add: w1 barrier_entry_armed assms(1))
  show "runningAnimationsCount (closures ?w1 (next_closure w)) = 0"
    by (simp add: w1 barrier_entry_closure)
  note run = pending_barrier_run [OF assms, of sgs]
  have q: "quiet (detach_handlers i ?w1)"
    by (rule detach_handlers_armed [OF ar])
  show "zero_reached ?w1 i sgs \<Longrightarrow> quiet (fold dispatchEvent sgs ?w1)"
    by (simp add: run q)
  show "zero_reached ?w1 i sgs \<Longrightarrow> state (instances (fold dispatchEvent sgs ?w1) i) = action_state a"
    by (simp add: run run_action_state)
  show "\<not> zero_reached ?w1 i sgs \<Longrightarrow> armed (next_closure w) i (fold dispatchEvent sgs ?w1)"
    by (simp add: run ar)
  show "\<not> zero_reached ?w1 i sgs \<Longrightarrow>
           runningAnimationsCount (closures (fold dispatchEvent sgs ?w1) (next_closure w)) =
           net_count ?w1 i sgs"
    by (simp add: run)
  show "\<not> zero_reached ?w1 i sgs \<Longrightarrow> state (instances (fold dispatchEvent sgs ?w1) i) = action_state b"
    by (simp add: run syncWithAnimation_state assms(2))
qed

lemma crossing_needs_end:
  "crossing w i k sgs \<Longrightarrow> \<exists>e \<in> set sgs. qualifying_end w i e"
  by (induction sgs arbitrary: k) auto

lemma pending_after_start:
  assumes "quiet w" and "\<not> no_animation (barrier_entry b a i w) i"
    and "qualifying_start (syncWithAnimation b a i w) i sg"
  shows "zero_reached (syncWithAnimation b a i w) i (sg # sgs) = crossing (syncWithAnimation b a i w) i 1 sgs"
    and "dispatchEvent sg (syncWithAnimation b a i w) =
           set_count (next_closure w) 1 (syncWithAnimation b a i w)"
proof -
  let ?w1 = "syncWithAnimation b a i w"
  have ne: "\<not> qualifying_end ?w1 i sg"
    using assms(3) qualifying_disjoint by blast
  show "zero_reached ?w1 i (sg # sgs) = crossing ?w1 i 1 sgs"
    using assms(3) ne by (simp add: zero_reached_crossing)
  have "\<not> zero_reached ?w1 i [sg]"
    using ne by (simp add: zero_reached_crossing)
  moreover have "net_count ?w1 i [sg] = 1"
    using assms(3) by (simp add: net_count_Cons)
  ultimately show "dispatchEvent sg ?w1 = set_count (next_closure w) 1 ?w1"
    using pending_barrier_run [OF assms(1,2), of "[sg]"] by simp
qed

lemma barrier_entry_open_classes:
  "set (classList (elems (barrier_entry OpenBefore a i w) e)) =
     (if e \<in> set (surfaces w i)
      then (set (classList (elems w e)) - state_class_set) \<union> {''remodal-is-opening''}
      else set (classList (elems w e)))"
proof -
  have n: "namespacify [''is'', ''opening''] = ''remodal-is-opening''"
    using state_classes [of OPENING] by simp
  show ?thesis
    by (simp add: barrier_entry_def run_action_def setState_classes n)
qed

section \<open>Halting\<close>





section \<open>One instance at a time\<close>

lemma coordinated_loaded:
  assumes "lookup w = []" and "current w = None" and "quiet w" and "bg_element w < next_elem w"
    and "\<forall>found. overlay_element w = Some found \<longrightarrow> found < next_elem w"
  shows "coordinated w"
  using assms
  by (simp add: coordinated_def allocated_def others_closed_def current_registered_def
      barrier_of_current_def)

text \<open>A step that keeps the registry, the allocator and the surfaces keeps the first part.\<close>

lemma allocated_cong:
  assumes "lookup w' = lookup w" and "next_elem w' = next_elem w"
    and "bg_element w' = bg_element w" and "overlay_element w' = overlay_element w"
    and "\<And>j. surfaces w' j = surfaces w j"
  shows "allocated w' = allocated w"
  by (simp add: allocated_def assms)

lemma coordinated_halt:
  assumes "coordinated w" and "i < length (lookup w)"
  shows "coordinated (halt i w)"
proof (cases "state (instances w i) = CLOSED")
  case True
  then show ?thesis using assms by (simp add: halt_closed)
next
  case False
  have al: "allocated (halt i w)"
    using assms by (simp add: coordinated_def allocated_cong [of "halt i w" w])
  have oc: "others_closed (halt i w)"
    using assms by (auto simp: coordinated_def others_closed_def halt_state)
  have cr: "current_registered (halt i w)"
    using assms by (simp add: coordinated_def current_registered_def)
  have cur: "current w = Some i"
    using assms False by (auto simp: coordinated_def others_closed_def)
  have "quiet w \<or> (\<exists>c. armed c i w)"
    using assms cur by (auto simp: coordinated_def barrier_of_current_def)
  then have q: "quiet (halt i w)"
    using False halt_armed quiet_halt by blast
  show ?thesis
    using al oc cr q by (simp add: coordinated_def barrier_of_current_def)
qed

lemma coordinated_dispatchEvent:
  assumes "coordinated w"
  shows "coordinated (dispatchEvent sg w)"
proof (cases "quiet w")
  case True
  then show ?thesis using assms by (simp add: dispatchEvent_quiet)
next
  case False
  then obtain c cur where cur: "current w = Some cur" and ar: "armed c cur w"
    and ci: "closure_instance (closures w c) = cur"
    and st: "state (instances w cur) = OPENING \<or> state (instances w cur) = CLOSING"
    using assms by (auto simp: coordinated_def barrier_of_current_def)
  let ?a = "doAfterAnimation (closures w c)"
  let ?fire = "run_action ?a cur (detach_handlers cur (set_count c 0 w))"
  have al: "allocated (dispatchEvent sg w)"
    using assms by (simp add: coordinated_def allocated_cong [of "dispatchEvent sg w" w])
  have cr: "current_registered (dispatchEvent sg w)"
    using assms by (simp add: coordinated_def current_registered_def)
  have same: "set_count c (runningAnimationsCount (closures w c)) w = w"
    by (rule set_count_same) simp
  have "(\<exists>n. dispatchEvent sg w = set_count c n w) \<or> dispatchEvent sg w = ?fire"
  proof (cases "qualifying_start w cur sg")
    case True
    then show ?thesis
      by (simp add: dispatchEvent_armed [OF ar] invoke_start) blast
  next
    case ns: False
    show ?thesis
    proof (cases "qualifying_end w cur sg")
      case True
      then show ?thesis
        using ns ci
        by (cases "runningAnimationsCount (closures w c) - 1 = 0")
          (simp_all add: dispatchEvent_armed [OF ar] invoke_end, blast)
    next
      case False
      then show ?thesis
        using ns same by (simp add: dispatchEvent_armed [OF ar]) metis
    qed
  qed
  then consider (count) n where "dispatchEvent sg w = set_count c n w"
    | (fire) "dispatchEvent sg w = ?fire"
    by blast
  then show ?thesis
  proof cases
    case count
    have oc: "others_closed (dispatchEvent sg w)"
      using assms by (simp add: count coordinated_def others_closed_def set_count_def)
    have "armed c cur (set_count c n w) \<and> closure_instance (closures (set_count c n w) c) = cur"
      using ar ci by simp
    then have bc: "barrier_of_current (dispatchEvent sg w)"
      using cur st unfolding count barrier_of_current_def
      by (intro disjI2 exI [of _ c] exI [of _ cur]) (simp add: set_count_def)
    show ?thesis
      using al oc cr bc by (simp add: coordinated_def)
  next
    case fire
    have oc: "others_closed (dispatchEvent sg w)"
      using assms cur
      by (auto simp: fire coordinated_def others_closed_def run_action_state set_count_def)
    have "quiet (detach_handlers cur (set_count c 0 w))"
      by (rule detach_handlers_armed [of c]) (simp add: ar)
    then have "quiet (dispatchEvent sg w)"
      by (simp add: fire)
    then show ?thesis
      using al oc cr by (simp add: coordinated_def barrier_of_current_def)
  qed
qed

lemma allocated_simple [simp]:
  "allocated (addClasses el cs w) = allocated w"
  "allocated (setStyle_display el v w) = allocated w"
  "allocated (screenLockToggle act w) = allocated w"
  "allocated (w\<lparr>current := cur\<rparr>) = allocated w"
  "allocated (w\<lparr>event_log := lg\<rparr>) = allocated w"
  "allocated (open_record_scroll i w) = allocated w"
  "allocated (close_clear_hash i w) = allocated w"
  "allocated (halt i w) = allocated w"
  "allocated (barrier_entry b a i w) = allocated w"
  "allocated (syncWithAnimation b a i w) = allocated w"
  by (rule allocated_cong; simp add: surfaces_def)+

lemma coordinated_barrier:
  assumes "coordinated w" and "quiet w" and "current w = Some i"
    and "action_state b = OPENING \<or> action_state b = CLOSING"
  shows "coordinated (barrier_entry b a i w)"
    and "coordinated (syncWithAnimation b a i w)"
proof -
  have reg: "current_registered w" and oc: "others_closed w" and al: "allocated w"
    using assms(1) by (simp_all add: coordinated_def)
  have oc1: "others_closed (barrier_entry b a i w)"
    using oc assms(3) by (auto simp: others_closed_def barrier_entry_state)
  have bc1: "barrier_of_current (barrier_entry b a i w)"
    unfolding barrier_of_current_def
    using barrier_entry_armed [OF assms(2), of i b a] assms(3,4)
    by (intro disjI2 exI [of _ "next_closure w"] exI [of _ i])
      (simp add: barrier_entry_closure barrier_entry_state)
  show c1: "coordinated (barrier_entry b a i w)"
    using al reg oc1 bc1 by (simp add: coordinated_def current_registered_def)
  show "coordinated (syncWithAnimation b a i w)"
  proof (cases "no_animation (barrier_entry b a i w) i")
    case False
    then show ?thesis using c1 by (simp add: syncWithAnimation_pending)
  next
    case True
    have q: "quiet (syncWithAnimation b a i w)"
      by (rule syncWithAnimation_quiet [OF assms(2) True])
    have oc2: "others_closed (syncWithAnimation b a i w)"
      using oc assms(3) by (auto simp: others_closed_def syncWithAnimation_state)
    show ?thesis
      using al reg oc2 q by (simp add: coordinated_def current_registered_def barrier_of_current_def)
  qed
qed

lemma coordinated_hash [simp]:
  "coordinated (open_record_scroll i w) = coordinated w"
  "coordinated (close_clear_hash i w) = coordinated w"
proof -
  have a: "quiet (open_record_scroll i w) = quiet w"
    by (simp add: open_record_scroll_def split: option.splits)
  have b: "armed c cur (open_record_scroll i w) = armed c cur w" for c cur
    by (simp add: open_record_scroll_def armed_def surfaces_def split: option.splits)
  have c: "armed c cur (close_clear_hash i w) = armed c cur w" for c cur
    by (simp add: close_clear_hash_def armed_def surfaces_def)
  have d: "instances (open_record_scroll i w) = instances w" "current (open_record_scroll i w) = current w"
    "closures (open_record_scroll i w) = closures w" "lookup (open_record_scroll i w) = lookup w"
    by (simp_all add: open_record_scroll_def split: option.splits)
  have e: "instances (close_clear_hash i w) = instances w" "current (close_clear_hash i w) = current w"
    "closures (close_clear_hash i w) = closures w" "lookup (close_clear_hash i w) = lookup w"
    by (simp_all add: close_clear_hash_def)
  show "coordinated (open_record_scroll i w) = coordinated w"
    by (simp add: coordinated_def others_closed_def current_registered_def barrier_of_current_def
        a b d)
  show "coordinated (close_clear_hash i w) = coordinated w"
    by (simp add: coordinated_def others_closed_def current_registered_def barrier_of_current_def
        c e)
qed

text \<open>An instance that is not closed is the current one; if it is not in a transition, no
  barrier is pending.\<close>

lemma coordinated_open_current:
  assumes "coordinated w" and "i < length (lookup w)" and "state (instances w i) \<noteq> CLOSED"
  shows "current w = Some i"
  using assms by (auto simp: coordinated_def others_closed_def)

lemma coordinated_settled_quiet:
  assumes "coordinated w" and "current w = Some i"
    and "state (instances w i) \<noteq> OPENING" and "state (instances w i) \<noteq> CLOSING"
  shows "quiet w"
  using assms by (auto simp: coordinated_def barrier_of_current_def)

lemma coordinated_close_points:
  assumes "coordinated w" and "i < length (lookup w)" and "state (instances w i) = OPENED"
    and "p \<in> set (close_points i reason w)"
  shows "coordinated p"
proof -
  have cur: "current w = Some i"
    by (rule coordinated_open_current [OF assms(1,2)]) (simp add: assms(3))
  have q: "quiet w"
    by (rule coordinated_settled_quiet [OF assms(1) cur]) (simp_all add: assms(3))
  let ?v = "close_clear_hash i w"
  have cv: "coordinated ?v" "quiet ?v" "current ?v = Some i"
    using assms(1) q cur by simp_all
  have st: "action_state (CloseBefore reason) = OPENING \<or> action_state (CloseBefore reason) = CLOSING"
    by (simp add: action_state_def)
  note b = coordinated_barrier [OF cv st, of "CloseAfter reason"]
  show ?thesis
    using assms(1,4) cv(1) b by (auto simp: close_points_def)
qed

lemma points_Cons: "points (s # statements) w = w # points statements (s w)"
proof -
  have u: "[0 ..< Suc (Suc (length statements))] = 0 # map Suc [0 ..< Suc (length statements)]"
    by (metis map_Suc_upt upt_conv_Cons zero_less_Suc)
  have "points (s # statements) w =
      map (\<lambda>k. run (take k (s # statements)) w) (0 # map Suc [0 ..< Suc (length statements)])"
    unfolding points_def by (simp only: length_Cons u)
  also have "\<dots> = w # map (\<lambda>k. run (take k statements) (s w)) [0 ..< Suc (length statements)]"
    by (simp add: run_def comp_def del: upt_Suc)
  finally show ?thesis
    by (simp only: points_def)
qed

lemma points_Nil: "points [] w = [w]"
  by (simp add: points_def run_def)

lemma points_keep:
  assumes "P w" and "\<And>s v. s \<in> set statements \<Longrightarrow> P v \<Longrightarrow> P (s v)"
    and "p \<in> set (points statements w)"
  shows "P p"
  using assms
proof (induction statements arbitrary: w)
  case Nil
  then show ?case by (simp add: points_Nil)
next
  case (Cons s statements)
  from Cons.prems(3) have "p = w \<or> p \<in> set (points statements (s w))"
    by (simp add: points_Cons)
  then show ?case
  proof
    assume "p = w"
    then show ?thesis using Cons.prems(1) by simp
  next
    assume in_rest: "p \<in> set (points statements (s w))"
    show ?thesis
    proof (rule Cons.IH [OF _ _ in_rest])
      show "P (s w)" using Cons.prems(1,2) by simp
      show "\<And>s' v. s' \<in> set statements \<Longrightarrow> P v \<Longrightarrow> P (s' v)"
        using Cons.prems(2) by simp
    qed
  qed
qed

lemma run_in_points: "run statements w \<in> set (points statements w)"
  by (induction statements arbitrary: w) (simp_all add: points_Nil points_Cons run_def)

text \<open>After the statement that halts the former current instance, and until the barrier
  is entered: no handler is on the page, every other instance is closed.\<close>

lemma coordinated_open_points:
  assumes "coordinated w" and "i < length (lookup w)"
    and "state (instances w i) \<noteq> OPENING" and "state (instances w i) \<noteq> CLOSING"
    and "p \<in> set (open_points i w)"
  shows "coordinated p"
proof -
  define P where "P = (\<lambda>v :: 'a world. quiet v \<and> allocated v \<and> i < length (lookup v)
      \<and> (\<forall>j < length (lookup v). j \<noteq> i \<longrightarrow> state (instances v j) = CLOSED)
      \<and> (current v = Some i \<or> (state (instances v i) = CLOSED \<and> current_registered v)))"
  let ?w1 = "open_record_scroll i w"
  let ?w2 = "open_halt_current i ?w1"
  let ?rest = "[(\<lambda>w. w\<lparr>current := Some i\<rparr>),
      screenLockToggle ''lock'',
      (\<lambda>w. addClasses (bg (instances w i)) (modifier (the_settings w i)) w),
      (\<lambda>w. addClasses (overlay (instances w i)) (modifier (the_settings w i)) w),
      (\<lambda>w. setStyle_display (overlay (instances w i)) ''block'' w),
      (\<lambda>w. setStyle_display (wrapper (instances w i)) ''block'' w),
      (\<lambda>w. w\<lparr>event_log := event_log w @ [ElementScrollTo (wrapper (instances w i)) 0 0]\<rparr>),
      (\<lambda>w. w\<lparr>event_log := event_log w @ [Focus (modal (instances w i))]\<rparr>)]"
  let ?end = "run (open_statements i) w"
  have pts: "points (open_statements i) w = w # ?w1 # points ?rest ?w2"
    by (simp only: open_statements_def points_Cons)
  have c1: "coordinated ?w1"
    using assms(1) by simp
  have f1: "state (instances ?w1 j) = state (instances w j)" "current ?w1 = current w"
    "lookup ?w1 = lookup w" for j
    by (simp_all add: open_record_scroll_def split: option.splits)
  have P2: "P ?w2"
  proof (cases "current w")
    case None
    then have "quiet ?w1" "\<forall>j < length (lookup w). state (instances w j) = CLOSED"
      using c1 assms(1) f1
      by (auto simp: coordinated_def barrier_of_current_def others_closed_def)
    then show ?thesis
      using None c1 assms(2) f1
      by (simp add: P_def open_halt_current_def coordinated_def current_registered_def)
  next
    case (Some c)
    show ?thesis
    proof (cases "c = i")
      case True
      have "quiet ?w1"
        by (rule coordinated_settled_quiet [OF c1, of i]) (simp_all add: f1 Some True assms(3,4))
      moreover have "\<forall>j < length (lookup w). j \<noteq> i \<longrightarrow> state (instances w j) = CLOSED"
        using assms(1) Some True by (auto simp: coordinated_def others_closed_def)
      ultimately show ?thesis
        using Some True c1 assms(2) f1
        by (simp add: P_def open_halt_current_def coordinated_def)
    next
      case False
      have w2: "?w2 = halt c ?w1"
        using Some False by (simp add: open_halt_current_def f1)
      have creg: "c < length (lookup ?w1)"
        using c1 Some by (simp add: coordinated_def current_registered_def f1)
      have ch: "coordinated (halt c ?w1)"
        by (rule coordinated_halt [OF c1 creg])
      have "quiet (halt c ?w1)"
        by (rule coordinated_settled_quiet [OF ch, of c]) (simp_all add: f1 Some halt_state)
      moreover have "\<forall>j < length (lookup w). j \<noteq> c \<longrightarrow> state (instances w j) = CLOSED"
        using assms(1) Some by (auto simp: coordinated_def others_closed_def)
      ultimately show ?thesis
        using ch assms(2) False f1 Some
        by (auto simp: P_def w2 coordinated_def halt_state)
    qed
  qed
  have keep: "P (s v)" if "s \<in> set ?rest" and "P v" for s v
    using that by (auto simp: P_def current_registered_def)
  have Prest: "P p'" if "p' \<in> set (points ?rest ?w2)" for p'
    using P2 keep that by (rule points_keep)
  have Pc: "coordinated v" if "P v" for v
    using that
    by (auto simp: P_def coordinated_def others_closed_def current_registered_def
        barrier_of_current_def)
  have "?end = run ?rest ?w2"
    by (simp add: run_def open_statements_def)
  then have "?end \<in> set (points ?rest ?w2)"
    by (simp only: run_in_points)
  then have Pend: "P ?end"
    by (rule Prest)
  have qend: "quiet ?end"
    using Pend by (simp add: P_def)
  have cend: "current ?end = Some i"
    by (rule open_statements_current)
  have st: "action_state OpenBefore = OPENING \<or> action_state OpenBefore = CLOSING"
    by (simp add: action_state_def)
  note b = coordinated_barrier [OF Pc [OF Pend] qend cend st, of OpenAfter]
  have "p \<in> set (points (open_statements i) w) \<or> p = barrier_entry OpenBefore OpenAfter i ?end
        \<or> p = syncWithAnimation OpenBefore OpenAfter i ?end"
    using assms(5) by (auto simp: open_points_def)
  then show ?thesis
    using assms(1) c1 Prest Pc b Pend by (auto simp: pts)
qed

lemma constructor_handlers:
  assumes "namespaces (elems w (next_elem w)) = Map.empty" and "listeners (elems w (next_elem w)) = []"
    and "namespaces (elems w (Suc (next_elem w))) = Map.empty"
    and "listeners (elems w (Suc (next_elem w))) = []"
  shows "namespaces (elems (snd (Remodal_constructor m opts w)) e) = namespaces (elems w e)"
    and "listeners (elems (snd (Remodal_constructor m opts w)) e) = listeners (elems w e)"
  using assms
  by (auto simp: Remodal_constructor_def Let_def split_beta resolve_overlay_def createElement_def
      update_elem_def addClasses_def hide_def Object_assign_def split: option.splits)

lemma constructor_surfaces:
  "j \<noteq> length (lookup w) \<Longrightarrow> surfaces (snd (Remodal_constructor m opts w)) j = surfaces w j"
  "surfaces (snd (Remodal_constructor m opts w)) (length (lookup w)) =
     [bg_element w,
      (case overlay_element w of Some found \<Rightarrow> found | None \<Rightarrow> next_elem w),
      (case overlay_element w of Some found \<Rightarrow> next_elem w | None \<Rightarrow> Suc (next_elem w)),
      m]"
  by (simp_all add: surfaces_def constructor_fields(8) constructor_instance)

lemma coordinated_constructor:
  assumes "coordinated w" and "m < next_elem w"
  shows "coordinated (snd (Remodal_constructor m opts w))"
proof -
  let ?v = "snd (Remodal_constructor m opts w)"
  have al: "allocated w" and oc: "others_closed w" and reg: "current_registered w"
    and bc: "barrier_of_current w"
    using assms(1) by (simp_all add: coordinated_def)
  have ne: "next_elem w < next_elem ?v"
    by (simp add: constructor_more split: option.splits)
  have alv: "allocated ?v"
    unfolding allocated_def
  proof (intro conjI allI impI ballI)
    show "bg_element ?v < next_elem ?v"
      using al ne by (simp add: allocated_def constructor_more)
    show "found < next_elem ?v" if "overlay_element ?v = Some found" for found
      using that al ne by (auto simp: allocated_def constructor_more split: option.splits)
    show "e < next_elem ?v" if "j < length (lookup ?v)" and "e \<in> set (surfaces ?v j)" for j e
    proof (cases "j = length (lookup w)")
      case True
      then show ?thesis
        using that(2) al assms(2)
        by (auto simp: constructor_surfaces allocated_def constructor_more split: option.splits)
    next
      case False
      then have "j < length (lookup w)"
        using that(1) by (simp add: constructor_fields)
      then have "e < next_elem w"
        using that(2) False al by (simp add: constructor_surfaces allocated_def)
      then show ?thesis using ne by simp
    qed
  qed
  have ocv: "others_closed ?v"
    using oc by (auto simp: others_closed_def constructor_fields less_Suc_eq)
  have regv: "current_registered ?v"
    using reg by (auto simp: current_registered_def constructor_fields less_Suc_eq)
  have bcv: "barrier_of_current ?v"
  proof (cases "quiet w")
    case True
    then show ?thesis
      by (simp add: barrier_of_current_def constructor_quiet)
  next
    case False
    then obtain c cur where cur: "current w = Some cur" and ar: "armed c cur w"
      and ci: "closure_instance (closures w c) = cur"
      and st: "state (instances w cur) = OPENING \<or> state (instances w cur) = CLOSING"
      using bc by (auto simp: barrier_of_current_def)
    have creg: "cur < length (lookup w)"
      using reg cur by (simp add: current_registered_def)
    then have below: "\<forall>e \<in> set (surfaces w cur). e < next_elem w"
      using al by (simp add: allocated_def)
    then have out: "next_elem w \<notin> set (surfaces w cur)" "Suc (next_elem w) \<notin> set (surfaces w cur)"
      by auto
    have fresh: "namespaces (elems w (next_elem w)) = Map.empty" "listeners (elems w (next_elem w)) = []"
      "namespaces (elems w (Suc (next_elem w))) = Map.empty"
      "listeners (elems w (Suc (next_elem w))) = []"
      using ar out by (simp_all add: armed_def)
    have sv: "surfaces ?v cur = surfaces w cur"
      using creg by (simp add: constructor_surfaces)
    have arv: "armed c cur ?v"
      using ar by (simp add: armed_def constructor_handlers [OF fresh] sv)
    have "state (instances ?v cur) = state (instances w cur)"
      using creg by (simp add: constructor_fields)
    then show ?thesis
      unfolding barrier_of_current_def using cur ci st arv
      by (intro disjI2 exI [of _ c] exI [of _ cur]) (simp add: constructor_fields constructor_more)
  qed
  show ?thesis
    using alv ocv regv bcv by (simp add: coordinated_def)
qed

lemma reachable_coordinated: "reachable_in_turn w \<Longrightarrow> coordinated w"
proof (induction rule: reachable_in_turn.induct)
  case (loaded w)
  then show ?case by (simp add: coordinated_loaded)
next
  case (constructed w modal_el opts)
  then show ?case by (simp add: coordinated_constructor)
next
  case (open_point w i p)
  then show ?case using coordinated_open_points by blast
next
  case (close_point w i p reason)
  then show ?case using coordinated_close_points by blast
next
  case (halted w i)
  then show ?case by (simp add: coordinated_halt)
next
  case (signalled w sg)
  then show ?case by (simp add: coordinated_dispatchEvent)
qed

lemma coordinated_one_open:
  assumes "coordinated w" and "i < length (lookup w)" and "j < length (lookup w)"
    and "state (instances w i) \<noteq> CLOSED" and "state (instances w j) \<noteq> CLOSED"
  shows "i = j"
  using coordinated_open_current [OF assms(1,2,4)] coordinated_open_current [OF assms(1,3,5)]
  by simp

lemma points_same:
  assumes "\<And>s v. s \<in> set statements \<Longrightarrow> f (s v) = f v" and "p \<in> set (points statements w)"
  shows "f p = f w"
  using assms
proof (induction statements arbitrary: w)
  case Nil
  then show ?case by (simp add: points_Nil)
next
  case (Cons s statements)
  from Cons.prems(2) have "p = w \<or> p \<in> set (points statements (s w))"
    by (simp add: points_Cons)
  then show ?case
  proof
    assume "p = w"
    then show ?thesis by simp
  next
    assume "p \<in> set (points statements (s w))"
    then have "f p = f (s w)"
      using Cons.prems(1) by (intro Cons.IH) simp_all
    then show ?thesis
      using Cons.prems(1) by simp
  qed
qed

lemma points_first: "points statements v ! 0 = v"
  by (cases statements) (simp_all add: points_Nil points_Cons)

lemma open_points_unfold:
  "open_points i w =
     w # open_record_scroll i w #
     points (drop 2 (open_statements i)) (open_halt_current i (open_record_scroll i w)) @
     [barrier_entry OpenBefore OpenAfter i (run (open_statements i) w),
      syncWithAnimation OpenBefore OpenAfter i (run (open_statements i) w)]"
proof -
  have "open_statements i = open_record_scroll i # open_halt_current i # drop 2 (open_statements i)"
    by (simp add: open_statements_def)
  then have "points (open_statements i) w =
      w # open_record_scroll i w #
      points (drop 2 (open_statements i)) (open_halt_current i (open_record_scroll i w))"
    by (metis points_Cons)
  then show ?thesis
    by (simp add: open_points_def)
qed

lemma length_rest_points: "length (points (drop 2 (open_statements i)) v) = 9"
  by (simp add: points_def open_statements_def)

lemma rest_points_state:
  assumes "p \<in> set (points (drop 2 (open_statements i)) v)"
  shows "state (instances p j) = state (instances v j)"
  using _ assms
  by (rule points_same [where f = "\<lambda>v. state (instances v j)"]) (auto simp: open_statements_def)

lemma Remodal_open_current:
  assumes "state (instances w i) \<noteq> OPENING" and "state (instances w i) \<noteq> CLOSING"
  shows "current (Remodal_open i w) = Some i"
    and "Remodal_open i w \<in> set (open_points i w)"
  using assms by (simp_all add: Remodal_open_def open_statements_current open_points_def)

section \<open>Listeners that call the library\<close>

lemma nobody_notified:
  "run_action_notifying (\<lambda>el name w. w) a i w = run_action a i w"
  "syncWithAnimation_notifying (\<lambda>el name w. w) b a i w = syncWithAnimation b a i w"
  "Remodal_open_notifying (\<lambda>el name w. w) i w = Remodal_open i w"
proof -
  show r: "run_action_notifying (\<lambda>el name w. w) a i w = run_action a i w" for a i and w :: "'a world"
    by (simp add: run_action_notifying_def)
  show s: "syncWithAnimation_notifying (\<lambda>el name w. w) b a i w = syncWithAnimation b a i w"
    for b a i and w :: "'a world"
    by (simp add: syncWithAnimation_notifying_def syncWithAnimation_def barrier_entry_def r Let_def)
  show "Remodal_open_notifying (\<lambda>el name w. w) i w = Remodal_open i w"
    by (simp add: Remodal_open_notifying_def Remodal_open_def s)
qed

section \<open>The example page\<close>

lemma createElement_data_id:
  "data_remodal_id (elems (snd (createElement w)) e) =
     (if e = next_elem w then None else data_remodal_id (elems w e))"
  by (simp add: createElement_def)

lemma resolve_overlay_data_id:
  "data_remodal_id (elems (snd (resolve_overlay w)) e) =
     (if overlay_element w = None \<and> e = next_elem w then None else data_remodal_id (elems w e))"
  by (simp add: resolve_overlay_def Let_def split_beta createElement_data_id split: option.splits)

lemma update_classList_data_id:
  "data_remodal_id (elems (update_elem el (\<lambda>x. x\<lparr>classList := f x\<rparr>) w) e) = data_remodal_id (elems w e)"
  by (simp add: update_elem_def)

lemma constructor_created_data_id:
  "data_remodal_id (elems (snd (Remodal_constructor m opts w)) e) =
     (if (overlay_element w = None \<and> (e = next_elem w \<or> e = Suc (next_elem w)))
         \<or> (overlay_element w \<noteq> None \<and> e = next_elem w)
      then None else data_remodal_id (elems w e))"
  by (simp add: Remodal_constructor_def Let_def split_beta createElement_data_id
      resolve_overlay_data_id update_classList_data_id split: option.splits)

lemma empty_page_fields [simp]:
  "browser (empty_page css) = exact_browser css"
  "next_elem (empty_page css) = 13"
  "html_classList (empty_page css) = []"
  "body_padding_right (empty_page css) = 0"
  "scrollbar_width (empty_page css) = 15"
  "location_hash (empty_page css) = []"
  "scrollY (empty_page css) = 300"
  "bg_element (empty_page css) = 10"
  "overlay_element (empty_page css) = None"
  "settings_store (empty_page css) = (\<lambda>r. default_settings)"
  "DEFAULTS (empty_page css) = 0"
  "lookup (empty_page css) = []"
  "next_closure (empty_page css) = 0"
  "current (empty_page css) = None"
  "scrollTop (empty_page css) = None"
  "event_log (empty_page css) = []"
  "quiet (empty_page css)"
  "state (instances (empty_page css) j) = CLOSED"
  "data_remodal_id (elems (empty_page css) e) =
     (if e = 11 then Some ''first'' else if e = 12 then Some ''second'' else None)"
  by (simp_all add: empty_page_def quiet_def blank_element_def)

lemma one_dialog_fields:
  fixes css
  defines "w \<equiv> snd (Remodal_constructor 11 None (empty_page css))"
  shows "browser w = exact_browser css"
    and "next_elem w = 15"
    and "overlay_element w = Some 13"
    and "bg_element w = 10"
    and "lookup w = [Some 0]"
    and "DEFAULTS w = 0"
    and "settings_store w = (\<lambda>r. default_settings)"
    and "quiet w"
    and "instances w 0 =
      \<lparr>settings_ref = 0, index = 0, state = CLOSED, overlay = 13, bg = 10, modal = 11, wrapper = 14\<rparr>"
    and "state (instances w j) = CLOSED"
    and "data_remodal_id (elems w e) =
     (if e = 11 then Some ''first'' else if e = 12 then Some ''second'' else None)"
proof -
  show "browser w = exact_browser css" "next_elem w = 15" "overlay_element w = Some 13"
    "bg_element w = 10" "lookup w = [Some 0]" "DEFAULTS w = 0"
    "settings_store w = (\<lambda>r. default_settings)"
    by (simp_all add: w_def constructor_more constructor_fields)
  show "quiet w"
    by (simp add: w_def constructor_quiet)
  show "instances w 0 =
      \<lparr>settings_ref = 0, index = 0, state = CLOSED, overlay = 13, bg = 10, modal = 11, wrapper = 14\<rparr>"
    using constructor_instance [of 11 None "empty_page css"] by (simp add: w_def)
  show "state (instances w j) = CLOSED"
    by (simp add: w_def constructor_fields)
  show "data_remodal_id (elems w e) =
     (if e = 11 then Some ''first'' else if e = 12 then Some ''second'' else None)"
    by (simp add: w_def constructor_created_data_id)
qed

lemma two_dialogs_fields [simp]:
  "browser (two_dialogs css) = exact_browser css"
  "html_classList (two_dialogs css) = []"
  "body_padding_right (two_dialogs css) = 0"
  "scrollbar_width (two_dialogs css) = 15"
  "location_hash (two_dialogs css) = []"
  "scrollY (two_dialogs css) = 300"
  "settings_store (two_dialogs css) = (\<lambda>r. default_settings)"
  "lookup (two_dialogs css) = [Some 0, Some 1]"
  "next_closure (two_dialogs css) = 0"
  "current (two_dialogs css) = None"
  "scrollTop (two_dialogs css) = None"
  "event_log (two_dialogs css) = []"
  "quiet (two_dialogs css)"
  "state (instances (two_dialogs css) j) = CLOSED"
  "data_remodal_id (elems (two_dialogs css) e) =
     (if e = 11 then Some ''first'' else if e = 12 then Some ''second'' else None)"
  by (simp_all add: two_dialogs_def constructor_more constructor_fields one_dialog_fields
      constructor_quiet constructor_created_data_id)

lemma two_dialogs_instances [simp]:
  "instances (two_dialogs css) 0 =
      \<lparr>settings_ref = 0, index = 0, state = CLOSED, overlay = 13, bg = 10, modal = 11, wrapper = 14\<rparr>"
  "instances (two_dialogs css) (Suc 0) =
      \<lparr>settings_ref = 0, index = 1, state = CLOSED, overlay = 13, bg = 10, modal = 12, wrapper = 15\<rparr>"
proof -
  let ?w1 = "snd (Remodal_constructor 11 None (empty_page css))"
  have "instances (two_dialogs css) 0 = instances ?w1 0"
    unfolding two_dialogs_def
    by (rule constructor_fields(8)) (simp add: one_dialog_fields)
  then show "instances (two_dialogs css) 0 =
      \<lparr>settings_ref = 0, index = 0, state = CLOSED, overlay = 13, bg = 10, modal = 11, wrapper = 14\<rparr>"
    by (simp add: one_dialog_fields)
  show "instances (two_dialogs css) (Suc 0) =
      \<lparr>settings_ref = 0, index = 1, state = CLOSED, overlay = 13, bg = 10, modal = 12, wrapper = 15\<rparr>"
    using constructor_instance [of 12 None ?w1]
    by (simp add: two_dialogs_def one_dialog_fields)
qed

lemma two_dialogs_surfaces [simp]:
  "surfaces (two_dialogs css) 0 = [10, 13, 14, 11]"
  "surfaces (two_dialogs css) (Suc 0) = [10, 13, 15, 12]"
  "the_settings (two_dialogs css) j = default_settings"
  by (simp_all add: surfaces_def the_settings_def)

section \<open>The probe on the example style sheets\<close>

lemma split_examples:
  "split '', '' ''0s'' = [''0s'']"
  "split '', '' ''1'' = [''1'']"
  "split '', '' ''0.3s'' = [''0.3s'']"
  by code_simp+

lemma exact_parse_examples:
  "exact_parseFloat (Some ''0s'') = Some (Finite 0)"
  "exact_parseFloat (Some ''0.3s'') = Some (Finite (3 / 10))"
  "exact_parseInt10 (Some ''1'') = Some (Finite 1)"
  by code_simp+

lemma no_css_duration:
  assumes "browser w = exact_browser no_css"
  shows "getAnimationDuration w e = Some (Finite 0)"
  by (simp add: getAnimationDuration_def getPrefixedStyles_def getStyle_def assms exact_browser_def
      no_css_def or_default_def Let_def split_examples item_def exact_parse_examples)

lemma no_css_no_animation:
  assumes "browser w = exact_browser no_css"
  shows "no_animation w i"
  by (simp add: no_animation_def no_css_duration [OF assms] list_all_iff assms exact_browser_def)

lemma fade_css_duration:
  assumes "browser w = exact_browser fade_css"
  shows "getAnimationDuration w e =
     (if animating (elems w) e then Some (Finite (3 / 10)) else Some (Finite 0))"
  by (simp add: getAnimationDuration_def getPrefixedStyles_def getStyle_def assms exact_browser_def
      fade_css_def or_default_def Let_def split_examples item_def exact_parse_examples)

lemma fade_css_no_animation:
  assumes "browser w = exact_browser fade_css"
  shows "no_animation w i = (\<forall>e \<in> set (surfaces w i). \<not> animating (elems w) e)"
  by (simp add: no_animation_def fade_css_duration [OF assms] list_all_iff assms exact_browser_def)

lemma opened_no_css:
  "state (instances (Remodal_open 0 (two_dialogs no_css)) 0) = OPENED"
  "quiet (Remodal_open 0 (two_dialogs no_css))"
  "event_log (Remodal_open 0 (two_dialogs no_css)) =
     [ElementScrollTo 14 0 0, Focus 11, Event 11 ''opening'' None, Event 11 ''opened'' None]"
proof -
  let ?w = "two_dialogs no_css"
  have na: "no_animation (barrier_entry OpenBefore OpenAfter 0 (run (open_statements 0) ?w)) 0"
    by (rule no_css_no_animation) simp
  show "state (instances (Remodal_open 0 ?w) 0) = OPENED"
    by (simp add: Remodal_open_state na)
  show "quiet (Remodal_open 0 ?w)"
    by (simp add: Remodal_open_def syncWithAnimation_quiet quiet_open_statements na)
  show "event_log (Remodal_open 0 ?w) =
     [ElementScrollTo 14 0 0, Focus 11, Event 11 ''opening'' None, Event 11 ''opened'' None]"
    by (simp add: Remodal_open_event_log na)
qed

lemma multi_css_values:
  "split '', '' ''0.3s, 1s'' = [''0.3s'', ''1s'']"
  "split '', '' ''2, 1'' = [''2'', ''1'']"
  "split '', '' ''0s, 0.5s'' = [''0s'', ''0.5s'']"
  "exact_parseFloat (Some ''1s'') = Some (Finite 1)"
  "exact_parseFloat (Some ''0.5s'') = Some (Finite (1 / 2))"
  "exact_parseInt10 (Some ''2'') = Some (Finite 2)"
  by code_simp+

lemma multi_css_terms:
  assumes "browser w = exact_browser multi_css"
  shows "getPrefixedStyles w e ''animation-name'' = Some ''slide, fade''"
    and "getPrefixedStyles w e ''animation-duration'' = Some ''0.3s, 1s''"
    and "animation_terms w e = [Some (Finite (3 / 5)), Some (Finite (3 / 2))]"
proof -
  show n: "getPrefixedStyles w e ''animation-name'' = Some ''slide, fade''"
    by (simp add: getPrefixedStyles_def getStyle_def assms exact_browser_def multi_css_def)
  show d: "getPrefixedStyles w e ''animation-duration'' = Some ''0.3s, 1s''"
    by (simp add: getPrefixedStyles_def getStyle_def assms exact_browser_def multi_css_def)
  have u: "[0 ..< 2] = [0, Suc 0]"
    by (simp add: upt_rec)
  show "animation_terms w e = [Some (Finite (3 / 5)), Some (Finite (3 / 2))]"
    by (simp add: animation_terms_def d getStyle_def assms exact_browser_def multi_css_def
        or_default_def Let_def multi_css_values split_examples exact_parse_examples item_def u)
qed

section \<open>Opening the first dialog with the animated style sheet\<close>

lemma opening_fade:
  "\<not> no_animation (barrier_entry OpenBefore OpenAfter 0
        (run (open_statements 0) (two_dialogs fade_css))) 0"
  "quiet (run (open_statements 0) (two_dialogs fade_css))"
  "Remodal_open 0 (two_dialogs fade_css) =
     syncWithAnimation OpenBefore OpenAfter 0 (run (open_statements 0) (two_dialogs fade_css))"
  "next_closure (run (open_statements 0) (two_dialogs fade_css)) = 0"
  "event_log (run (open_statements 0) (two_dialogs fade_css)) = [ElementScrollTo 14 0 0, Focus 11]"
  "surfaces (run (open_statements 0) (two_dialogs fade_css)) 0 = [10, 13, 14, 11]"
  "modal (instances (run (open_statements 0) (two_dialogs fade_css)) 0) = 11"
proof -
  let ?w = "run (open_statements 0) (two_dialogs fade_css)"
  let ?e = "barrier_entry OpenBefore OpenAfter 0 ?w"
  show s: "surfaces ?w 0 = [10, 13, 14, 11]"
    by simp
  have "animating (elems ?e) 11"
    by (simp add: animating_def barrier_entry_open_classes s)
  then have "\<exists>e \<in> set (surfaces ?e 0). animating (elems ?e) e"
    by (simp add: s)
  then show "\<not> no_animation ?e 0"
    by (simp add: fade_css_no_animation)
  show "quiet ?w"
    by (simp add: quiet_open_statements)
  show "Remodal_open 0 (two_dialogs fade_css) = syncWithAnimation OpenBefore OpenAfter 0 ?w"
    by (simp add: Remodal_open_def)
  show "next_closure ?w = 0"
    by simp
  show "event_log ?w = [ElementScrollTo 14 0 0, Focus 11]"
    by (simp add: open_statements_event_log)
  show "modal (instances ?w 0) = 11"
    by simp
qed

lemma signal_fields [simp]:
  "signal_type (animation_signal typ el) = typ"
  "signal_target (animation_signal typ el) = el"
  by (simp_all add: animation_signal_def)

section \<open>Opening the second dialog while the first is opening\<close>

lemma opening_second:
  "state (instances (Remodal_open 0 (two_dialogs fade_css)) 0) = OPENING"
  "state (instances (Remodal_open 0 (two_dialogs fade_css)) (Suc 0)) = CLOSED"
  "current (Remodal_open 0 (two_dialogs fade_css)) = Some 0"
  "length (lookup (Remodal_open 0 (two_dialogs fade_css))) = 2"
  "state (instances (Remodal_open (Suc 0) (Remodal_open 0 (two_dialogs fade_css))) (Suc 0)) = OPENING"
proof -
  let ?W = "Remodal_open 0 (two_dialogs fade_css)"
  let ?v = "run (open_statements (Suc 0)) ?W"
  let ?e = "barrier_entry OpenBefore OpenAfter (Suc 0) ?v"
  show "state (instances ?W 0) = OPENING"
    by (simp add: Remodal_open_state opening_fade(1))
  show c: "state (instances ?W (Suc 0)) = CLOSED"
    by (simp add: Remodal_open_state)
  show "current ?W = Some 0"
    by (simp add: Remodal_open_current)
  show "length (lookup ?W) = 2"
    by simp
  have s: "surfaces ?v (Suc 0) = [10, 13, 15, 12]"
    by simp
  have "animating (elems ?e) 12"
    by (simp add: animating_def barrier_entry_open_classes s)
  then have "\<exists>e \<in> set (surfaces ?e (Suc 0)). animating (elems ?e) e"
    by (simp add: s)
  then have "\<not> no_animation ?e (Suc 0)"
    by (simp add: fade_css_no_animation)
  then show "state (instances (Remodal_open (Suc 0) ?W) (Suc 0)) = OPENING"
    using c by (simp add: Remodal_open_state)
qed

lemma reachable_two_dialogs: "reachable_in_turn (two_dialogs css)"
proof -
  have "reachable_in_turn (empty_page css)"
    by (rule reachable_in_turn.loaded) simp_all
  then have "reachable_in_turn (snd (Remodal_constructor 11 None (empty_page css)))"
    by (rule reachable_in_turn.constructed) simp
  then show ?thesis
    unfolding two_dialogs_def
    by (rule reachable_in_turn.constructed) (simp add: one_dialog_fields)
qed

lemma reentrant_open:
  "state (instances (Remodal_open_notifying second_on_opening 0 (two_dialogs no_css)) 0) = OPENED"
  "state (instances (Remodal_open_notifying second_on_opening 0 (two_dialogs no_css)) (Suc 0)) = OPENED"
  "lookup (Remodal_open_notifying second_on_opening 0 (two_dialogs no_css)) = [Some 0, Some 1]"
proof -
  let ?v = "run (open_statements 0) (two_dialogs no_css)"
  let ?e = "barrier_entry OpenBefore OpenAfter 0 ?v"
  let ?w1 = "Remodal_open (Suc 0) ?e"
  let ?d = "run_action OpenAfter 0 (detach_handlers 0 ?w1)"
  have names: "state_name (action_state OpenBefore) = ''opening''"
    "state_name (action_state OpenAfter) = ''opened''"
    by (simp_all add: action_state_def)
  have before: "run_action_notifying second_on_opening OpenBefore 0
        (attach_handlers (next_closure ?v) 0 (new_closure OpenAfter 0 ?v)) = ?w1"
    by (simp add: run_action_notifying_def names second_on_opening_def barrier_entry_def)
  have na: "no_animation ?w1 0"
    by (rule no_css_no_animation) simp
  have after: "run_action_notifying second_on_opening OpenAfter 0 (detach_handlers 0 ?w1) = ?d"
    by (simp add: run_action_notifying_def names second_on_opening_def)
  have g: "\<not> (state (instances (two_dialogs no_css) 0) = OPENING
            \<or> state (instances (two_dialogs no_css) 0) = CLOSING)"
    by simp
  have all: "Remodal_open_notifying second_on_opening 0 (two_dialogs no_css) = ?d"
    by (simp only: Remodal_open_notifying_def g if_False syncWithAnimation_notifying_def Let_def
        before na if_True after)
  have e: "state (instances ?e (Suc 0)) = CLOSED" "current ?e = Some 0"
    by (simp_all add: barrier_entry_state open_statements_state open_statements_current)
  have n1: "no_animation (barrier_entry OpenBefore OpenAfter (Suc 0) (run (open_statements (Suc 0)) ?e))
      (Suc 0)"
    by (rule no_css_no_animation) simp
  have s1: "state (instances ?w1 (Suc 0)) = OPENED"
    using e by (simp add: Remodal_open_state n1)
  show "state (instances (Remodal_open_notifying second_on_opening 0 (two_dialogs no_css)) 0) = OPENED"
    by (simp add: all run_action_state action_state_def)
  show "state (instances (Remodal_open_notifying second_on_opening 0 (two_dialogs no_css)) (Suc 0))
      = OPENED"
    by (simp add: all run_action_state s1)
  show "lookup (Remodal_open_notifying second_on_opening 0 (two_dialogs no_css)) = [Some 0, Some 1]"
    by (simp add: all)
qed

lemma reentrant_midway:
  "state (instances (barrier_entry OpenBefore OpenAfter 0
      (run (open_statements 0) (two_dialogs no_css))) 0) = OPENING"
  "state (instances (Remodal_open (Suc 0) (barrier_entry OpenBefore OpenAfter 0
      (run (open_statements 0) (two_dialogs no_css)))) 0) = CLOSED"
proof -
  let ?v = "run (open_statements 0) (two_dialogs no_css)"
  let ?e = "barrier_entry OpenBefore OpenAfter 0 ?v"
  show "state (instances ?e 0) = OPENING"
    by (simp add: barrier_entry_state action_state_def)
  have e: "state (instances ?e (Suc 0)) = CLOSED" "current ?e = Some 0"
    by (simp_all add: barrier_entry_state open_statements_state open_statements_current)
  show "state (instances (Remodal_open (Suc 0) ?e) 0) = CLOSED"
    using e by (simp add: Remodal_open_state)
qed

section \<open>The claims\<close>

text \<open>
  C9. (the key \<open>__proto__\<close>). The token \<open>__proto__:1\<close> is a key and a value that
  parses as a number, and the parsed object has no pair for it: the assignment goes to the
  setter the object inherits, which drops a number. A second token of the same string is
  stored as usual.
\<close>

theorem proto_token_stores_nothing:
  "token_pair ''__proto__:1'' = (''__proto__'', VNum (Double 1))
   \<and> parseOptions ''__proto__:1'' ''__proto__'' = None
   \<and> dom (parseOptions ''__proto__:1'') = {}
   \<and> dom (parseOptions ''__proto__:1,limit:1e400'') = {''limit''}"
  by (simp add: example_pairs parsed_examples)

text \<open>
  C9. For every options string, the spaces around the colons and commas are removed (a
  white-space character goes exactly when the nearest other character before or behind it
  is a colon or a comma), the rest is cut at the commas into tokens (joined by commas
  they give the text back, and none holds a comma), and the parsed object is the map
  built from the pairs of the tokens whose key is not \<open>__proto__\<close>, a later token
  overriding an earlier one with the same key. The pair of a token \<open>key:value\<close> is the
  text before the first colon and the value coerced as the specification says: the boolean
  exactly when the text is \<open>true\<close> or \<open>false\<close>, otherwise the number when the text
  converts to one, otherwise the text. The examples of the specification evaluate as
  stated; spaces inside a value stay, and a numeral beyond the doubles is the infinity.
\<close>

theorem parseOptions_coercion:
  "parseOptions str =
     map_of (rev (filter (\<lambda>p. fst p \<noteq> ''__proto__'')
       (map token_pair (split '','' (strip_around is_delimiter [] str)))))
   \<and> normalise_delimiters str = strip_around is_delimiter [] str
   \<and> join '','' (split '','' s) = s
   \<and> list_all (\<lambda>t. CHR '','' \<notin> set t) (split '','' s)
   \<and> join '':'' (split '':'' s) = s
   \<and> list_all (\<lambda>t. CHR '':'' \<notin> set t) (split '':'' s)
   \<and> (coerce_spec v = VBool True) = (v = ''true'')
   \<and> (coerce_spec v = VBool False) = (v = ''false'')
   \<and> (coerce_spec v = VNum n) = (v \<noteq> ''true'' \<and> v \<noteq> ''false'' \<and> toNumber v = Some n)
   \<and> (coerce_spec v = VStr u) = (u = v \<and> v \<noteq> ''true'' \<and> v \<noteq> ''false'' \<and> toNumber v = None)
   \<and> parseOptions ''hashTracking:false,modifier:my-class''
       = [''hashTracking'' \<mapsto> VBool False, ''modifier'' \<mapsto> VStr ''my-class'']
   \<and> parseOptions ''appendTo:1'' = [''appendTo'' \<mapsto> VNum (Double 1)]
   \<and> parseOptions ''label:truefoo'' = [''label'' \<mapsto> VStr ''truefoo'']
   \<and> parseOptions ''hashTracking : false ,  modifier:my class''
       = [''hashTracking'' \<mapsto> VBool False, ''modifier'' \<mapsto> VStr ''my class'']
   \<and> parseOptions ''__proto__:1,limit:1e400'' = [''limit'' \<mapsto> VNum Infinity]
   \<and> toNumber ''0.1'' = Some (Double (3602879701896397 / 2 ^ 55))
   \<and> toNumber ''9007199254740993'' = Some (Double 9007199254740992)
   \<and> toNumber ''-1e-400'' = Some MinusZero"
proof -
  have gen: "parseOptions str =
     map_of (rev (filter (\<lambda>p. fst p \<noteq> ''__proto__'')
       (map token_pair (split '','' (strip_around is_delimiter [] str)))))"
    by (simp only: parseOptions_pairs normalise_delimiters_strip)
  have co: "(coerce_spec v = VNum n) = (v \<noteq> ''true'' \<and> v \<noteq> ''false'' \<and> toNumber v = Some n)"
    "(coerce_spec v = VStr u) = (u = v \<and> v \<noteq> ''true'' \<and> v \<noteq> ''false'' \<and> toNumber v = None)"
    by (auto simp: coerce_spec_def split: option.splits)
  show ?thesis
    using gen normalise_delimiters_strip [of str] split_pieces [of "CHR '',''" s]
      split_pieces [of "CHR '':''" s] coerce_spec_cases(1,2) [of v] co
      parsed_examples(1-5) number_examples(3,4,8)
    by (intro conjI) blast+
qed

text \<open>
  C2. \<open>open\<close> returns the page as it was exactly when the instance is opening or closing,
  and \<open>close\<close> exactly when it is opening, closing or closed (a call that passes the guard
  is seen in the log). On an opened instance \<open>open\<close> runs again in full: the wrapper is
  scrolled, the dialog is focused, \<open>opening\<close> is notified (and \<open>opened\<close> when nothing
  animates), the instance becomes current and the fragment is written as on a first
  opening. On an opened instance a second \<open>close\<close> right after the first changes nothing,
  and the two calls together notify \<open>closing\<close> once and \<open>closed\<close> at most once: at once
  when nothing animates, otherwise when the signals that follow complete the barrier.
\<close>

theorem open_close_guards:
  fixes w :: "'n world" and i :: inst_id and r1 r2 :: "STATE_CHANGE_REASONS option"
    and sgs :: "signal list"
  defines "m \<equiv> modal (instances w i)"
  defines "reopened \<equiv> no_animation (barrier_entry OpenBefore OpenAfter i (run (open_statements i) w)) i"
  defines "closed_at_once \<equiv>
     no_animation (barrier_entry (CloseBefore r1) (CloseAfter r1) i (close_clear_hash i w)) i"
  shows "((Remodal_open i w = w)
            = (state (instances w i) = OPENING \<or> state (instances w i) = CLOSING))
    \<and> ((Remodal_close i r1 w = w)
            = (state (instances w i) = OPENING \<or> state (instances w i) = CLOSING
               \<or> state (instances w i) = CLOSED))
    \<and> (state (instances w i) = OPENED \<longrightarrow>
          event_log (Remodal_open i w) =
            event_log w @ [ElementScrollTo (wrapper (instances w i)) 0 0, Focus m,
                           Event m ''opening'' None]
              @ (if reopened then [Event m ''opened'' None] else [])
          \<and> state (instances (Remodal_open i w) i) = (if reopened then OPENED else OPENING)
          \<and> current (Remodal_open i w) = Some i
          \<and> location_hash (Remodal_open i w) =
              (case data_remodal_id (elems w m) of
                 None \<Rightarrow> location_hash w
               | Some ident \<Rightarrow> if ident \<noteq> [] \<and> hashTracking (the_settings w i)
                                then assign_hash ident else location_hash w))
    \<and> (state (instances w i) = OPENED \<longrightarrow>
          Remodal_close i r2 (Remodal_close i r1 w) = Remodal_close i r1 w
          \<and> event_log (Remodal_close i r1 w) =
              event_log w @ [Event m ''closing'' r1]
                @ (if closed_at_once then [Event m ''closed'' r1] else [])
          \<and> (quiet w \<longrightarrow>
               event_log (fold dispatchEvent sgs (Remodal_close i r2 (Remodal_close i r1 w))) =
                 event_log w @ [Event m ''closing'' r1]
                   @ (if closed_at_once \<or> zero_reached (Remodal_close i r1 w) i sgs
                      then [Event m ''closed'' r1] else [])))"
proof (intro conjI impI)
  show "(Remodal_open i w = w)
            = (state (instances w i) = OPENING \<or> state (instances w i) = CLOSING)"
  proof
    assume same: "Remodal_open i w = w"
    show "state (instances w i) = OPENING \<or> state (instances w i) = CLOSING"
    proof (rule ccontr)
      assume "\<not> (state (instances w i) = OPENING \<or> state (instances w i) = CLOSING)"
      then have "event_log (Remodal_open i w) \<noteq> event_log w"
        by (simp add: Remodal_open_event_log)
      with same show False by simp
    qed
  next
    assume "state (instances w i) = OPENING \<or> state (instances w i) = CLOSING"
    then show "Remodal_open i w = w"
      by (auto simp: Remodal_open_def)
  qed
next
  show "(Remodal_close i r1 w = w)
            = (state (instances w i) = OPENING \<or> state (instances w i) = CLOSING
               \<or> state (instances w i) = CLOSED)"
  proof
    assume same: "Remodal_close i r1 w = w"
    show "state (instances w i) = OPENING \<or> state (instances w i) = CLOSING
               \<or> state (instances w i) = CLOSED"
    proof (rule ccontr)
      assume "\<not> (state (instances w i) = OPENING \<or> state (instances w i) = CLOSING
               \<or> state (instances w i) = CLOSED)"
      then have "state (instances w i) = OPENED"
        by (cases "state (instances w i)") simp_all
      then have "event_log (Remodal_close i r1 w) \<noteq> event_log w"
        by (simp add: Remodal_close_event_log)
      with same show False by simp
    qed
  next
    assume "state (instances w i) = OPENING \<or> state (instances w i) = CLOSING
               \<or> state (instances w i) = CLOSED"
    then show "Remodal_close i r1 w = w"
      by (auto simp: Remodal_close_def)
  qed
next
  assume st: "state (instances w i) = OPENED"
  show "event_log (Remodal_open i w) =
            event_log w @ [ElementScrollTo (wrapper (instances w i)) 0 0, Focus m,
                           Event m ''opening'' None]
              @ (if reopened then [Event m ''opened'' None] else [])"
    using st by (simp add: Remodal_open_event_log m_def reopened_def)
  show "state (instances (Remodal_open i w) i) = (if reopened then OPENED else OPENING)"
    using st by (simp add: Remodal_open_state reopened_def)
  show "current (Remodal_open i w) = Some i"
    using st by (simp add: Remodal_open_def open_statements_current)
  show "location_hash (Remodal_open i w) =
              (case data_remodal_id (elems w m) of
                 None \<Rightarrow> location_hash w
               | Some ident \<Rightarrow> if ident \<noteq> [] \<and> hashTracking (the_settings w i)
                                then assign_hash ident else location_hash w)"
    using st
    by (simp add: Remodal_open_def open_statements_hash open_record_scroll_def m_def
        split: option.splits)
next
  assume st: "state (instances w i) = OPENED"
  have after: "state (instances (Remodal_close i r1 w) i) \<noteq> OPENED"
    using st by (simp add: Remodal_close_state)
  then show twice: "Remodal_close i r2 (Remodal_close i r1 w) = Remodal_close i r1 w"
    by (cases "state (instances (Remodal_close i r1 w) i)") (simp_all add: Remodal_close_def [of i r2])
  show "event_log (Remodal_close i r1 w) =
              event_log w @ [Event m ''closing'' r1]
                @ (if closed_at_once then [Event m ''closed'' r1] else [])"
    using st by (simp add: Remodal_close_event_log m_def closed_at_once_def)
  assume q: "quiet w"
  let ?v = "close_clear_hash i w"
  have c: "Remodal_close i r1 w = syncWithAnimation (CloseBefore r1) (CloseAfter r1) i ?v"
    using st by (simp add: Remodal_close_def)
  have qv: "quiet ?v" using q by simp
  have ev: "action_event (CloseBefore r1) i ?v = Event m ''closing'' r1"
    "action_event (CloseAfter r1) i ?v = Event m ''closed'' r1"
    by (simp_all add: action_event_def m_def)
  show "event_log (fold dispatchEvent sgs (Remodal_close i r2 (Remodal_close i r1 w))) =
                 event_log w @ [Event m ''closing'' r1]
                   @ (if closed_at_once \<or> zero_reached (Remodal_close i r1 w) i sgs
                      then [Event m ''closed'' r1] else [])"
  proof (cases closed_at_once)
    case True
    then have "no_animation (barrier_entry (CloseBefore r1) (CloseAfter r1) i ?v) i"
      by (simp add: closed_at_once_def)
    from immediate_event_log [OF qv this] True show ?thesis
      by (simp add: twice c [symmetric] ev)
  next
    case False
    then have "\<not> no_animation (barrier_entry (CloseBefore r1) (CloseAfter r1) i ?v) i"
      by (simp add: closed_at_once_def)
    from pending_event_log [OF qv this] False show ?thesis
      by (simp add: twice c [symmetric] ev)
  qed
qed

theorem open_close_guards_witness:
  "state (instances (Remodal_open 0 (two_dialogs no_css)) 0) = OPENED
   \<and> quiet (Remodal_open 0 (two_dialogs no_css))
   \<and> Remodal_close 0 None (Remodal_close 0 None (Remodal_open 0 (two_dialogs no_css)))
       = Remodal_close 0 None (Remodal_open 0 (two_dialogs no_css))
   \<and> event_log (fold dispatchEvent []
        (Remodal_close 0 None (Remodal_close 0 None (Remodal_open 0 (two_dialogs no_css))))) =
       [ElementScrollTo 14 0 0, Focus 11, Event 11 ''opening'' None, Event 11 ''opened'' None,
        Event 11 ''closing'' None, Event 11 ''closed'' None]"
proof -
  let ?w = "Remodal_open 0 (two_dialogs no_css)"
  have na: "no_animation (barrier_entry (CloseBefore None) (CloseAfter None) 0 (close_clear_hash 0 ?w)) 0"
    by (rule no_css_no_animation) simp
  have m: "modal (instances ?w 0) = 11"
    by simp
  show ?thesis
    using open_close_guards [of 0 ?w None None "[]"] opened_no_css na m
    by simp
qed

text \<open>
  C6. (what the code does at the failing input). The page is scrolled down by 300 pixels
  when the first dialog is opened: \<open>open\<close> records 300 in \<open>scrollTop\<close> and writes the
  fragment. Closing that dialog, with the fragment still its identifier, clears the
  fragment and scrolls the page to the origin; the recorded offset is not read.
\<close>

theorem close_scrolls_to_origin:
  "scrollY (two_dialogs no_css) = 300
   \<and> scrollTop (Remodal_open 0 (two_dialogs no_css)) = Some 300
   \<and> state (instances (Remodal_open 0 (two_dialogs no_css)) 0) = OPENED
   \<and> hashTracking (the_settings (Remodal_open 0 (two_dialogs no_css)) 0)
   \<and> data_remodal_id (elems (Remodal_open 0 (two_dialogs no_css))
        (modal (instances (Remodal_open 0 (two_dialogs no_css)) 0))) = Some ''first''
   \<and> location_hash (Remodal_open 0 (two_dialogs no_css)) = ''first''
   \<and> scrollY (Remodal_open 0 (two_dialogs no_css)) = 300
   \<and> location_hash (Remodal_close 0 None (Remodal_open 0 (two_dialogs no_css))) = []
   \<and> scrollTop (Remodal_close 0 None (Remodal_open 0 (two_dialogs no_css))) = Some 300
   \<and> scrollY (Remodal_close 0 None (Remodal_open 0 (two_dialogs no_css))) = 0"
proof -
  let ?w = "two_dialogs no_css"
  let ?v = "Remodal_open 0 ?w"
  have o: "location_hash ?v = ''first''" "scrollTop ?v = Some 300"
    by (simp_all add: Remodal_open_hash open_record_scroll_def default_settings_def assign_hash_def)
  have s: "state (instances ?v 0) = OPENED"
    by (rule opened_no_css)
  have h: "hashTracking (the_settings ?v 0)"
    by (simp add: default_settings_def)
  have c: "location_hash (Remodal_close 0 None ?v) = []" "scrollY (Remodal_close 0 None ?v) = 0"
    by (simp_all add: Remodal_close_hash [OF s] close_clear_hash_def o default_settings_def)
  show ?thesis
    using o s h c by simp
qed

text \<open>
  C7. (what the code does at the failing inputs). On a page that is not a mobile platform
  and whose root element does not carry the marker, \<open>lock\<close> changes nothing: the marker
  is not applied and the padding is not changed, and the marker is still absent after a
  dialog was opened. On a page whose root element carries the marker, each \<open>lock\<close>
  subtracts the width of the scroll bar again.
\<close>

theorem lock_gated_on_marker_present:
  "IS_IOS (browser (empty_page no_css)) = False
   \<and> hasClass (html_classList (empty_page no_css)) (namespacify [''is-locked'']) = False
   \<and> scrollbar_width (empty_page no_css) = 15
   \<and> screenLockToggle ''lock'' (empty_page no_css) = empty_page no_css
   \<and> html_classList (Remodal_open 0 (two_dialogs no_css)) = []
   \<and> hasClass (html_classList locked_page) (namespacify [''is-locked'']) = True
   \<and> body_padding_right locked_page = 0
   \<and> body_padding_right (screenLockToggle ''lock'' locked_page) = - 15
   \<and> body_padding_right (screenLockToggle ''lock'' (screenLockToggle ''lock'' locked_page)) = - 30
   \<and> html_classList (screenLockToggle ''lock'' (screenLockToggle ''lock'' locked_page))
       = [''remodal-is-locked'']"
proof -
  have u: "\<not> hasClass (html_classList (empty_page no_css)) (namespacify [''is-locked''])"
    by (simp add: hasClass_def)
  have u2: "\<not> hasClass (html_classList (two_dialogs no_css)) (namespacify [''is-locked''])"
    by (simp add: hasClass_def)
  have p: "IS_IOS (browser locked_page) = False" "scrollbar_width locked_page = 15"
    "html_classList locked_page = [''remodal-is-locked'']" "body_padding_right locked_page = 0"
    by (simp_all add: locked_page_def exact_browser_def)
  have l: "html_classList (screenLockToggle ''lock'' locked_page) = [''remodal-is-locked'']"
    "body_padding_right (screenLockToggle ''lock'' locked_page) = - 15"
    by (simp_all add: screenLockToggle_def p locked_class hasClass_def
        add_tokens_def locked_tokens classList_add_def)
  have l2: "html_classList (screenLockToggle ''lock'' (screenLockToggle ''lock'' locked_page))
              = [''remodal-is-locked'']"
    "body_padding_right (screenLockToggle ''lock'' (screenLockToggle ''lock'' locked_page)) = - 30"
    by (simp_all add: screenLockToggle_def [of _ "screenLockToggle ''lock'' locked_page"] l p
        locked_class hasClass_def add_tokens_def locked_tokens classList_add_def)
  show ?thesis
    using l l2 p screenLockToggle_unmarked [OF u] Remodal_open_html_unmarked [OF u2]
    by (simp add: exact_browser_def hasClass_def locked_class)
qed

text \<open>
  C10. The constructor writes the options a caller supplies into the object \<open>DEFAULTS\<close>
  itself, and the instance's settings are that object. After two constructions the
  settings of the later instance are the defaults overridden by the first caller's
  options and then by its own: a key the first caller supplied and the second did not
  has the first caller's value.
\<close>

theorem constructor_merges_into_DEFAULTS:
  fixes w :: "'n world" and m1 m2 :: elem_id and o1 :: options and o2 :: "options option"
  defines "w1 \<equiv> snd (Remodal_constructor m1 (Some o1) w)"
  defines "i2 \<equiv> fst (Remodal_constructor m2 o2 w1)"
  defines "w2 \<equiv> snd (Remodal_constructor m2 o2 w1)"
  shows "settings_store w1 (DEFAULTS w1) = assign_settings (settings_store w (DEFAULTS w)) o1
    \<and> DEFAULTS w1 = DEFAULTS w
    \<and> settings_ref (instances w1 (fst (Remodal_constructor m1 (Some o1) w))) = DEFAULTS w
    \<and> settings_ref (instances w2 i2) = DEFAULTS w
    \<and> the_settings w2 i2 =
        (case o2 of
           None \<Rightarrow> assign_settings (settings_store w (DEFAULTS w)) o1
         | Some s \<Rightarrow> assign_settings (assign_settings (settings_store w (DEFAULTS w)) o1) s)
    \<and> (\<forall>v. opt_hashTracking o1 = Some v \<longrightarrow> supplied o2 opt_hashTracking = None
          \<longrightarrow> hashTracking (the_settings w2 i2) = v)
    \<and> (\<forall>v. opt_closeOnConfirm o1 = Some v \<longrightarrow> supplied o2 opt_closeOnConfirm = None
          \<longrightarrow> closeOnConfirm (the_settings w2 i2) = v)
    \<and> (\<forall>v. opt_closeOnCancel o1 = Some v \<longrightarrow> supplied o2 opt_closeOnCancel = None
          \<longrightarrow> closeOnCancel (the_settings w2 i2) = v)
    \<and> (\<forall>v. opt_closeOnEscape o1 = Some v \<longrightarrow> supplied o2 opt_closeOnEscape = None
          \<longrightarrow> closeOnEscape (the_settings w2 i2) = v)
    \<and> (\<forall>v. opt_closeOnOutsideClick o1 = Some v \<longrightarrow> supplied o2 opt_closeOnOutsideClick = None
          \<longrightarrow> closeOnOutsideClick (the_settings w2 i2) = v)
    \<and> (\<forall>v. opt_modifier o1 = Some v \<longrightarrow> supplied o2 opt_modifier = None
          \<longrightarrow> modifier (the_settings w2 i2) = v)
    \<and> (\<forall>v. opt_appendTo o1 = Some v \<longrightarrow> supplied o2 opt_appendTo = None
          \<longrightarrow> appendTo (the_settings w2 i2) = v)"
proof -
  have d1: "DEFAULTS w1 = DEFAULTS w"
    by (simp add: w1_def constructor_fields)
  have s1: "settings_store w1 (DEFAULTS w1) = assign_settings (settings_store w (DEFAULTS w)) o1"
    by (simp add: w1_def constructor_fields)
  have r1: "settings_ref (instances w1 (fst (Remodal_constructor m1 (Some o1) w))) = DEFAULTS w"
    by (simp add: w1_def constructor_fields)
  have r2: "settings_ref (instances w2 i2) = DEFAULTS w"
    by (simp add: w2_def i2_def constructor_fields d1)
  have s2: "the_settings w2 i2 =
        (case o2 of
           None \<Rightarrow> assign_settings (settings_store w (DEFAULTS w)) o1
         | Some s \<Rightarrow> assign_settings (assign_settings (settings_store w (DEFAULTS w)) o1) s)"
    unfolding the_settings_def r2
    by (simp add: w2_def constructor_fields d1 s1 [unfolded d1] split: option.splits)
  show ?thesis
    unfolding s2
    by (intro conjI s1 d1 r1 r2 refl)
       (auto simp: supplied_def assign_settings_def split: option.splits)
qed

theorem constructor_merges_into_DEFAULTS_witness:
  "opt_hashTracking all_options = Some False \<and> supplied None opt_hashTracking = None
   \<and> opt_closeOnConfirm all_options = Some False \<and> supplied None opt_closeOnConfirm = None
   \<and> opt_closeOnCancel all_options = Some False \<and> supplied None opt_closeOnCancel = None
   \<and> opt_closeOnEscape all_options = Some False \<and> supplied None opt_closeOnEscape = None
   \<and> opt_closeOnOutsideClick all_options = Some False \<and> supplied None opt_closeOnOutsideClick = None
   \<and> opt_modifier all_options = Some ''fancy'' \<and> supplied None opt_modifier = None
   \<and> opt_appendTo all_options = Some (Some 0) \<and> supplied None opt_appendTo = None
   \<and> settings_store (empty_page no_css) (DEFAULTS (empty_page no_css)) = default_settings
   \<and> the_settings
        (snd (Remodal_constructor 12 None (snd (Remodal_constructor 11 (Some all_options) (empty_page no_css)))))
        (fst (Remodal_constructor 12 None (snd (Remodal_constructor 11 (Some all_options) (empty_page no_css)))))
      = \<lparr>hashTracking = False, closeOnConfirm = False, closeOnCancel = False, closeOnEscape = False,
         closeOnOutsideClick = False, modifier = ''fancy'', appendTo = Some 0\<rparr>
   \<and> the_settings
        (snd (Remodal_constructor 12 None (snd (Remodal_constructor 11 (Some all_options) (empty_page no_css)))))
        (fst (Remodal_constructor 12 None (snd (Remodal_constructor 11 (Some all_options) (empty_page no_css)))))
      \<noteq> default_settings"
proof -
  have a: "assign_settings default_settings all_options =
      \<lparr>hashTracking = False, closeOnConfirm = False, closeOnCancel = False, closeOnEscape = False,
         closeOnOutsideClick = False, modifier = ''fancy'', appendTo = Some 0\<rparr>"
    by (simp add: assign_settings_def all_options_def)
  have n: "\<lparr>hashTracking = False, closeOnConfirm = False, closeOnCancel = False, closeOnEscape = False,
         closeOnOutsideClick = False, modifier = ''fancy'', appendTo = Some 0\<rparr> \<noteq> default_settings"
    by (simp add: default_settings_def)
  have o: "opt_hashTracking all_options = Some False" "opt_closeOnConfirm all_options = Some False"
    "opt_closeOnCancel all_options = Some False" "opt_closeOnEscape all_options = Some False"
    "opt_closeOnOutsideClick all_options = Some False" "opt_modifier all_options = Some ''fancy''"
    "opt_appendTo all_options = Some (Some 0)"
    by (simp_all add: all_options_def)
  show ?thesis
    using constructor_merges_into_DEFAULTS [of 11 all_options "empty_page no_css" 12 None] a n o
    by (simp add: supplied_def)
qed

text \<open>
  C4. A barrier entered on a page without pending handlers, whose four surfaces all have
  the computed duration 0 right after the before-action, takes the handlers off again and
  runs the after-action before it returns: the page is left without handlers, the
  notification of the after-action follows that of the before-action, and the instance is
  in the state the after-action sets. So \<open>open\<close> returns in state opened and \<open>close\<close> in
  state closed, both notifications sent. The duration of a surface is 0 when the animation
  name is \<open>none\<close>; otherwise it is the greatest of the numbers duration times iteration
  count plus delay over the comma-separated entries of the duration, where the duration
  style (and the name) is the one of the last vendor prefix that has a non-empty style:
  with exact numbers no entry is greater than the result, and the result is one of the
  entries unless none of them exceeds minus infinity.
\<close>

theorem zero_durations_complete_at_once:
  fixes w :: "'n world"
  assumes "quiet w"
  shows
  "(no_animation (barrier_entry b a i w) i \<longrightarrow>
      syncWithAnimation b a i w = run_action a i (detach_handlers i (barrier_entry b a i w))
      \<and> quiet (syncWithAnimation b a i w)
      \<and> event_log (syncWithAnimation b a i w) = event_log w @ [action_event b i w, action_event a i w]
      \<and> state (instances (syncWithAnimation b a i w) i) = action_state a)
   \<and> (state (instances w i) \<notin> {OPENING, CLOSING}
       \<and> no_animation (barrier_entry OpenBefore OpenAfter i (run (open_statements i) w)) i \<longrightarrow>
      state (instances (Remodal_open i w) i) = OPENED
      \<and> quiet (Remodal_open i w)
      \<and> event_log (Remodal_open i w) =
          event_log w @
          [ElementScrollTo (wrapper (instances w i)) 0 0, Focus (modal (instances w i)),
           Event (modal (instances w i)) ''opening'' None,
           Event (modal (instances w i)) ''opened'' None])
   \<and> (state (instances w i) = OPENED
       \<and> no_animation (barrier_entry (CloseBefore r) (CloseAfter r) i (close_clear_hash i w)) i \<longrightarrow>
      state (instances (Remodal_close i r w) i) = CLOSED
      \<and> quiet (Remodal_close i r w)
      \<and> event_log (Remodal_close i r w) =
          event_log w @
          [Event (modal (instances w i)) ''closing'' r, Event (modal (instances w i)) ''closed'' r])
   \<and> no_animation w i =
       (\<forall>e \<in> set (surfaces w i).
          num_strict_equal (browser w) (getAnimationDuration w e) (num_zero (browser w)))
   \<and> getAnimationDuration w e =
       (if IS_ANIMATION (browser w) \<and> getPrefixedStyles w e ''animation-name'' = Some ''none''
        then num_zero (browser w)
        else greatest (num_greater (browser w)) (animation_terms w e) (NEGATIVE_INFINITY (browser w)))
   \<and> getPrefixedStyles w e s =
       (case filter (\<lambda>p. getStyle w e (p @ s) \<noteq> []) (rev prefixes) of
          [] \<Rightarrow> None | p # ps \<Rightarrow> Some (getStyle w e (p @ s)))
   \<and> (\<forall>t \<in> set ts. \<not> exact_greater t (greatest exact_greater ts (Some NegInfinity)))
   \<and> (greatest exact_greater ts (Some NegInfinity) \<in> set ts
       \<or> greatest exact_greater ts (Some NegInfinity) = Some NegInfinity)"
proof -
  have sync: "no_animation (barrier_entry b a i w) i \<longrightarrow>
      syncWithAnimation b a i w = run_action a i (detach_handlers i (barrier_entry b a i w))
      \<and> quiet (syncWithAnimation b a i w)
      \<and> event_log (syncWithAnimation b a i w) = event_log w @ [action_event b i w, action_event a i w]
      \<and> state (instances (syncWithAnimation b a i w) i) = action_state a"
    by (simp add: syncWithAnimation_immediate [symmetric] syncWithAnimation_quiet assms
        syncWithAnimation_event_log syncWithAnimation_state)
  have opn: "state (instances w i) \<notin> {OPENING, CLOSING}
       \<and> no_animation (barrier_entry OpenBefore OpenAfter i (run (open_statements i) w)) i \<longrightarrow>
      state (instances (Remodal_open i w) i) = OPENED
      \<and> quiet (Remodal_open i w)
      \<and> event_log (Remodal_open i w) =
          event_log w @
          [ElementScrollTo (wrapper (instances w i)) 0 0, Focus (modal (instances w i)),
           Event (modal (instances w i)) ''opening'' None,
           Event (modal (instances w i)) ''opened'' None]"
  proof (intro impI, elim conjE)
    assume s: "state (instances w i) \<notin> {OPENING, CLOSING}"
      and n: "no_animation (barrier_entry OpenBefore OpenAfter i (run (open_statements i) w)) i"
    have q: "quiet (Remodal_open i w)"
      using s by (simp add: Remodal_open_def syncWithAnimation_quiet quiet_open_statements assms n)
    show "state (instances (Remodal_open i w) i) = OPENED
      \<and> quiet (Remodal_open i w)
      \<and> event_log (Remodal_open i w) =
          event_log w @
          [ElementScrollTo (wrapper (instances w i)) 0 0, Focus (modal (instances w i)),
           Event (modal (instances w i)) ''opening'' None,
           Event (modal (instances w i)) ''opened'' None]"
      using s by (simp add: q Remodal_open_state Remodal_open_event_log n)
  qed
  have cls: "state (instances w i) = OPENED
       \<and> no_animation (barrier_entry (CloseBefore r) (CloseAfter r) i (close_clear_hash i w)) i \<longrightarrow>
      state (instances (Remodal_close i r w) i) = CLOSED
      \<and> quiet (Remodal_close i r w)
      \<and> event_log (Remodal_close i r w) =
          event_log w @
          [Event (modal (instances w i)) ''closing'' r, Event (modal (instances w i)) ''closed'' r]"
  proof (intro impI, elim conjE)
    assume s: "state (instances w i) = OPENED"
      and n: "no_animation (barrier_entry (CloseBefore r) (CloseAfter r) i (close_clear_hash i w)) i"
    have q: "quiet (Remodal_close i r w)"
      using s by (simp add: Remodal_close_def syncWithAnimation_quiet assms n)
    show "state (instances (Remodal_close i r w) i) = CLOSED
      \<and> quiet (Remodal_close i r w)
      \<and> event_log (Remodal_close i r w) =
          event_log w @
          [Event (modal (instances w i)) ''closing'' r, Event (modal (instances w i)) ''closed'' r]"
      using s by (simp add: q Remodal_close_state Remodal_close_event_log n)
  qed
  have probe: "no_animation w i =
       (\<forall>e \<in> set (surfaces w i).
          num_strict_equal (browser w) (getAnimationDuration w e) (num_zero (browser w)))"
    by (simp add: no_animation_def list_all_iff)
  have mx: "(\<forall>t \<in> set ts. \<not> exact_greater t (greatest exact_greater ts (Some NegInfinity)))
     \<and> (greatest exact_greater ts (Some NegInfinity) \<in> set ts
       \<or> greatest exact_greater ts (Some NegInfinity) = Some NegInfinity)"
    using greatest_exact [of "Some NegInfinity" ts] by simp
  show ?thesis
    using sync opn cls probe mx getAnimationDuration_greatest [of w e] getPrefixedStyles_last [of w e s]
    by (intro conjI) blast+
qed

theorem zero_durations_complete_at_once_witness:
  "quiet (two_dialogs no_css)
   \<and> state (instances (two_dialogs no_css) 0) = CLOSED
   \<and> no_animation (barrier_entry OpenBefore OpenAfter 0
        (run (open_statements 0) (two_dialogs no_css))) 0
   \<and> state (instances (Remodal_open 0 (two_dialogs no_css)) 0) = OPENED
   \<and> quiet (Remodal_open 0 (two_dialogs no_css))
   \<and> event_log (Remodal_open 0 (two_dialogs no_css)) =
        [ElementScrollTo 14 0 0, Focus 11, Event 11 ''opening'' None, Event 11 ''opened'' None]
   \<and> no_animation (barrier_entry (CloseBefore None) (CloseAfter None) 0
        (close_clear_hash 0 (Remodal_open 0 (two_dialogs no_css)))) 0
   \<and> state (instances (Remodal_close 0 None (Remodal_open 0 (two_dialogs no_css))) 0) = CLOSED
   \<and> quiet (Remodal_close 0 None (Remodal_open 0 (two_dialogs no_css)))
   \<and> event_log (Remodal_close 0 None (Remodal_open 0 (two_dialogs no_css))) =
        [ElementScrollTo 14 0 0, Focus 11, Event 11 ''opening'' None, Event 11 ''opened'' None,
         Event 11 ''closing'' None, Event 11 ''closed'' None]
   \<and> animation_terms (empty_page multi_css) 11 = [Some (Finite (3 / 5)), Some (Finite (3 / 2))]
   \<and> getAnimationDuration (empty_page multi_css) 11 = Some (Finite (3 / 2))"
proof -
  let ?w = "two_dialogs no_css"
  let ?o = "Remodal_open 0 ?w"
  have q: "quiet ?w"
    by (simp add: two_dialogs_fields)
  have n1: "no_animation (barrier_entry OpenBefore OpenAfter 0 (run (open_statements 0) ?w)) 0"
    by (rule no_css_no_animation) simp
  have n2: "no_animation (barrier_entry (CloseBefore None) (CloseAfter None) 0 (close_clear_hash 0 ?o)) 0"
    by (rule no_css_no_animation) simp
  have i: "modal (instances ?o 0) = 11"
    by simp
  have m: "browser (empty_page multi_css) = exact_browser multi_css"
    by (simp add: empty_page_fields)
  have qm: "quiet (empty_page multi_css)"
    by (simp add: empty_page_fields)
  have d: "getAnimationDuration (empty_page multi_css) 11 = Some (Finite (3 / 2))"
    using zero_durations_complete_at_once [OF qm, where e = 11]
    by (simp add: multi_css_terms [OF m] m exact_browser_def greatest_def)
  from zero_durations_complete_at_once [OF q, where b = OpenBefore and a = OpenAfter and i = 0]
       zero_durations_complete_at_once [OF opened_no_css(2), where i = 0 and r = None]
  show ?thesis
    using q n1 n2 i d multi_css_terms(3) [OF m] opened_no_css
    by simp
qed

text \<open>
  C1. (a run with a gap). The first dialog is opened with the animated style sheet, so the
  barrier is pending. The dialog element reports a start and its end, and after that the
  overlay reports a start and its end: all four signals qualify. The after-action has run
  on the second signal, the notification \<open>opened\<close> is in the log and the handlers are
  gone, before the later pair; that pair changes nothing.
\<close>

theorem after_action_before_a_later_end:
  "state (instances (Remodal_open 0 (two_dialogs fade_css)) 0) = OPENING
   \<and> qualifying_start (Remodal_open 0 (two_dialogs fade_css)) 0 (animation_signal ''animationstart'' 11)
   \<and> qualifying_end (Remodal_open 0 (two_dialogs fade_css)) 0 (animation_signal ''animationend'' 11)
   \<and> qualifying_start (Remodal_open 0 (two_dialogs fade_css)) 0 (animation_signal ''animationstart'' 13)
   \<and> qualifying_end (Remodal_open 0 (two_dialogs fade_css)) 0 (animation_signal ''animationend'' 13)
   \<and> event_log (fold dispatchEvent
         [animation_signal ''animationstart'' 11, animation_signal ''animationend'' 11]
         (Remodal_open 0 (two_dialogs fade_css))) =
       [ElementScrollTo 14 0 0, Focus 11, Event 11 ''opening'' None, Event 11 ''opened'' None]
   \<and> quiet (fold dispatchEvent
         [animation_signal ''animationstart'' 11, animation_signal ''animationend'' 11]
         (Remodal_open 0 (two_dialogs fade_css)))
   \<and> fold dispatchEvent
         [animation_signal ''animationstart'' 11, animation_signal ''animationend'' 11,
          animation_signal ''animationstart'' 13, animation_signal ''animationend'' 13]
         (Remodal_open 0 (two_dialogs fade_css)) =
       fold dispatchEvent
         [animation_signal ''animationstart'' 11, animation_signal ''animationend'' 11]
         (Remodal_open 0 (two_dialogs fade_css))"
proof -
  let ?w = "run (open_statements 0) (two_dialogs fade_css)"
  let ?W = "Remodal_open 0 (two_dialogs fade_css)"
  let ?two = "[animation_signal ''animationstart'' 11, animation_signal ''animationend'' 11]"
  let ?more = "[animation_signal ''animationstart'' 13, animation_signal ''animationend'' 13]"
  have W: "syncWithAnimation OpenBefore OpenAfter 0 ?w = ?W"
    by (rule opening_fade(3) [symmetric])
  have s: "surfaces ?W 0 = [10, 13, 14, 11]"
    by simp
  have st: "state (instances ?W 0) = OPENING"
    by (simp add: Remodal_open_state opening_fade(1))
  have z: "zero_reached ?W 0 ?two"
    by (simp add: zero_reached_crossing qualifying_start_def qualifying_end_def s
        start_types_def end_types_def)
  have lg: "event_log ?w @ [action_event OpenBefore 0 ?w] @ [action_event OpenAfter 0 ?w] =
        [ElementScrollTo 14 0 0, Focus 11, Event 11 ''opening'' None, Event 11 ''opened'' None]"
    by (simp add: opening_fade(5,7) action_event_def)
  have ev: "event_log (fold dispatchEvent ?two ?W) =
       [ElementScrollTo 14 0 0, Focus 11, Event 11 ''opening'' None, Event 11 ''opened'' None]"
    using pending_event_log [OF opening_fade(2) opening_fade(1), of ?two, unfolded W]
    by (simp only: z if_True lg)
  have q: "quiet (fold dispatchEvent ?two ?W)"
    using pending_outcome(3) [OF opening_fade(2) opening_fade(1), of ?two, unfolded W] z
    by blast
  have later: "fold dispatchEvent (?two @ ?more) ?W = fold dispatchEvent ?two ?W"
    by (simp only: fold_append comp_apply fold_dispatch_quiet [OF q])
  have qq: "qualifying_start ?W 0 (animation_signal ''animationstart'' 11)"
    "qualifying_end ?W 0 (animation_signal ''animationend'' 11)"
    "qualifying_start ?W 0 (animation_signal ''animationstart'' 13)"
    "qualifying_end ?W 0 (animation_signal ''animationend'' 13)"
    by (simp_all add: qualifying_start_def qualifying_end_def s start_types_def end_types_def)
  show ?thesis
    using st ev q qq later [simplified append.simps] by blast
qed

text \<open>
  C1. A barrier is entered on a page without pending handlers, and not every probe is 0:
  the handlers of its closure are on the four surfaces and its counter is 0. Whatever
  signals follow, the counter is the number of qualifying starts minus the number of
  qualifying ends (a signal that bubbles up from inside a surface has another target and
  does not qualify), and the after-action runs at most once: on the first qualifying end
  whose decrement makes the counter exactly zero. With that signal the handlers are taken
  off all four surfaces, the instance takes the state of the after-action, and no later
  signal has an effect; a start and an end that come after it are not waited for. While
  no end has made the counter zero, the handlers stay, the instance keeps the state of
  the before-action, and the after-action has not run.
\<close>

theorem after_action_at_first_zero:
  fixes w :: "'n world" and b a :: action and i :: inst_id and sgs more :: "signal list"
  assumes "quiet w" and "\<not> no_animation (barrier_entry b a i w) i"
  defines "w1 \<equiv> syncWithAnimation b a i w"
  shows
  "armed (next_closure w) i w1
   \<and> runningAnimationsCount (closures w1 (next_closure w)) = 0
   \<and> event_log (fold dispatchEvent sgs w1) =
       event_log w @ [action_event b i w] @ (if zero_reached w1 i sgs then [action_event a i w] else [])
   \<and> (zero_reached w1 i sgs \<longrightarrow>
        fold dispatchEvent sgs w1 = run_action a i (detach_handlers i w1)
        \<and> quiet (fold dispatchEvent sgs w1)
        \<and> state (instances (fold dispatchEvent sgs w1) i) = action_state a
        \<and> fold dispatchEvent (sgs @ more) w1 = fold dispatchEvent sgs w1)
   \<and> (\<not> zero_reached w1 i sgs \<longrightarrow>
        armed (next_closure w) i (fold dispatchEvent sgs w1)
        \<and> runningAnimationsCount (closures (fold dispatchEvent sgs w1) (next_closure w)) =
            net_count w1 i sgs
        \<and> state (instances (fold dispatchEvent sgs w1) i) = action_state b)
   \<and> zero_reached w1 i sgs = crossing w1 i 0 sgs"
proof -
  note out = pending_outcome [OF assms(1,2), folded w1_def]
  have run: "zero_reached w1 i sgs \<Longrightarrow> fold dispatchEvent sgs w1 = run_action a i (detach_handlers i w1)"
    using pending_barrier_run [OF assms(1,2), of sgs] by (simp add: w1_def)
  have later: "zero_reached w1 i sgs \<Longrightarrow> fold dispatchEvent (sgs @ more) w1 = fold dispatchEvent sgs w1"
    using out(3) by (simp only: fold_append comp_apply fold_dispatch_quiet)
  have ev: "event_log (fold dispatchEvent sgs w1) =
       event_log w @ [action_event b i w] @ (if zero_reached w1 i sgs then [action_event a i w] else [])"
    unfolding w1_def by (rule pending_event_log [OF assms(1,2)])
  show ?thesis
    using out run later ev zero_reached_crossing [of w1 i sgs] by (intro conjI impI) blast+
qed

theorem after_action_at_first_zero_witness:
  "quiet (run (open_statements 0) (two_dialogs fade_css))
   \<and> \<not> no_animation (barrier_entry OpenBefore OpenAfter 0
          (run (open_statements 0) (two_dialogs fade_css))) 0
   \<and> \<not> zero_reached (Remodal_open 0 (two_dialogs fade_css)) 0
         [animation_signal ''animationstart'' 11, animation_signal ''webkitAnimationStart'' 13,
          \<lparr>signal_type = ''animationend'', signal_target = 20, signal_ancestors = [11, 14]\<rparr>,
          animation_signal ''animationend'' 11]
   \<and> runningAnimationsCount (closures (fold dispatchEvent
         [animation_signal ''animationstart'' 11, animation_signal ''webkitAnimationStart'' 13,
          \<lparr>signal_type = ''animationend'', signal_target = 20, signal_ancestors = [11, 14]\<rparr>,
          animation_signal ''animationend'' 11]
         (Remodal_open 0 (two_dialogs fade_css))) 0) = 1
   \<and> event_log (fold dispatchEvent
         [animation_signal ''animationstart'' 11, animation_signal ''webkitAnimationStart'' 13,
          \<lparr>signal_type = ''animationend'', signal_target = 20, signal_ancestors = [11, 14]\<rparr>,
          animation_signal ''animationend'' 11]
         (Remodal_open 0 (two_dialogs fade_css))) =
       [ElementScrollTo 14 0 0, Focus 11, Event 11 ''opening'' None]
   \<and> zero_reached (Remodal_open 0 (two_dialogs fade_css)) 0
         [animation_signal ''animationstart'' 11, animation_signal ''webkitAnimationStart'' 13,
          \<lparr>signal_type = ''animationend'', signal_target = 20, signal_ancestors = [11, 14]\<rparr>,
          animation_signal ''animationend'' 11, animation_signal ''webkitAnimationEnd'' 13]
   \<and> event_log (fold dispatchEvent
         [animation_signal ''animationstart'' 11, animation_signal ''webkitAnimationStart'' 13,
          \<lparr>signal_type = ''animationend'', signal_target = 20, signal_ancestors = [11, 14]\<rparr>,
          animation_signal ''animationend'' 11, animation_signal ''webkitAnimationEnd'' 13]
         (Remodal_open 0 (two_dialogs fade_css))) =
       [ElementScrollTo 14 0 0, Focus 11, Event 11 ''opening'' None, Event 11 ''opened'' None]
   \<and> quiet (fold dispatchEvent
         [animation_signal ''animationstart'' 11, animation_signal ''webkitAnimationStart'' 13,
          \<lparr>signal_type = ''animationend'', signal_target = 20, signal_ancestors = [11, 14]\<rparr>,
          animation_signal ''animationend'' 11, animation_signal ''webkitAnimationEnd'' 13]
         (Remodal_open 0 (two_dialogs fade_css)))
   \<and> state (instances (fold dispatchEvent
         [animation_signal ''animationstart'' 11, animation_signal ''webkitAnimationStart'' 13,
          \<lparr>signal_type = ''animationend'', signal_target = 20, signal_ancestors = [11, 14]\<rparr>,
          animation_signal ''animationend'' 11, animation_signal ''webkitAnimationEnd'' 13]
         (Remodal_open 0 (two_dialogs fade_css))) 0) = OPENED"
proof -
  let ?w = "run (open_statements 0) (two_dialogs fade_css)"
  let ?W = "Remodal_open 0 (two_dialogs fade_css)"
  let ?four = "[animation_signal ''animationstart'' 11, animation_signal ''webkitAnimationStart'' 13,
          \<lparr>signal_type = ''animationend'', signal_target = 20, signal_ancestors = [11, 14]\<rparr>,
          animation_signal ''animationend'' 11]"
  let ?five = "[animation_signal ''animationstart'' 11, animation_signal ''webkitAnimationStart'' 13,
          \<lparr>signal_type = ''animationend'', signal_target = 20, signal_ancestors = [11, 14]\<rparr>,
          animation_signal ''animationend'' 11, animation_signal ''webkitAnimationEnd'' 13]"
  have W: "syncWithAnimation OpenBefore OpenAfter 0 ?w = ?W"
    by (rule opening_fade(3) [symmetric])
  have s: "surfaces ?W 0 = [10, 13, 14, 11]"
    by simp
  have z4: "\<not> zero_reached ?W 0 ?four"
    by (simp add: zero_reached_crossing qualifying_start_def qualifying_end_def s
        start_types_def end_types_def)
  have n4: "net_count ?W 0 ?four = 1"
    by (simp add: net_count_def qualifying_start_def qualifying_end_def s
        start_types_def end_types_def)
  have z5: "zero_reached ?W 0 ?five"
    by (simp add: zero_reached_crossing qualifying_start_def qualifying_end_def s
        start_types_def end_types_def)
  have lg: "event_log ?w @ [action_event OpenBefore 0 ?w] =
        [ElementScrollTo 14 0 0, Focus 11, Event 11 ''opening'' None]"
    "event_log ?w @ [action_event OpenBefore 0 ?w] @ [action_event OpenAfter 0 ?w] =
        [ElementScrollTo 14 0 0, Focus 11, Event 11 ''opening'' None, Event 11 ''opened'' None]"
    by (simp_all add: opening_fade(5,7) action_event_def)
  note t4 = after_action_at_first_zero [OF opening_fade(2) opening_fade(1), of ?four "[]",
      unfolded W opening_fade(4)]
  note t5 = after_action_at_first_zero [OF opening_fade(2) opening_fade(1), of ?five "[]",
      unfolded W opening_fade(4)]
  have k4: "runningAnimationsCount (closures (fold dispatchEvent ?four ?W) 0) = net_count ?W 0 ?four"
    using t4 z4 by blast
  have e4: "event_log (fold dispatchEvent ?four ?W) =
      event_log ?w @ [action_event OpenBefore 0 ?w] @
      (if zero_reached ?W 0 ?four then [action_event OpenAfter 0 ?w] else [])"
    using t4 by blast
  have e5: "event_log (fold dispatchEvent ?five ?W) =
      event_log ?w @ [action_event OpenBefore 0 ?w] @
      (if zero_reached ?W 0 ?five then [action_event OpenAfter 0 ?w] else [])"
    using t5 by blast
  have q5: "quiet (fold dispatchEvent ?five ?W)"
    and s5: "state (instances (fold dispatchEvent ?five ?W) 0) = action_state OpenAfter"
    using t5 z5 by blast+
  have a: "runningAnimationsCount (closures (fold dispatchEvent ?four ?W) 0) = 1"
    by (simp only: k4 n4)
  have b: "event_log (fold dispatchEvent ?four ?W) =
      [ElementScrollTo 14 0 0, Focus 11, Event 11 ''opening'' None]"
    by (simp only: e4 z4 if_False append_Nil2 lg)
  have c: "event_log (fold dispatchEvent ?five ?W) =
      [ElementScrollTo 14 0 0, Focus 11, Event 11 ''opening'' None, Event 11 ''opened'' None]"
    by (simp only: e5 z5 if_True lg)
  have d: "state (instances (fold dispatchEvent ?five ?W) 0) = OPENED"
    by (simp only: s5) (simp add: action_state_def)
  show ?thesis
    using opening_fade(1,2) z4 z5 a b c q5 d by blast
qed

text \<open>
  C5. (every probe 0). Without animations in the style sheet every surface has the
  duration 0 after the before-action, so \<open>open\<close> has taken the handlers off and run the
  after-action when it returns. A start signal of the dialog element that comes then
  reaches no handler: it is not counted and nothing waits for its end.
\<close>

theorem start_after_zero_probes_is_lost:
  "no_animation (barrier_entry OpenBefore OpenAfter 0
        (run (open_statements 0) (two_dialogs no_css))) 0
   \<and> state (instances (Remodal_open 0 (two_dialogs no_css)) 0) = OPENED
   \<and> event_log (Remodal_open 0 (two_dialogs no_css)) =
        [ElementScrollTo 14 0 0, Focus 11, Event 11 ''opening'' None, Event 11 ''opened'' None]
   \<and> qualifying_start (Remodal_open 0 (two_dialogs no_css)) 0 (animation_signal ''animationstart'' 11)
   \<and> dispatchEvent (animation_signal ''animationstart'' 11) (Remodal_open 0 (two_dialogs no_css)) =
        Remodal_open 0 (two_dialogs no_css)"
proof -
  have n: "no_animation (barrier_entry OpenBefore OpenAfter 0
        (run (open_statements 0) (two_dialogs no_css))) 0"
    by (rule no_css_no_animation) simp
  have s: "surfaces (Remodal_open 0 (two_dialogs no_css)) 0 = [10, 13, 14, 11]"
    by simp
  show ?thesis
    using n opened_no_css dispatchEvent_quiet [OF opened_no_css(2)]
    by (simp add: qualifying_start_def s start_types_def)
qed

text \<open>
  C5. A barrier is entered on a page without pending handlers. If not every probe is 0, a
  start signal of any surface is counted, whatever duration was probed for that surface:
  the counter becomes 1, and the after-action runs only when a qualifying end among the
  later signals makes the counter zero, so not before some end signal has come. If every
  probe is 0 the after-action has run at entry, the page has no handlers, and no signal
  has an effect.
\<close>

theorem start_counted_unless_all_probes_zero:
  fixes w :: "'n world" and b a :: action and i :: inst_id and sg :: signal and sgs :: "signal list"
  assumes "quiet w"
  defines "w1 \<equiv> syncWithAnimation b a i w"
  shows
  "(\<not> no_animation (barrier_entry b a i w) i \<and> qualifying_start w1 i sg \<longrightarrow>
      runningAnimationsCount (closures (dispatchEvent sg w1) (next_closure w)) = 1
      \<and> armed (next_closure w) i (dispatchEvent sg w1)
      \<and> event_log (dispatchEvent sg w1) = event_log w @ [action_event b i w]
      \<and> event_log (fold dispatchEvent (sg # sgs) w1) =
          event_log w @ [action_event b i w] @ (if crossing w1 i 1 sgs then [action_event a i w] else [])
      \<and> (crossing w1 i 1 sgs \<longrightarrow> (\<exists>e \<in> set sgs. qualifying_end w1 i e)))
   \<and> (no_animation (barrier_entry b a i w) i \<longrightarrow>
      quiet w1
      \<and> event_log w1 = event_log w @ [action_event b i w, action_event a i w]
      \<and> fold dispatchEvent (sg # sgs) w1 = w1)"
proof -
  have pending: "runningAnimationsCount (closures (dispatchEvent sg w1) (next_closure w)) = 1
      \<and> armed (next_closure w) i (dispatchEvent sg w1)
      \<and> event_log (dispatchEvent sg w1) = event_log w @ [action_event b i w]
      \<and> event_log (fold dispatchEvent (sg # sgs) w1) =
          event_log w @ [action_event b i w] @ (if crossing w1 i 1 sgs then [action_event a i w] else [])
      \<and> (crossing w1 i 1 sgs \<longrightarrow> (\<exists>e \<in> set sgs. qualifying_end w1 i e))"
    if p: "\<not> no_animation (barrier_entry b a i w) i" and qs: "qualifying_start w1 i sg"
  proof -
    note st = pending_after_start [OF assms(1) p qs [unfolded w1_def], folded w1_def]
    have ar: "armed (next_closure w) i w1"
      unfolding w1_def by (rule pending_outcome(1) [OF assms(1) p])
    have e1: "event_log w1 = event_log w @ [action_event b i w]"
      by (simp add: w1_def syncWithAnimation_event_log p)
    have e2: "event_log (fold dispatchEvent (sg # sgs) w1) =
          event_log w @ [action_event b i w] @ (if crossing w1 i 1 sgs then [action_event a i w] else [])"
      using pending_event_log [OF assms(1) p, of "sg # sgs"] st(1) [of sgs]
      by (simp only: w1_def [symmetric])
    show ?thesis
      using e2 crossing_needs_end [of w1 i 1 sgs] by (simp add: st(2) ar e1)
  qed
  have immediate: "quiet w1
      \<and> event_log w1 = event_log w @ [action_event b i w, action_event a i w]
      \<and> fold dispatchEvent (sg # sgs) w1 = w1"
    if n: "no_animation (barrier_entry b a i w) i"
  proof -
    have q: "quiet w1"
      unfolding w1_def by (rule syncWithAnimation_quiet [OF assms(1) n])
    show ?thesis
      using fold_dispatch_quiet [OF q, of "sg # sgs"]
      by (simp only: q) (simp add: w1_def syncWithAnimation_event_log n)
  qed
  show ?thesis
    using pending immediate by blast
qed

theorem start_counted_unless_all_probes_zero_witness:
  "quiet (run (open_statements 0) (two_dialogs fade_css))
   \<and> \<not> no_animation (barrier_entry OpenBefore OpenAfter 0
          (run (open_statements 0) (two_dialogs fade_css))) 0
   \<and> getAnimationDuration (Remodal_open 0 (two_dialogs fade_css)) 13 = Some (Finite 0)
   \<and> qualifying_start (Remodal_open 0 (two_dialogs fade_css)) 0 (animation_signal ''animationstart'' 13)
   \<and> runningAnimationsCount (closures
        (dispatchEvent (animation_signal ''animationstart'' 13)
           (Remodal_open 0 (two_dialogs fade_css))) 0) = 1
   \<and> event_log (dispatchEvent (animation_signal ''animationstart'' 13)
        (Remodal_open 0 (two_dialogs fade_css))) =
       [ElementScrollTo 14 0 0, Focus 11, Event 11 ''opening'' None]
   \<and> event_log (fold dispatchEvent
        [animation_signal ''animationstart'' 13, animation_signal ''animationend'' 13]
        (Remodal_open 0 (two_dialogs fade_css))) =
       [ElementScrollTo 14 0 0, Focus 11, Event 11 ''opening'' None, Event 11 ''opened'' None]
   \<and> quiet (run (open_statements 0) (two_dialogs no_css))
   \<and> no_animation (barrier_entry OpenBefore OpenAfter 0
        (run (open_statements 0) (two_dialogs no_css))) 0
   \<and> fold dispatchEvent
        [animation_signal ''animationstart'' 13, animation_signal ''animationend'' 13]
        (Remodal_open 0 (two_dialogs no_css)) = Remodal_open 0 (two_dialogs no_css)"
proof -
  let ?w = "run (open_statements 0) (two_dialogs fade_css)"
  let ?W = "Remodal_open 0 (two_dialogs fade_css)"
  let ?v = "run (open_statements 0) (two_dialogs no_css)"
  have W: "syncWithAnimation OpenBefore OpenAfter 0 ?w = ?W"
    by (rule opening_fade(3) [symmetric])
  have V: "syncWithAnimation OpenBefore OpenAfter 0 ?v = Remodal_open 0 (two_dialogs no_css)"
    by (simp add: Remodal_open_def)
  have s: "surfaces ?W 0 = [10, 13, 14, 11]"
    by simp
  have qv: "quiet ?v"
    by (simp add: quiet_open_statements)
  have nv: "no_animation (barrier_entry OpenBefore OpenAfter 0 ?v) 0"
    by (rule no_css_no_animation) simp
  have d: "getAnimationDuration ?W 13 = Some (Finite 0)"
    by (simp add: fade_css_duration animating_def)
  have qs: "qualifying_start ?W 0 (animation_signal ''animationstart'' 13)"
    by (simp add: qualifying_start_def s start_types_def)
  have ew: "event_log ?W = [ElementScrollTo 14 0 0, Focus 11, Event 11 ''opening'' None]"
    by (simp add: Remodal_open_event_log opening_fade(1))
  have qe: "qualifying_end ?W 0 (animation_signal ''animationend'' 13)"
    by (simp add: qualifying_end_def s end_types_def)
  have lg: "event_log ?w @ [action_event OpenBefore 0 ?w] =
        [ElementScrollTo 14 0 0, Focus 11, Event 11 ''opening'' None]"
    "event_log ?w @ [action_event OpenBefore 0 ?w] @ [action_event OpenAfter 0 ?w] =
        [ElementScrollTo 14 0 0, Focus 11, Event 11 ''opening'' None, Event 11 ''opened'' None]"
    by (simp_all add: opening_fade(5,7) action_event_def)
  have cr: "crossing ?W 0 1 [animation_signal ''animationend'' 13]"
    using qe by simp
  note t1 = start_counted_unless_all_probes_zero [OF opening_fade(2),
         of OpenBefore OpenAfter 0 "animation_signal ''animationstart'' 13"
            "[animation_signal ''animationend'' 13]", unfolded W opening_fade(4)]
  note t2 = start_counted_unless_all_probes_zero [OF qv,
         of OpenBefore OpenAfter 0 "animation_signal ''animationstart'' 13"
            "[animation_signal ''animationend'' 13]", unfolded V]
  have a: "runningAnimationsCount (closures
        (dispatchEvent (animation_signal ''animationstart'' 13) ?W) 0) = 1"
    using t1 opening_fade(1) qs by blast
  have b0: "event_log (dispatchEvent (animation_signal ''animationstart'' 13) ?W) =
       event_log ?w @ [action_event OpenBefore 0 ?w]"
    using t1 opening_fade(1) qs by blast
  have c0: "event_log (fold dispatchEvent
        [animation_signal ''animationstart'' 13, animation_signal ''animationend'' 13] ?W) =
       event_log ?w @ [action_event OpenBefore 0 ?w] @
       (if crossing ?W 0 1 [animation_signal ''animationend'' 13]
        then [action_event OpenAfter 0 ?w] else [])"
    using t1 opening_fade(1) qs by blast
  have b: "event_log (dispatchEvent (animation_signal ''animationstart'' 13) ?W) =
       [ElementScrollTo 14 0 0, Focus 11, Event 11 ''opening'' None]"
    by (simp only: b0 lg)
  have c: "event_log (fold dispatchEvent
        [animation_signal ''animationstart'' 13, animation_signal ''animationend'' 13] ?W) =
       [ElementScrollTo 14 0 0, Focus 11, Event 11 ''opening'' None, Event 11 ''opened'' None]"
    by (simp only: c0 cr if_True lg)
  have e: "fold dispatchEvent
        [animation_signal ''animationstart'' 13, animation_signal ''animationend'' 13]
        (Remodal_open 0 (two_dialogs no_css)) = Remodal_open 0 (two_dialogs no_css)"
    using t2 nv by blast
  show ?thesis
    using opening_fade(1,2) qv nv d qs a b c e by blast
qed



text \<open>
  C3. (a listener that opens the second dialog). The first dialog has a listener for its
  notification \<open>opening\<close> that calls \<open>open\<close> on the second instance, and nothing
  animates. \<open>open\<close> on the first instance sets it opening and notifies; the listener's
  call halts the first instance and opens the second; back in the barrier of the first
  call every probe is 0, so the after-action sets the first instance opened. When the
  call returns, both registered instances are opened.
\<close>

theorem listener_opens_second_dialog:
  "state (instances (barrier_entry OpenBefore OpenAfter 0
      (run (open_statements 0) (two_dialogs no_css))) 0) = OPENING
   \<and> state (instances (Remodal_open (Suc 0) (barrier_entry OpenBefore OpenAfter 0
      (run (open_statements 0) (two_dialogs no_css)))) 0) = CLOSED
   \<and> lookup (Remodal_open_notifying second_on_opening 0 (two_dialogs no_css)) = [Some 0, Some 1]
   \<and> state (instances (Remodal_open_notifying second_on_opening 0 (two_dialogs no_css)) 0) = OPENED
   \<and> state (instances (Remodal_open_notifying second_on_opening 0 (two_dialogs no_css)) (Suc 0))
       = OPENED"
  using reentrant_open reentrant_midway by blast

text \<open>
  C3. When \<open>open\<close> is called on an instance \<open>B\<close> that is not in a transition while
  \<open>current\<close> points to another instance \<open>A\<close>, the second statement of \<open>open\<close> is
  \<open>halt\<close> on \<open>A\<close>: from the state after it to the return \<open>A\<close> is closed, \<open>B\<close>
  keeps the state it had up to the entry of the barrier, and there it becomes opening. On
  every page that the library brings about by calls that run one after another, the
  states passed inside \<open>open\<close> and \<open>close\<close> included, at most one registered instance
  is not closed; so two instances are never opened or opening at the same time. These are
  the calls of a page on which no listener of a notification calls the library: without
  listeners \<open>open\<close> with notification is \<open>open\<close> as defined first.
\<close>

theorem one_instance_open_at_a_time:
  fixes w :: "'n world"
  shows
  "(reachable_in_turn w \<longrightarrow>
      (\<forall>i < length (lookup w). \<forall>j < length (lookup w).
          state (instances w i) \<noteq> CLOSED \<longrightarrow> state (instances w j) \<noteq> CLOSED \<longrightarrow> i = j)
      \<and> (\<forall>i < length (lookup w). \<forall>j < length (lookup w).
          state (instances w i) \<in> {OPENED, OPENING} \<longrightarrow>
          state (instances w j) \<in> {OPENED, OPENING} \<longrightarrow> i = j))
   \<and> (current w = Some A \<and> A \<noteq> B
       \<and> state (instances w B) \<noteq> OPENING \<and> state (instances w B) \<noteq> CLOSING \<longrightarrow>
      open_points B w ! 2 = halt A (open_points B w ! 1)
      \<and> (\<forall>p \<in> set (drop 2 (open_points B w)). state (instances p A) = CLOSED)
      \<and> (\<forall>p \<in> set (take 11 (open_points B w)). state (instances p B) = state (instances w B))
      \<and> state (instances (open_points B w ! 11) B) = OPENING
      \<and> last (open_points B w) = Remodal_open B w)
   \<and> Remodal_open_notifying (\<lambda>el name v. v) B w = Remodal_open B w"
proof (intro conjI impI)
  assume r: "reachable_in_turn w"
  have c: "coordinated w"
    by (rule reachable_coordinated [OF r])
  show one: "\<forall>i < length (lookup w). \<forall>j < length (lookup w).
          state (instances w i) \<noteq> CLOSED \<longrightarrow> state (instances w j) \<noteq> CLOSED \<longrightarrow> i = j"
    using coordinated_one_open [OF c] by blast
  show "\<forall>i < length (lookup w). \<forall>j < length (lookup w).
          state (instances w i) \<in> {OPENED, OPENING} \<longrightarrow>
          state (instances w j) \<in> {OPENED, OPENING} \<longrightarrow> i = j"
  proof (intro allI impI)
    fix i j
    assume "i < length (lookup w)" "j < length (lookup w)"
      "state (instances w i) \<in> {OPENED, OPENING}" "state (instances w j) \<in> {OPENED, OPENING}"
    then show "i = j"
      using coordinated_one_open [OF c, of i j] by auto
  qed
next
  assume a: "current w = Some A \<and> A \<noteq> B
       \<and> state (instances w B) \<noteq> OPENING \<and> state (instances w B) \<noteq> CLOSING"
  let ?w1 = "open_record_scroll B w"
  let ?w2 = "open_halt_current B ?w1"
  let ?rest = "points (drop 2 (open_statements B)) ?w2"
  let ?end = "run (open_statements B) w"
  let ?be = "barrier_entry OpenBefore OpenAfter B ?end"
  let ?fin = "syncWithAnimation OpenBefore OpenAfter B ?end"
  have pts: "open_points B w = w # ?w1 # ?rest @ [?be, ?fin]"
    by (rule open_points_unfold)
  have f1: "state (instances ?w1 j) = state (instances w j)" "current ?w1 = current w" for j
    by (simp_all add: open_record_scroll_def split: option.splits)
  have w2: "?w2 = halt A ?w1"
    using a by (simp add: open_halt_current_def f1)
  have s2: "state (instances ?w2 A) = CLOSED" "state (instances ?w2 B) = state (instances w B)"
    using a by (simp_all add: w2 halt_state f1)
  have se: "state (instances ?end j) = state (instances ?w2 j)" for j
    by (simp add: open_statements_state open_halt_current_state f1)
  show "open_points B w ! 2 = halt A (open_points B w ! 1)"
    by (simp add: pts points_first w2 nth_append length_rest_points)
  show "\<forall>p \<in> set (drop 2 (open_points B w)). state (instances p A) = CLOSED"
    using a s2 se
    by (auto simp: pts rest_points_state barrier_entry_state syncWithAnimation_state)
  show "\<forall>p \<in> set (take 11 (open_points B w)). state (instances p B) = state (instances w B)"
    using s2 by (auto simp: pts length_rest_points f1 rest_points_state)
  show "state (instances (open_points B w ! 11) B) = OPENING"
    by (simp add: pts nth_append length_rest_points barrier_entry_state action_state_def)
  show "last (open_points B w) = Remodal_open B w"
    using a by (simp add: pts Remodal_open_def)
next
  show "Remodal_open_notifying (\<lambda>el name v. v) B w = Remodal_open B w"
    by (rule nobody_notified(3))
qed

theorem one_instance_open_at_a_time_witness:
  "reachable_in_turn (Remodal_open (Suc 0) (Remodal_open 0 (two_dialogs fade_css)))
   \<and> state (instances (Remodal_open (Suc 0) (Remodal_open 0 (two_dialogs fade_css))) (Suc 0)) = OPENING
   \<and> state (instances (Remodal_open (Suc 0) (Remodal_open 0 (two_dialogs fade_css))) 0) = CLOSED
   \<and> current (Remodal_open 0 (two_dialogs fade_css)) = Some 0
   \<and> state (instances (Remodal_open 0 (two_dialogs fade_css)) 0) = OPENING
   \<and> state (instances (Remodal_open 0 (two_dialogs fade_css)) (Suc 0)) = CLOSED
   \<and> state (instances (open_points (Suc 0) (Remodal_open 0 (two_dialogs fade_css)) ! 2) 0) = CLOSED
   \<and> state (instances (open_points (Suc 0) (Remodal_open 0 (two_dialogs fade_css)) ! 2) (Suc 0)) = CLOSED
   \<and> state (instances (open_points (Suc 0) (Remodal_open 0 (two_dialogs fade_css)) ! 11) (Suc 0)) = OPENING"
proof -
  let ?W = "Remodal_open 0 (two_dialogs fade_css)"
  let ?V = "Remodal_open (Suc 0) ?W"
  let ?pts = "open_points (Suc 0) ?W"
  have r1: "reachable_in_turn ?W"
    by (rule reachable_in_turn.open_point [OF reachable_two_dialogs [of fade_css], of 0])
      (simp_all add: Remodal_open_current)
  have r2: "reachable_in_turn ?V"
    by (rule reachable_in_turn.open_point [OF r1, of "Suc 0"])
      (simp_all add: opening_second Remodal_open_current)
  have l2: "length (lookup ?V) = 2"
    by simp
  have len: "length ?pts = 13"
    by (simp add: open_points_unfold length_rest_points)
  have m2: "?pts ! 2 \<in> set (drop 2 ?pts)" "?pts ! 2 \<in> set (take 11 ?pts)"
  proof -
    have e: "drop 2 ?pts ! 0 = ?pts ! 2"
      by (simp add: len)
    have "drop 2 ?pts ! 0 \<in> set (drop 2 ?pts)"
      by (rule nth_mem) (simp add: len)
    then show "?pts ! 2 \<in> set (drop 2 ?pts)"
      unfolding e .
    show "?pts ! 2 \<in> set (take 11 ?pts)"
      unfolding in_set_conv_nth by (rule exI [of _ 2]) (simp add: len)
  qed
  note one = one_instance_open_at_a_time [of ?V 0 "Suc 0"]
  note halted_first = one_instance_open_at_a_time [of ?W 0 "Suc 0"]
  have a: "state (instances ?V 0) = CLOSED"
  proof (rule ccontr)
    assume "state (instances ?V 0) \<noteq> CLOSED"
    moreover have "state (instances ?V (Suc 0)) \<noteq> CLOSED"
      by (simp add: opening_second(5))
    ultimately have "(0::nat) = Suc 0"
      using one r2 l2 by (metis lessI less_Suc_eq numeral_2_eq_2)
    then show False by simp
  qed
  have h: "current ?W = Some 0 \<and> (0::nat) \<noteq> Suc 0
       \<and> state (instances ?W (Suc 0)) \<noteq> OPENING \<and> state (instances ?W (Suc 0)) \<noteq> CLOSING"
    by (simp add: opening_second)
  have b: "state (instances (?pts ! 2) 0) = CLOSED"
    using halted_first h m2(1) by blast
  have c: "state (instances (?pts ! 2) (Suc 0)) = state (instances ?W (Suc 0))"
    using halted_first h m2(2) by blast
  have d: "state (instances (?pts ! 11) (Suc 0)) = OPENING"
    using halted_first h by blast
  show ?thesis
    using r2 a b c d opening_second by simp
qed

end
